theory Spec2Isabelle
  imports Complex_Main "HOL-Library.AList"
begin

section \<open>Data model\<close>

text \<open>
  The matchmaking queue (queueManager.js) and the match engine (matchManager.js) keep
  their state in three module-level JavaScript Maps: \<open>queues\<close>, \<open>activeMatches\<close> and
  (in gameManager.js) \<open>activeSessions\<close>. A JavaScript Map keeps insertion order, so the
  Maps that the code iterates over are association lists here (\<open>map_of\<close> is \<open>get\<close>,
  \<open>AList.update\<close> is \<open>set\<close>, \<open>AList.delete\<close> is \<open>delete\<close>).

  WebSocket objects are shared between queue entries, match players and session players
  and are mutated by \<open>createMatch\<close>; they live in a store indexed by a handle. What a
  socket has been sent is the list \<open>outbox\<close>, oldest message first.

  Numbers: hit points, damage and counters are integers in every reachable state
  (\<open>damage\<close> starts at 5 and grows by 5; \<open>hp\<close> starts at 200), so they are \<open>int\<close>.
  \<open>Date.now()\<close> and the random identifiers are parameters.

  What a client sends comes out of \<open>JSON.parse\<close> and is not checked. The payload of a
  message is an object whose fields are the arguments of the handler here. Identifiers
  (\<open>matchId\<close>, \<open>sessionCode\<close>, \<open>studentId\<close>, \<open>spellId\<close>) are strings. The
  position of a move may be missing, and each of its coordinates is a \<open>jsNumber\<close>, the
  number that \<open>Math.min\<close> makes of the value it is given. The target of a spell hit is
  the property key \<open>match[hitPlayerId]\<close> is read with, any string.

  Every handler is modelled as running to completion: interleaving of other handlers at
  the \<open>await\<close> points of the storage calls is not modelled.
\<close>

type_synonym wsId = nat
type_synonym timerId = nat

datatype playerKey = Player1 | Player2

datatype status = waiting | active | completed

text \<open>
  A JavaScript number: a finite double, one of the two infinities (\<open>JSON.parse\<close> reads
  \<open>1e999\<close> as \<open>Infinity\<close>) or NaN. \<open>Math.min\<close> and \<open>Math.max\<close> convert their
  arguments with ToNumber, so a coordinate \<open>position.x\<close> enters as its ToNumber image:
  \<open>NaN\<close> for a coordinate that is missing, \<open>undefined\<close>, a non-numeric string or an
  object, \<open>Finite 0\<close> for \<open>null\<close>, \<open>Finite 50\<close> for \<open>"50"\<close>. The finite doubles are
  embedded in the reals.
\<close>

datatype jsNumber = Finite real | PosInfinity | NegInfinity | NaN

record position =
  pos_x :: jsNumber
  pos_y :: jsNumber

record socket =
  ws_open :: bool
  ws_matchId :: "string option"
  ws_playerId :: "playerKey option"

record queueEntry =
  q_studentId :: string
  q_ws :: wsId
  q_sessionCode :: string
  q_damage :: int
  q_hp :: int
  q_selectedCharacter :: "string option"
  q_studentNickname :: string
  q_enteredAt :: nat

text \<open>A player of a tournament session (the values of \<open>session.players\<close>).\<close>

record tplayer =
  tp_ws :: wsId
  tp_studentId :: string
  tp_studentNickname :: string
  tp_selectedCharacter :: "string option"
  tp_correctAnswers :: int
  tp_damage :: int
  tp_hp :: int
  tp_inQueue :: bool
  tp_matchId :: "string option"
  tp_damageDealt :: "int option"
  tp_damageReceived :: "int option"
  tp_eliminated :: bool

record session =
  sess_players :: "(string \<times> tplayer) list"

record matchPlayer =
  mp_id :: string
  mp_ws :: wsId
  mp_nickname :: string
  mp_character :: "string option"
  mp_hp :: int
  mp_damage :: int
  mp_position :: position
  mp_ready :: bool
  mp_correctAnswers :: int
  mp_damageDealt :: "int option"
  mp_damageReceived :: "int option"

record spell =
  sp_id :: string
  sp_type :: string
  sp_startPosition :: position
  sp_targetPosition :: position
  sp_direction :: int
  sp_damage :: int
  sp_speed :: int
  sp_owner :: playerKey
  sp_casterId :: playerKey
  sp_createdAt :: nat

record gameMatch =
  m_id :: string
  m_sessionCode :: string
  m_player1 :: matchPlayer
  m_player2 :: matchPlayer
  m_currentRound :: nat
  m_roundTimer :: "timerId option"
  m_status :: status
  m_activeSpells :: "spell list"

subsection \<open>Outbound messages\<close>

record spellHitMsg =
  sh_spellId :: string
  sh_target :: playerKey
  sh_damage :: int
  sh_remainingHp :: int
  sh_oldHp :: int
  sh_player1Hp :: int
  sh_player2Hp :: int

text \<open>
  The \<open>spell-hit\<close> message for a target that is not one of the two players:
  \<open>remainingHp\<close> is NaN and \<open>oldHp\<close> is \<open>undefined\<close> or NaN, so neither carries a
  number; the target is the key as the client sent it.
\<close>

record spellHitOther =
  so_spellId :: string
  so_target :: string
  so_damage :: int
  so_player1Hp :: int
  so_player2Hp :: int

record playerResult =
  pr_id :: string
  pr_nickname :: string
  pr_hp :: int
  pr_place :: nat
  pr_correctAnswers :: int
  pr_damageDealt :: int
  pr_damageReceived :: int

record matchFoundMsg =
  mf_matchId :: string
  mf_opponentId :: string
  mf_opponentNickname :: string
  mf_opponentCharacter :: "string option"
  mf_opponentDamage :: int
  mf_isPlayer1 :: bool
  mf_isPlayer2 :: bool

record tournamentWinner =
  tw_id :: string
  tw_nickname :: string
  tw_hp :: int
  tw_correctAnswers :: int
  tw_damageDealt :: int
  tw_damageReceived :: int

datatype message =
    MsgError string
  | QueueJoined nat
  | QueueLeft
  | MatchFound matchFoundMsg
  | OpponentMove position playerKey
  | SpellCast spell
  | SpellHit spellHitMsg
  | SpellHitOther spellHitOther
  | RoundStart nat nat int int
  | RoundEnd nat int int
  | MatchEnd string playerResult playerResult
  | TournamentEnd tournamentWinner

subsection \<open>Timers and storage\<close>

text \<open>
  \<open>setTimeout\<close> registers a callback under a fresh handle; \<open>clearTimeout\<close> removes
  it. The three callbacks the code registers are the three constructors.
\<close>

datatype timerAction =
    TEndRound string
  | TStartRound string
  | TTryMatch string

text \<open>
  The storage collaborator (the \<open>sql\<close> tagged template). A query either rejects, which
  the awaiting handler sees as a thrown exception, or resolves to its rows. The outcome of
  each query of \<open>endMatch\<close> is given by the environment.
\<close>

datatype 'a sqlResult = SqlThrows | SqlRows "'a list"

record dbSessionRow =
  db_id :: nat
  db_game_id :: nat

record userRow =
  u_name :: string
  u_surname :: string
  u_grade :: int
  u_class :: int
  u_number :: int

record storage =
  selectSession :: "string \<Rightarrow> dbSessionRow sqlResult"
  selectUser :: "string \<Rightarrow> userRow sqlResult"
  insertResultsThrows :: bool
  updateSessionThrows :: bool

record resultRow =
  rr_session_id :: nat
  rr_game_id :: nat
  rr_student_id :: string
  rr_user :: userRow
  rr_nickname :: string
  rr_correct_cards :: int
  rr_xp_earned :: int
  rr_damage_dealt :: int
  rr_damage_received :: int
  rr_final_place :: nat
  rr_final_hp :: int

datatype dbWrite =
    InsertResults resultRow resultRow
  | MarkSessionCompleted string

text \<open>How a handler ended: it returned, or an exception left it.\<close>

datatype outcome = Returned | Threw

subsection \<open>The state of the server\<close>

text \<open>
  \<open>protoDamageReceived\<close> is the property \<open>damageReceived\<close> of \<open>Object.prototype\<close>,
  which every object without a \<open>damageReceived\<close> of its own inherits. It is absent
  (\<open>None\<close>) until \<open>handleSpellHit\<close> is sent the target \<open>'__proto__'\<close>.
\<close>

record state =
  queues :: "(string \<times> queueEntry list) list"
  activeMatches :: "(string \<times> gameMatch) list"
  activeSessions :: "string \<rightharpoonup> session"
  sockets :: "wsId \<Rightarrow> socket"
  outbox :: "(wsId \<times> message) list"
  timers :: "timerId \<rightharpoonup> timerAction"
  nextTimer :: timerId
  dbWrites :: "dbWrite list"
  protoDamageReceived :: "int option"

section \<open>Helpers for the JavaScript idioms\<close>

text \<open>\<open>v || d\<close> on a number: \<open>0\<close> is falsy.\<close>

definition orDefault :: "int \<Rightarrow> int \<Rightarrow> int" where
  "orDefault v d = (if v = 0 then d else v)"

text \<open>\<open>v || 0\<close> on a field that may be undefined.\<close>

definition orZero :: "int option \<Rightarrow> int" where
  "orZero v = (case v of None \<Rightarrow> 0 | Some n \<Rightarrow> n)"

text \<open>
  Reading \<open>x.damageReceived\<close>: the property of the object itself when it has one, else
  the one it inherits from \<open>Object.prototype\<close>.
\<close>

definition received :: "int option \<Rightarrow> int option \<Rightarrow> int option" where
  "received proto own = (case own of None \<Rightarrow> proto | Some n \<Rightarrow> Some n)"

text \<open>
  \<open>Math.min\<close> and \<open>Math.max\<close> of two numbers: NaN if either is NaN.
\<close>

fun mathMin :: "jsNumber \<Rightarrow> jsNumber \<Rightarrow> jsNumber" where
  "mathMin NaN b = NaN"
| "mathMin a NaN = NaN"
| "mathMin NegInfinity b = NegInfinity"
| "mathMin a NegInfinity = NegInfinity"
| "mathMin PosInfinity b = b"
| "mathMin a PosInfinity = a"
| "mathMin (Finite x) (Finite y) = Finite (min x y)"

fun mathMax :: "jsNumber \<Rightarrow> jsNumber \<Rightarrow> jsNumber" where
  "mathMax NaN b = NaN"
| "mathMax a NaN = NaN"
| "mathMax PosInfinity b = PosInfinity"
| "mathMax a PosInfinity = PosInfinity"
| "mathMax NegInfinity b = b"
| "mathMax a NegInfinity = a"
| "mathMax (Finite x) (Finite y) = Finite (max x y)"

text \<open>
  \<open>a + d\<close> and \<open>a - d\<close> for a finite \<open>d\<close>: NaN and the infinities stay. The sum of
  two finite doubles is taken in the reals; its rounding to a double is not modelled.
\<close>

definition plusOffset :: "jsNumber \<Rightarrow> real \<Rightarrow> jsNumber" where
  "plusOffset a d = (case a of Finite x \<Rightarrow> Finite (x + d) | _ \<Rightarrow> a)"


text \<open>\<open>if (ws.readyState === WebSocket.OPEN) ws.send(msg)\<close>\<close>

definition sendIfOpen :: "wsId \<Rightarrow> message \<Rightarrow> state \<Rightarrow> state" where
  "sendIfOpen w msg s =
     (if ws_open (sockets s w) then s\<lparr>outbox := outbox s @ [(w, msg)]\<rparr> else s)"

text \<open>\<open>ws.send(msg)\<close> without a check of the ready state (the error replies).\<close>

definition send :: "wsId \<Rightarrow> message \<Rightarrow> state \<Rightarrow> state" where
  "send w msg s = s\<lparr>outbox := outbox s @ [(w, msg)]\<rparr>"

definition setTimeout :: "timerAction \<Rightarrow> state \<Rightarrow> timerId \<times> state" where
  "setTimeout act s =
     (nextTimer s, s\<lparr>timers := (timers s)(nextTimer s \<mapsto> act), nextTimer := Suc (nextTimer s)\<rparr>)"

definition clearTimeout :: "timerId \<Rightarrow> state \<Rightarrow> state" where
  "clearTimeout t s = s\<lparr>timers := (timers s)(t := None)\<rparr>"

text \<open>\<open>match[key]\<close> for the two keys that name a player, and writing the player back.\<close>

definition getPlayer :: "gameMatch \<Rightarrow> playerKey \<Rightarrow> matchPlayer" where
  "getPlayer m k = (case k of Player1 \<Rightarrow> m_player1 m | Player2 \<Rightarrow> m_player2 m)"

definition setPlayer :: "playerKey \<Rightarrow> matchPlayer \<Rightarrow> gameMatch \<Rightarrow> gameMatch" where
  "setPlayer k p m = (case k of Player1 \<Rightarrow> m\<lparr>m_player1 := p\<rparr> | Player2 \<Rightarrow> m\<lparr>m_player2 := p\<rparr>)"

section \<open>matchManager.js: the pure functions\<close>


text \<open>
  \<open>Math.floor(baseDamage * 1.5)\<close> for an integer \<open>baseDamage\<close>. The product of two
  doubles is the exact product rounded to the nearest double, ties to the even
  significand. The exact product is \<open>n / 2\<close> with \<open>n = 3 * baseDamage\<close>. A double has a
  significand of 53 bits: when \<open>n\<close> has at most 53 bits, \<open>n / 2\<close> is a double and the
  product is exact. When \<open>n\<close> has \<open>53 + s\<close> bits with \<open>s > 0\<close>, the doubles of that
  magnitude are the multiples of \<open>2 ^ s / 2\<close>; \<open>roundTiesToEven n s\<close> is the multiple of
  \<open>2 ^ s\<close> nearest to \<open>n\<close>, divided by \<open>2 ^ s\<close>, and the product is that many times
  \<open>2 ^ (s - 1)\<close>, an integer, which \<open>Math.floor\<close> returns as it is. (Damage is an
  \<open>int\<close> here: the products of \<open>2 ^ 1024\<close> and more, which are \<open>Infinity\<close> in
  JavaScript and which only a stat of more than a thousand bits gives, have no
  counterpart.)
\<close>

function bitLength :: "nat \<Rightarrow> nat" where
  "bitLength n = (if n = 0 then 0 else Suc (bitLength (n div 2)))"
  by pat_completeness auto
termination by (relation "measure id") auto

declare bitLength.simps [simp del]

definition roundTiesToEven :: "int \<Rightarrow> nat \<Rightarrow> int" where
  "roundTiesToEven n s =
     (let q = n div 2 ^ s;
          r = n mod 2 ^ s
      in if 2 * r < 2 ^ s then q
         else if 2 ^ s < 2 * r then q + 1
         else if even q then q else q + 1)"

definition floorTimesOneAndHalf :: "int \<Rightarrow> int" where
  "floorTimesOneAndHalf baseDamage =
     (let n = 3 * baseDamage;
          bits = bitLength (nat \<bar>n\<bar>)
      in if bits \<le> 53 then \<lfloor>of_int baseDamage * (1.5 :: real)\<rfloor>
         else roundTiesToEven n (bits - 53) * 2 ^ (bits - 54))"

text \<open>\<open>calculateSpellDamage(spellType, baseDamage)\<close>\<close>

definition calculateSpellDamage :: "string \<Rightarrow> int \<Rightarrow> int" where
  "calculateSpellDamage spellType baseDamage =
     (if spellType = ''fire_arrow'' then baseDamage
      else if spellType = ''water_spell'' then floorTimesOneAndHalf baseDamage
      else baseDamage)"

section \<open>queueManager.js and createMatch\<close>

text \<open>\<open>xs.findIndex(P)\<close>, with \<open>None\<close> for \<open>-1\<close>, and \<open>xs.splice(i, 1)\<close>.\<close>

fun findIndex :: "('a \<Rightarrow> bool) \<Rightarrow> 'a list \<Rightarrow> nat option" where
  "findIndex P [] = None"
| "findIndex P (a # as) =
     (if P a then Some 0 else (case findIndex P as of None \<Rightarrow> None | Some i \<Rightarrow> Some (Suc i)))"

definition spliceAt :: "nat \<Rightarrow> 'a list \<Rightarrow> 'a list" where
  "spliceAt i xs = take i xs @ drop (Suc i) xs"

text \<open>The queue of a session; a session without a queue has no entries.\<close>

definition queueOf :: "state \<Rightarrow> string \<Rightarrow> queueEntry list" where
  "queueOf s sessionCode = (case map_of (queues s) sessionCode of None \<Rightarrow> [] | Some q \<Rightarrow> q)"

text \<open>
  \<open>createMatch(sessionCode, player1, player2)\<close>. The identifier built from the clock and
  \<open>Math.random\<close> is the parameter \<open>matchId\<close>. \<open>p1Data?.hp || 200\<close> reads the
  tournament record when the session and the player exist.
\<close>

definition newMatchPlayer :: "tplayer option \<Rightarrow> queueEntry \<Rightarrow> position \<Rightarrow> matchPlayer" where
  "newMatchPlayer pData player pos =
     \<lparr>mp_id = q_studentId player,
      mp_ws = q_ws player,
      mp_nickname = q_studentNickname player,
      mp_character = q_selectedCharacter player,
      mp_hp = (case pData of None \<Rightarrow> 200 | Some d \<Rightarrow> orDefault (tp_hp d) 200),
      mp_damage = orDefault (q_damage player) 5,
      mp_position = pos,
      mp_ready = False,
      mp_correctAnswers = (case pData of None \<Rightarrow> 0 | Some d \<Rightarrow> orDefault (tp_correctAnswers d) 0),
      mp_damageDealt = None,
      mp_damageReceived = None\<rparr>"

definition sessionPlayer :: "state \<Rightarrow> string \<Rightarrow> string \<Rightarrow> tplayer option" where
  "sessionPlayer s sessionCode studentId =
     (case activeSessions s sessionCode of
        None \<Rightarrow> None
      | Some session \<Rightarrow> map_of (sess_players session) studentId)"

definition setSocketMatch :: "wsId \<Rightarrow> string \<Rightarrow> playerKey \<Rightarrow> state \<Rightarrow> state" where
  "setSocketMatch w matchId k s =
     s\<lparr>sockets := (sockets s)(w := (sockets s w)\<lparr>ws_matchId := Some matchId, ws_playerId := Some k\<rparr>)\<rparr>"

definition newMatch :: "string \<Rightarrow> string \<Rightarrow> queueEntry \<Rightarrow> queueEntry \<Rightarrow> state \<Rightarrow> gameMatch" where
  "newMatch matchId sessionCode player1 player2 s =
     (let p1Data = sessionPlayer s sessionCode (q_studentId player1);
          p2Data = sessionPlayer s sessionCode (q_studentId player2)
      in \<lparr>m_id = matchId,
          m_sessionCode = sessionCode,
          m_player1 = newMatchPlayer p1Data player1 \<lparr>pos_x = Finite 100, pos_y = Finite 300\<rparr>,
          m_player2 = newMatchPlayer p2Data player2 \<lparr>pos_x = Finite 700, pos_y = Finite 300\<rparr>,
          m_currentRound = 0,
          m_roundTimer = None,
          m_status = waiting,
          m_activeSpells = []\<rparr>)"

definition createMatch :: "string \<Rightarrow> string \<Rightarrow> queueEntry \<Rightarrow> queueEntry \<Rightarrow> state \<Rightarrow> state" where
  "createMatch matchId sessionCode player1 player2 s =
     (let m = newMatch matchId sessionCode player1 player2 s;
          s1 = s\<lparr>activeMatches := AList.update matchId m (activeMatches s)\<rparr>
      in setSocketMatch (q_ws player2) matchId Player2
           (setSocketMatch (q_ws player1) matchId Player1 s1))"

text \<open>\<open>const p = session.players.get(id); if (p) p.inQueue = false\<close>\<close>

definition markNotInQueue :: "string \<Rightarrow> (string \<times> tplayer) list \<Rightarrow> (string \<times> tplayer) list" where
  "markNotInQueue studentId ps =
     (case map_of ps studentId of
        None \<Rightarrow> ps
      | Some p \<Rightarrow> AList.update studentId (p\<lparr>tp_inQueue := False\<rparr>) ps)"

definition clearInQueue :: "string \<Rightarrow> string list \<Rightarrow> state \<Rightarrow> state" where
  "clearInQueue sessionCode ids s =
     (case activeSessions s sessionCode of
        None \<Rightarrow> s
      | Some session \<Rightarrow>
          s\<lparr>activeSessions := (activeSessions s)(sessionCode \<mapsto>
               session\<lparr>sess_players := foldl (\<lambda>ps i. markNotInQueue i ps) (sess_players session) ids\<rparr>)\<rparr>)"

definition matchFound :: "string \<Rightarrow> queueEntry \<Rightarrow> bool \<Rightarrow> message" where
  "matchFound matchId opponent first =
     MatchFound \<lparr>mf_matchId = matchId,
                 mf_opponentId = q_studentId opponent,
                 mf_opponentNickname = q_studentNickname opponent,
                 mf_opponentCharacter = q_selectedCharacter opponent,
                 mf_opponentDamage = q_damage opponent,
                 mf_isPlayer1 = first,
                 mf_isPlayer2 = (\<not> first)\<rparr>"

text \<open>
  \<open>tryMatch(sessionCode)\<close>: one pairing. Two \<open>queue.shift()\<close> take the two entries at the
  head; when two or more entries remain, a further \<open>tryMatch\<close> is registered with
  \<open>setTimeout\<close>.
\<close>

definition tryMatch :: "string \<Rightarrow> string \<Rightarrow> state \<Rightarrow> state" where
  "tryMatch matchId sessionCode s =
     (case map_of (queues s) sessionCode of
        None \<Rightarrow> s
      | Some queue \<Rightarrow>
          (case queue of
             player1 # player2 # rest \<Rightarrow>
               (let s1 = s\<lparr>queues := AList.update sessionCode rest (queues s)\<rparr>;
                    s2 = clearInQueue sessionCode [q_studentId player1, q_studentId player2] s1;
                    s3 = createMatch matchId sessionCode player1 player2 s2;
                    s4 = sendIfOpen (q_ws player1) (matchFound matchId player2 True) s3;
                    s5 = sendIfOpen (q_ws player2) (matchFound matchId player1 False) s4
                in if length rest \<ge> 2 then snd (setTimeout (TTryMatch sessionCode) s5) else s5)
           | _ \<Rightarrow> s))"

text \<open>
  \<open>enterQueue(ws, {sessionCode, studentId})\<close>. \<open>now\<close> is \<open>Date.now()\<close>; \<open>matchId\<close> is the
  identifier a pairing triggered by this call would generate.
\<close>

definition newQueueEntry :: "nat \<Rightarrow> wsId \<Rightarrow> string \<Rightarrow> string \<Rightarrow> tplayer \<Rightarrow> queueEntry" where
  "newQueueEntry now ws sessionCode studentId player =
     \<lparr>q_studentId = studentId,
      q_ws = ws,
      q_sessionCode = sessionCode,
      q_damage = tp_damage player,
      q_hp = tp_hp player,
      q_selectedCharacter = tp_selectedCharacter player,
      q_studentNickname = tp_studentNickname player,
      q_enteredAt = now\<rparr>"

text \<open>\<open>if (!queues.has(sessionCode)) queues.set(sessionCode, [])\<close>\<close>

definition ensureQueue :: "string \<Rightarrow> state \<Rightarrow> state" where
  "ensureQueue sessionCode s =
     (if map_of (queues s) sessionCode = None
      then s\<lparr>queues := AList.update sessionCode [] (queues s)\<rparr> else s)"

definition enterQueue :: "string \<Rightarrow> nat \<Rightarrow> wsId \<Rightarrow> string \<Rightarrow> string \<Rightarrow> state \<Rightarrow> state" where
  "enterQueue matchId now ws sessionCode studentId s =
     (let s0 = ensureQueue sessionCode s;
          queue = queueOf s0 sessionCode
      in if \<exists>p \<in> set queue. q_studentId p = studentId
         then send ws (MsgError ''Already in queue'') s0
         else
           (case activeSessions s0 sessionCode of
              None \<Rightarrow> send ws (MsgError ''Session not found'') s0
            | Some session \<Rightarrow>
                (case map_of (sess_players session) studentId of
                   None \<Rightarrow> send ws (MsgError ''Player not found in session'') s0
                 | Some player \<Rightarrow>
                     if tp_eliminated player \<or> tp_hp player \<le> 0
                     then send ws (MsgError ''You have been eliminated from the tournament'') s0
                     else
                       (let player' = player\<lparr>tp_matchId := None, tp_inQueue := True\<rparr>;
                            s1 = s0\<lparr>activeSessions := (activeSessions s0)(sessionCode \<mapsto>
                                   session\<lparr>sess_players :=
                                     AList.update studentId player' (sess_players session)\<rparr>)\<rparr>;
                            queue' = queue @ [newQueueEntry now ws sessionCode studentId player'];
                            s2 = s1\<lparr>queues := AList.update sessionCode queue' (queues s1)\<rparr>;
                            s3 = send ws (QueueJoined (length queue')) s2
                        in if length queue' \<ge> 2 then tryMatch matchId sessionCode s3 else s3))))"

text \<open>
  \<open>removeFromQueue(studentId)\<close>: the loop over \<open>queues.entries()\<close> stops at the first
  queue that holds the student.
\<close>

fun removeFromQueueLoop :: "string \<Rightarrow> (string \<times> queueEntry list) list \<Rightarrow> state \<Rightarrow> state" where
  "removeFromQueueLoop studentId [] s = s"
| "removeFromQueueLoop studentId ((sessionCode, queue) # others) s =
     (case findIndex (\<lambda>p. q_studentId p = studentId) queue of
        None \<Rightarrow> removeFromQueueLoop studentId others s
      | Some i \<Rightarrow>
          (let s1 = s\<lparr>queues := AList.update sessionCode (spliceAt i queue) (queues s)\<rparr>;
               s2 = clearInQueue sessionCode [studentId] s1
           in sendIfOpen (q_ws (queue ! i)) QueueLeft s2))"

definition removeFromQueue :: "string \<Rightarrow> state \<Rightarrow> state" where
  "removeFromQueue studentId s = removeFromQueueLoop studentId (queues s) s"

text \<open>\<open>getQueuePosition(sessionCode, studentId)\<close>: 1-based, \<open>None\<close> for \<open>null\<close>.\<close>

definition getQueuePosition :: "state \<Rightarrow> string \<Rightarrow> string \<Rightarrow> nat option" where
  "getQueuePosition s sessionCode studentId =
     (case map_of (queues s) sessionCode of
        None \<Rightarrow> None
      | Some queue \<Rightarrow>
          (case findIndex (\<lambda>p. q_studentId p = studentId) queue of
             None \<Rightarrow> None
           | Some i \<Rightarrow> Some (i + 1)))"


section \<open>matchManager.js: the handlers\<close>

definition getMatch :: "state \<Rightarrow> string \<Rightarrow> gameMatch option" where
  "getMatch s matchId = map_of (activeMatches s) matchId"

definition putMatch :: "string \<Rightarrow> gameMatch \<Rightarrow> state \<Rightarrow> state" where
  "putMatch matchId m s = s\<lparr>activeMatches := AList.update matchId m (activeMatches s)\<rparr>"

text \<open>Sending one message to both sides, player1 first, each only if its socket is open.\<close>

definition broadcast :: "gameMatch \<Rightarrow> message \<Rightarrow> state \<Rightarrow> state" where
  "broadcast m msg s =
     sendIfOpen (mp_ws (m_player2 m)) msg (sendIfOpen (mp_ws (m_player1 m)) msg s)"

text \<open>
  \<open>startRound(matchId)\<close>. The handle of the new round timer overwrites
  \<open>match.roundTimer\<close>; a timer that was armed before is not cleared.
\<close>

definition startRound :: "string \<Rightarrow> state \<Rightarrow> state" where
  "startRound matchId s =
     (case getMatch s matchId of
        None \<Rightarrow> s
      | Some m \<Rightarrow>
          (let (t, s1) = setTimeout (TEndRound matchId) s;
               m1 = m\<lparr>m_status := active,
                      m_currentRound := Suc (m_currentRound m),
                      m_player1 := (m_player1 m)\<lparr>mp_ready := False\<rparr>,
                      m_player2 := (m_player2 m)\<lparr>mp_ready := False\<rparr>,
                      m_activeSpells := [],
                      m_roundTimer := Some t\<rparr>
           in broadcast m1
                (RoundStart (m_currentRound m1) 10000 (mp_hp (m_player1 m1)) (mp_hp (m_player2 m1)))
                (putMatch matchId m1 s1)))"

text \<open>
  \<open>handleRoundReady(ws, {matchId})\<close>. \<open>ws.playerId\<close> is undefined until
  \<open>createMatch\<close> has set it, and then \<open>match[undefined]\<close> is undefined.
\<close>

definition handleRoundReady :: "wsId \<Rightarrow> string \<Rightarrow> state \<Rightarrow> state" where
  "handleRoundReady ws matchId s =
     (case getMatch s matchId of
        None \<Rightarrow> s
      | Some m \<Rightarrow>
          (case ws_playerId (sockets s ws) of
             None \<Rightarrow> s
           | Some k \<Rightarrow>
               (let m1 = setPlayer k ((getPlayer m k)\<lparr>mp_ready := True\<rparr>) m;
                    s1 = putMatch matchId m1 s
                in if mp_ready (m_player1 m1) \<and> mp_ready (m_player2 m1)
                   then startRound matchId s1 else s1)))"


text \<open>
  \<open>handleSpellCast(ws, {matchId, spellType, direction})\<close>. \<open>spellId\<close> stands for the
  generated identifier and \<open>now\<close> for \<open>Date.now()\<close>. \<open>newSpell\<close> is the spell object
  the handler builds: the damage from the caster's stat, the start 40 units from the
  caster in the direction of the cast, the target a copy of the opponent's position.
\<close>

definition newSpell :: "string \<Rightarrow> nat \<Rightarrow> playerKey \<Rightarrow> string \<Rightarrow> int \<Rightarrow> gameMatch \<Rightarrow> spell" where
  "newSpell spellId now k spellType direction m =
     (let player = getPlayer m k;
          damage = calculateSpellDamage spellType (mp_damage player);
          offsetDistance = 40;
          opponent = (if k = Player1 then m_player2 m else m_player1 m);
          startPosition =
            (if direction = 1
             then \<lparr>pos_x = plusOffset (pos_x (mp_position player)) offsetDistance,
                   pos_y = pos_y (mp_position player)\<rparr>
             else \<lparr>pos_x = plusOffset (pos_x (mp_position player)) (- offsetDistance),
                   pos_y = pos_y (mp_position player)\<rparr>)
      in \<lparr>sp_id = spellId,
          sp_type = spellType,
          sp_startPosition = startPosition,
          sp_targetPosition = mp_position opponent,
          sp_direction = direction,
          sp_damage = damage,
          sp_speed = (if spellType = ''fire_arrow'' then 10 else 5),
          sp_owner = k,
          sp_casterId = k,
          sp_createdAt = now\<rparr>)"

definition handleSpellCast ::
  "string \<Rightarrow> nat \<Rightarrow> wsId \<Rightarrow> string \<Rightarrow> string \<Rightarrow> int \<Rightarrow> state \<Rightarrow> state" where
  "handleSpellCast spellId now ws matchId spellType direction s =
     (case getMatch s matchId of
        None \<Rightarrow> s
      | Some m \<Rightarrow>
          if m_status m \<noteq> active then s
          else
            (case ws_playerId (sockets s ws) of
               None \<Rightarrow> s
             | Some k \<Rightarrow>
                 (let sp = newSpell spellId now k spellType direction m;
                      m1 = m\<lparr>m_activeSpells := m_activeSpells m @ [sp]\<rparr>
                  in broadcast m1 (SpellCast sp) (putMatch matchId m1 s))))"

subsection \<open>endMatch\<close>

text \<open>
  The writes to the two tournament records (the block under \<open>if (session)\<close>).
  \<open>proto\<close> is \<open>Object.prototype.damageReceived\<close>, read where an object has no
  \<open>damageReceived\<close> of its own.
\<close>

definition updateWinner :: "matchPlayer \<Rightarrow> (string \<times> tplayer) list \<Rightarrow> (string \<times> tplayer) list" where
  "updateWinner winner ps =
     (case map_of ps (mp_id winner) of
        None \<Rightarrow> ps
      | Some winnerPlayer \<Rightarrow>
          AList.update (mp_id winner)
            (winnerPlayer\<lparr>tp_hp := mp_hp winner,
                          tp_damageDealt :=
                            Some (orZero (tp_damageDealt winnerPlayer) + orZero (mp_damageDealt winner))\<rparr>)
            ps)"

definition updateLoser ::
  "int option \<Rightarrow> matchPlayer \<Rightarrow> (string \<times> tplayer) list \<Rightarrow> (string \<times> tplayer) list" where
  "updateLoser proto loser ps =
     (case map_of ps (mp_id loser) of
        None \<Rightarrow> ps
      | Some loserPlayer \<Rightarrow>
          AList.update (mp_id loser)
            (loserPlayer\<lparr>tp_hp := 0,
                         tp_damageReceived :=
                           Some (orZero (received proto (tp_damageReceived loserPlayer)) +
                                 orZero (received proto (mp_damageReceived loser))),
                         tp_eliminated := True\<rparr>)
            ps)"

definition updateSessionPlayers :: "gameMatch \<Rightarrow> matchPlayer \<Rightarrow> matchPlayer \<Rightarrow> state \<Rightarrow> state" where
  "updateSessionPlayers m winner loser s =
     (case activeSessions s (m_sessionCode m) of
        None \<Rightarrow> s
      | Some session \<Rightarrow>
          s\<lparr>activeSessions := (activeSessions s)(m_sessionCode m \<mapsto>
               session\<lparr>sess_players :=
                 updateLoser (protoDamageReceived s) loser (updateWinner winner (sess_players session))\<rparr>)\<rparr>)"

text \<open>The two rows of the \<open>INSERT INTO mini_game_results\<close>.\<close>

definition resultRowOf ::
  "int option \<Rightarrow> dbSessionRow \<Rightarrow> userRow \<Rightarrow> matchPlayer \<Rightarrow> nat \<Rightarrow> resultRow" where
  "resultRowOf proto dbSession u p place =
     \<lparr>rr_session_id = db_id dbSession,
      rr_game_id = db_game_id dbSession,
      rr_student_id = mp_id p,
      rr_user = u,
      rr_nickname = mp_nickname p,
      rr_correct_cards = orDefault (mp_correctAnswers p) 0,
      rr_xp_earned = orDefault (mp_correctAnswers p) 0 * 10,
      rr_damage_dealt = orZero (mp_damageDealt p),
      rr_damage_received = orZero (received proto (mp_damageReceived p)),
      rr_final_place = place,
      rr_final_hp = mp_hp p\<rparr>"

text \<open>The \<open>match-end\<close> message, the same object for both sides.\<close>

definition playerResultOf :: "int option \<Rightarrow> string \<Rightarrow> matchPlayer \<Rightarrow> playerResult" where
  "playerResultOf proto winnerId p =
     \<lparr>pr_id = mp_id p,
      pr_nickname = mp_nickname p,
      pr_hp = mp_hp p,
      pr_place = (if winnerId = mp_id p then 1 else 2),
      pr_correctAnswers = mp_correctAnswers p,
      pr_damageDealt = orZero (mp_damageDealt p),
      pr_damageReceived = orZero (received proto (mp_damageReceived p))\<rparr>"

definition matchEndMsg :: "int option \<Rightarrow> string \<Rightarrow> gameMatch \<Rightarrow> message" where
  "matchEndMsg proto winnerId m =
     MatchEnd winnerId (playerResultOf proto winnerId (m_player1 m))
                       (playerResultOf proto winnerId (m_player2 m))"

text \<open>
  The tournament check that closes \<open>endMatch\<close>. With more than one player left, the
  condition \<open>winner.hp > 0 && winnerPlayer && ...\<close> reads \<open>winnerPlayer\<close>, a \<open>const\<close> of
  the earlier \<open>if (session)\<close> block that is not in scope here: when \<open>winner.hp > 0\<close>
  the read raises a ReferenceError, and otherwise \<open>&&\<close> stops before it.
\<close>

definition tournamentWinnerOf :: "int option \<Rightarrow> tplayer \<Rightarrow> tournamentWinner" where
  "tournamentWinnerOf proto p =
     \<lparr>tw_id = tp_studentId p,
      tw_nickname = tp_studentNickname p,
      tw_hp = tp_hp p,
      tw_correctAnswers = tp_correctAnswers p,
      tw_damageDealt = orZero (tp_damageDealt p),
      tw_damageReceived = orZero (received proto (tp_damageReceived p))\<rparr>"

definition checkTournament :: "storage \<Rightarrow> gameMatch \<Rightarrow> matchPlayer \<Rightarrow> state \<Rightarrow> state \<times> outcome" where
  "checkTournament db m winner s =
     (case activeSessions s (m_sessionCode m) of
        None \<Rightarrow> (s, Returned)
      | Some session \<Rightarrow>
          (let activePlayers =
                 filter (\<lambda>p. tp_hp p > 0 \<and> \<not> tp_eliminated p) (map snd (sess_players session))
           in if length activePlayers > 1
              then (if mp_hp winner > 0 then (s, Threw) else (s, Returned))
              else
                (case activePlayers of
                   [finalWinner] \<Rightarrow>
                     (let s1 = foldl (\<lambda>st player.
                                    sendIfOpen (tp_ws player)
                                      (TournamentEnd (tournamentWinnerOf (protoDamageReceived s) finalWinner)) st)
                                 s (map snd (sess_players session))
                      in if updateSessionThrows db then (s1, Threw)
                         else (s1\<lparr>dbWrites := dbWrites s1 @ [MarkSessionCompleted (m_sessionCode m)]\<rparr>,
                               Returned))
                 | _ \<Rightarrow> (s, Returned))))"

text \<open>
  The four storage calls that \<open>endMatch\<close> awaits before it notifies the players. They
  are not inside a \<open>try\<close>: a rejection leaves \<open>endMatch\<close> at that point (\<open>Inl Threw\<close>),
  and so does the \<open>return\<close> taken when the session row is missing (\<open>Inl Returned\<close>).
  The rows are inserted only when both users were found.
\<close>

definition persistResult ::
  "storage \<Rightarrow> gameMatch \<Rightarrow> matchPlayer \<Rightarrow> matchPlayer \<Rightarrow> state \<Rightarrow> outcome + state" where
  "persistResult db m winner loser s =
     (case selectSession db (m_sessionCode m) of
        SqlThrows \<Rightarrow> Inl Threw
      | SqlRows [] \<Rightarrow> Inl Returned
      | SqlRows (dbSession # _) \<Rightarrow>
          (case selectUser db (mp_id winner) of
             SqlThrows \<Rightarrow> Inl Threw
           | SqlRows winnerData \<Rightarrow>
               (case selectUser db (mp_id loser) of
                  SqlThrows \<Rightarrow> Inl Threw
                | SqlRows loserData \<Rightarrow>
                    (case (winnerData, loserData) of
                       (winnerUser # _, loserUser # _) \<Rightarrow>
                         if insertResultsThrows db then Inl Threw
                         else Inr (s\<lparr>dbWrites := dbWrites s @
                                     [InsertResults
                                        (resultRowOf (protoDamageReceived s) dbSession winnerUser winner 1)
                                        (resultRowOf (protoDamageReceived s) dbSession loserUser loser 2)]\<rparr>)
                     | _ \<Rightarrow> Inr s))))"

text \<open>
  The first part of \<open>endMatch\<close>, up to the storage calls: the status, the round timer
  and the two tournament records.
\<close>

definition matchWinner :: "string \<Rightarrow> gameMatch \<Rightarrow> matchPlayer" where
  "matchWinner winnerId m = (if winnerId = mp_id (m_player1 m) then m_player1 m else m_player2 m)"

definition matchLoser :: "string \<Rightarrow> gameMatch \<Rightarrow> matchPlayer" where
  "matchLoser winnerId m = (if winnerId = mp_id (m_player1 m) then m_player2 m else m_player1 m)"

definition settleMatch :: "string \<Rightarrow> string \<Rightarrow> gameMatch \<Rightarrow> state \<Rightarrow> state" where
  "settleMatch matchId winnerId m0 s =
     (let m = m0\<lparr>m_status := completed\<rparr>;
          s1 = putMatch matchId m s;
          s2 = (case m_roundTimer m of None \<Rightarrow> s1 | Some t \<Rightarrow> clearTimeout t s1)
      in updateSessionPlayers m (matchWinner winnerId m) (matchLoser winnerId m) s2)"

text \<open>
  \<open>endMatch(matchId, winnerId)\<close>: settle, persist, then notify both players, remove the
  match from the registry and check whether the tournament is over.
\<close>

definition endMatch :: "storage \<Rightarrow> string \<Rightarrow> string \<Rightarrow> state \<Rightarrow> state \<times> outcome" where
  "endMatch db matchId winnerId s =
     (case getMatch s matchId of
        None \<Rightarrow> (s, Returned)
      | Some m0 \<Rightarrow>
          (let m = m0\<lparr>m_status := completed\<rparr>;
               winner = matchWinner winnerId m;
               loser = matchLoser winnerId m;
               s3 = settleMatch matchId winnerId m0 s
           in case persistResult db m winner loser s3 of
                Inl out \<Rightarrow> (s3, out)
              | Inr s4 \<Rightarrow>
                  (let s5 = broadcast m (matchEndMsg (protoDamageReceived s) winnerId m) s4;
                       s6 = s5\<lparr>activeMatches := AList.delete matchId (activeMatches s5)\<rparr>
                   in checkTournament db m winner s6)))"

text \<open>
  \<open>handlePlayerDisconnect(matchId, playerId)\<close>: the opponent of \<open>'player1'\<close> is
  player2, the opponent of anything else is player1.
\<close>

definition handlePlayerDisconnect ::
  "storage \<Rightarrow> string \<Rightarrow> playerKey option \<Rightarrow> state \<Rightarrow> state \<times> outcome" where
  "handlePlayerDisconnect db matchId playerId s =
     (case getMatch s matchId of
        None \<Rightarrow> (s, Returned)
      | Some m \<Rightarrow>
          endMatch db matchId
            (if playerId = Some Player1 then mp_id (m_player2 m) else mp_id (m_player1 m)) s)"

subsection \<open>endRound and the timers\<close>

text \<open>
  \<open>endRound(matchId)\<close> is the callback of the round timer. Its only guard is the lookup
  of the match in the registry. \<open>endMatch\<close> is called without \<open>await\<close>, so how it ends
  is not seen by \<open>endRound\<close>.
\<close>

definition endRound :: "storage \<Rightarrow> string \<Rightarrow> state \<Rightarrow> state" where
  "endRound db matchId s =
     (case getMatch s matchId of
        None \<Rightarrow> s
      | Some m \<Rightarrow>
          (let s1 = (case m_roundTimer m of None \<Rightarrow> s | Some t \<Rightarrow> clearTimeout t s);
               m1 = m\<lparr>m_roundTimer := None, m_status := waiting\<rparr>;
               s2 = broadcast m1
                      (RoundEnd (m_currentRound m1) (mp_hp (m_player1 m1)) (mp_hp (m_player2 m1)))
                      (putMatch matchId m1 s1)
           in if mp_hp (m_player1 m1) > 0 \<and> mp_hp (m_player2 m1) > 0
              then snd (setTimeout (TStartRound matchId) s2)
              else fst (endMatch db matchId
                          (if mp_hp (m_player1 m1) > 0 then mp_id (m_player1 m1) else mp_id (m_player2 m1))
                          s2)))"

text \<open>
  A timer that fires runs its callback once and is gone; a handle that was cleared, or
  has fired, does nothing. \<open>matchId\<close> is the identifier a pairing would generate.
\<close>

definition fireTimer :: "storage \<Rightarrow> string \<Rightarrow> timerId \<Rightarrow> state \<Rightarrow> state" where
  "fireTimer db matchId t s =
     (case timers s t of
        None \<Rightarrow> s
      | Some act \<Rightarrow>
          (let s1 = s\<lparr>timers := (timers s)(t := None)\<rparr>
           in case act of
                TEndRound mid \<Rightarrow> endRound db mid s1
              | TStartRound mid \<Rightarrow> startRound mid s1
              | TTryMatch sessionCode \<Rightarrow> tryMatch matchId sessionCode s1))"

subsection \<open>handleSpellHit\<close>

text \<open>
  \<open>match[hitPlayerId]\<close>. The key comes from the client unchecked, so it may name any
  property of the match object, its own or inherited from \<open>Object.prototype\<close>; the
  key of a value that is not a string is its string form. What the handler does depends
  on what the property is: one of the two players; another object (the array of spells,
  the armed timer, a method of \<open>Object.prototype\<close>); \<open>Object.prototype\<close> itself, under
  \<open>'__proto__'\<close>; a truthy primitive (a non-empty string, a number other than 0); or a
  falsy value, which includes \<open>undefined\<close> for a key that names nothing. \<open>proto\<close> is
  \<open>Object.prototype.damageReceived\<close>, which the match inherits once it is set.
\<close>

datatype propValue =
    PlayerRef playerKey
  | OtherObject
  | ObjectPrototype
  | TruthyPrimitive
  | Falsy

definition inheritedMethods :: "string list" where
  "inheritedMethods =
     [''constructor'', ''__defineGetter__'', ''__defineSetter__'', ''hasOwnProperty'',
      ''__lookupGetter__'', ''__lookupSetter__'', ''isPrototypeOf'', ''propertyIsEnumerable'',
      ''toString'', ''valueOf'', ''toLocaleString'']"

definition matchProp :: "int option \<Rightarrow> gameMatch \<Rightarrow> string \<Rightarrow> propValue" where
  "matchProp proto m key =
     (if key = ''player1'' then PlayerRef Player1
      else if key = ''player2'' then PlayerRef Player2
      else if key = ''id'' then (if m_id m = [] then Falsy else TruthyPrimitive)
      else if key = ''sessionCode'' then (if m_sessionCode m = [] then Falsy else TruthyPrimitive)
      else if key = ''currentRound'' then (if m_currentRound m = 0 then Falsy else TruthyPrimitive)
      else if key = ''roundTimer'' then (if m_roundTimer m = None then Falsy else OtherObject)
      else if key = ''status'' then TruthyPrimitive
      else if key = ''activeSpells'' then OtherObject
      else if key = ''__proto__'' then ObjectPrototype
      else if key \<in> set inheritedMethods then OtherObject
      else if key = ''damageReceived'' then (if orZero proto = 0 then Falsy else TruthyPrimitive)
      else Falsy)"

text \<open>
  The part of \<open>handleSpellHit\<close> that changes the match once the spell, the hit player and
  the caster are found: the spell is spliced out, the hit player's hp is lowered and
  clamped, and both damage counters grow. The hit player and the caster may be the same
  object, so each write goes through the match.
\<close>

definition applySpellHit :: "int option \<Rightarrow> nat \<Rightarrow> spell \<Rightarrow> playerKey \<Rightarrow> gameMatch \<Rightarrow> gameMatch" where
  "applySpellHit proto spellIndex sp hitPlayerId m =
     (let m1 = m\<lparr>m_activeSpells := spliceAt spellIndex (m_activeSpells m)\<rparr>;
          oldHp = mp_hp (getPlayer m1 hitPlayerId);
          calculatedNewHp = oldHp - sp_damage sp;
          m2 = setPlayer hitPlayerId ((getPlayer m1 hitPlayerId)\<lparr>mp_hp := max 0 calculatedNewHp\<rparr>) m1;
          m3 = setPlayer (sp_owner sp)
                 ((getPlayer m2 (sp_owner sp))
                    \<lparr>mp_damageDealt :=
                       Some (orZero (mp_damageDealt (getPlayer m2 (sp_owner sp))) + sp_damage sp)\<rparr>) m2
      in setPlayer hitPlayerId
           ((getPlayer m3 hitPlayerId)
              \<lparr>mp_damageReceived :=
                 Some (orZero (received proto (mp_damageReceived (getPlayer m3 hitPlayerId))) +
                       sp_damage sp)\<rparr>) m3)"

text \<open>
  The same part when the target is an object that is not a player: the spell is spliced
  out and the caster's \<open>damageDealt\<close> grows; \<open>hp\<close> and \<open>damageReceived\<close> are written
  to the target object, which no player is.
\<close>

definition creditCaster :: "nat \<Rightarrow> spell \<Rightarrow> gameMatch \<Rightarrow> gameMatch" where
  "creditCaster spellIndex sp m =
     (let m1 = m\<lparr>m_activeSpells := spliceAt spellIndex (m_activeSpells m)\<rparr>
      in setPlayer (sp_owner sp)
           ((getPlayer m1 (sp_owner sp))
              \<lparr>mp_damageDealt :=
                 Some (orZero (mp_damageDealt (getPlayer m1 (sp_owner sp))) + sp_damage sp)\<rparr>) m1)"

text \<open>The \<open>spell-hit\<close> message, built from the match after the hit.\<close>

definition spellHitMsgOf :: "string \<Rightarrow> spell \<Rightarrow> playerKey \<Rightarrow> int \<Rightarrow> gameMatch \<Rightarrow> spellHitMsg" where
  "spellHitMsgOf spellId sp hitPlayerId oldHp m =
     \<lparr>sh_spellId = spellId,
      sh_target = hitPlayerId,
      sh_damage = sp_damage sp,
      sh_remainingHp = mp_hp (getPlayer m hitPlayerId),
      sh_oldHp = oldHp,
      sh_player1Hp = mp_hp (m_player1 m),
      sh_player2Hp = mp_hp (m_player2 m)\<rparr>"

definition spellHitOtherOf :: "string \<Rightarrow> string \<Rightarrow> spell \<Rightarrow> gameMatch \<Rightarrow> spellHitOther" where
  "spellHitOtherOf spellId hitPlayerId sp m =
     \<lparr>so_spellId = spellId,
      so_target = hitPlayerId,
      so_damage = sp_damage sp,
      so_player1Hp = mp_hp (m_player1 m),
      so_player2Hp = mp_hp (m_player2 m)\<rparr>"

text \<open>
  \<open>handleSpellHit(matchId, spellId, hitPlayerId)\<close>. The caster is \<open>match[spell.owner]\<close>,
  which \<open>handleSpellCast\<close> has set to a player key, so the test \<open>!caster\<close> never holds.
  After the two tests the spell is spliced out, whatever the target is. Then:

  \<^item> for a player, the hit is applied, \<open>spell-hit\<close> is sent, and \<open>endMatch\<close> is called
    when the hit player's hp is 0;

  \<^item> for a truthy primitive, \<open>hitPlayer.hp = ...\<close> raises a TypeError (a class body is
    strict code), which leaves the handler with the spell removed and nothing else done;

  \<^item> for another object, \<open>hitPlayer.hp\<close> becomes NaN (\<open>undefined - damage\<close>), the
    caster's \<open>damageDealt\<close> grows, \<open>spell-hit\<close> is sent and \<open>NaN <= 0\<close> is false;

  \<^item> for \<open>Object.prototype\<close> the same, and \<open>hitPlayer.damageReceived\<close> is
    \<open>Object.prototype.damageReceived\<close>.
\<close>

definition handleSpellHit ::
  "storage \<Rightarrow> string \<Rightarrow> string \<Rightarrow> string \<Rightarrow> state \<Rightarrow> state \<times> outcome" where
  "handleSpellHit db matchId spellId hitPlayerId s =
     (case getMatch s matchId of
        None \<Rightarrow> (s, Returned)
      | Some m \<Rightarrow>
          (case findIndex (\<lambda>sp. sp_id sp = spellId) (m_activeSpells m) of
             None \<Rightarrow> (s, Returned)
           | Some spellIndex \<Rightarrow>
               (let sp = m_activeSpells m ! spellIndex
                in case matchProp (protoDamageReceived s) m hitPlayerId of
                     Falsy \<Rightarrow> (s, Returned)
                   | TruthyPrimitive \<Rightarrow>
                       (putMatch matchId (m\<lparr>m_activeSpells := spliceAt spellIndex (m_activeSpells m)\<rparr>) s,
                        Threw)
                   | OtherObject \<Rightarrow>
                       (let m1 = creditCaster spellIndex sp m
                        in (broadcast m1 (SpellHitOther (spellHitOtherOf spellId hitPlayerId sp m1))
                              (putMatch matchId m1 s), Returned))
                   | ObjectPrototype \<Rightarrow>
                       (let m1 = creditCaster spellIndex sp m;
                            s1 = s\<lparr>protoDamageReceived :=
                                     Some (orZero (protoDamageReceived s) + sp_damage sp)\<rparr>
                        in (broadcast m1 (SpellHitOther (spellHitOtherOf spellId hitPlayerId sp m1))
                              (putMatch matchId m1 s1), Returned))
                   | PlayerRef k \<Rightarrow>
                       (let oldHp = mp_hp (getPlayer m k);
                            m1 = applySpellHit (protoDamageReceived s) spellIndex sp k m;
                            s1 = broadcast m1 (SpellHit (spellHitMsgOf spellId sp k oldHp m1))
                                   (putMatch matchId m1 s)
                        in if mp_hp (getPlayer m1 k) \<le> 0
                           then endMatch db matchId (mp_id (getPlayer m1 (sp_owner sp))) s1
                           else (s1, Returned)))))"


section \<open>Predicates and runs used by the properties\<close>

text \<open>
  A player is referenced by a live match of a session when some match in the registry
  carries that session code and has the player on one of its two sides.
\<close>

definition inLiveMatch :: "state \<Rightarrow> string \<Rightarrow> string \<Rightarrow> bool" where
  "inLiveMatch s sessionCode studentId =
     (\<exists>mid \<in> fst ` set (activeMatches s).
        case getMatch s mid of
          None \<Rightarrow> False
        | Some m \<Rightarrow> m_sessionCode m = sessionCode \<and>
                    (mp_id (m_player1 m) = studentId \<or> mp_id (m_player2 m) = studentId))"

definition inQueue :: "state \<Rightarrow> string \<Rightarrow> string \<Rightarrow> bool" where
  "inQueue s sessionCode studentId = (studentId \<in> q_studentId ` set (queueOf s sessionCode))"

text \<open>No player of any session is both queued and referenced by a live match.\<close>

definition noQueueMatchOverlap :: "state \<Rightarrow> bool" where
  "noQueueMatchOverlap s =
     (\<forall>sc \<in> fst ` set (queues s). \<forall>e \<in> set (queueOf s sc). \<not> inLiveMatch s sc (q_studentId e))"

text \<open>
  What the two Maps guarantee by construction: a Map has one entry per key, and
  \<open>enterQueue\<close> refuses a student who is already in the queue.
\<close>

definition queuesWellFormed :: "state \<Rightarrow> bool" where
  "queuesWellFormed s =
     (distinct (map fst (queues s)) \<and>
      (\<forall>sc \<in> fst ` set (queues s). distinct (map q_studentId (queueOf s sc))))"

text \<open>Both sides of every match in the registry have non-negative hit points.\<close>

definition hpNonNegative :: "state \<Rightarrow> bool" where
  "hpNonNegative s =
     (\<forall>(mid, m) \<in> set (activeMatches s). 0 \<le> mp_hp (m_player1 m) \<and> 0 \<le> mp_hp (m_player2 m))"

text \<open>A sequence of \<open>spell-hit\<close> reports (matchId, spellId, hitPlayerId), handled in order.\<close>

fun reportHits :: "storage \<Rightarrow> (string \<times> string \<times> string) list \<Rightarrow> state \<Rightarrow> state" where
  "reportHits db [] s = s"
| "reportHits db ((matchId, spellId, hitPlayerId) # reports) s =
     reportHits db reports (fst (handleSpellHit db matchId spellId hitPlayerId s))"

text \<open>The state after a successful \<open>enterQueue\<close>, before the pairing it may trigger.\<close>

definition queuedState :: "nat \<Rightarrow> wsId \<Rightarrow> string \<Rightarrow> string \<Rightarrow> session \<Rightarrow> tplayer \<Rightarrow> state \<Rightarrow> state" where
  "queuedState now ws sc pid session p s =
     (let p' = p\<lparr>tp_matchId := None, tp_inQueue := True\<rparr>;
          s0 = ensureQueue sc s;
          s1 = s0\<lparr>activeSessions := (activeSessions s0)(sc \<mapsto>
                 session\<lparr>sess_players := AList.update pid p' (sess_players session)\<rparr>)\<rparr>;
          queue' = queueOf s sc @ [newQueueEntry now ws sc pid p'];
          s2 = s1\<lparr>queues := AList.update sc queue' (queues s1)\<rparr>
      in send ws (QueueJoined (length queue')) s2)"

section \<open>Example states\<close>

text \<open>
  A session \<open>S\<close> with three students as \<open>joinSession\<close> creates them, with the combat
  stats 25 and 15 of the specification's scenario for the first two.
\<close>

definition exPlayer :: "string \<Rightarrow> wsId \<Rightarrow> int \<Rightarrow> tplayer" where
  "exPlayer studentId w dmg =
     \<lparr>tp_ws = w, tp_studentId = studentId, tp_studentNickname = studentId,
      tp_selectedCharacter = None, tp_correctAnswers = 0, tp_damage = dmg, tp_hp = 200,
      tp_inQueue = False, tp_matchId = None, tp_damageDealt = Some 0,
      tp_damageReceived = Some 0, tp_eliminated = False\<rparr>"

definition exSession :: session where
  "exSession = \<lparr>sess_players =
     [(''alice'', exPlayer ''alice'' 1 25), (''bob'', exPlayer ''bob'' 2 15),
      (''carol'', exPlayer ''carol'' 3 5)]\<rparr>"

definition exInit :: state where
  "exInit =
     \<lparr>queues = [],
      activeMatches = [],
      activeSessions = [''S'' \<mapsto> exSession],
      sockets = (\<lambda>w. \<lparr>ws_open = True, ws_matchId = None, ws_playerId = None\<rparr>),
      outbox = [],
      timers = Map.empty,
      nextTimer = 0,
      dbWrites = [],
      protoDamageReceived = None\<rparr>"

text \<open>
  The match of alice and bob in its first round, with one fire arrow of alice in flight.
\<close>

definition exSpell :: spell where
  "exSpell =
     \<lparr>sp_id = ''s1'', sp_type = ''fire_arrow'',
      sp_startPosition = \<lparr>pos_x = Finite 140, pos_y = Finite 300\<rparr>,
      sp_targetPosition = \<lparr>pos_x = Finite 700, pos_y = Finite 300\<rparr>,
      sp_direction = 1, sp_damage = 25, sp_speed = 10,
      sp_owner = Player1, sp_casterId = Player1, sp_createdAt = 0\<rparr>"

definition exMatchPlayer :: "string \<Rightarrow> wsId \<Rightarrow> int \<Rightarrow> real \<Rightarrow> matchPlayer" where
  "exMatchPlayer studentId w dmg px =
     \<lparr>mp_id = studentId, mp_ws = w, mp_nickname = studentId, mp_character = None,
      mp_hp = 200, mp_damage = dmg, mp_position = \<lparr>pos_x = Finite px, pos_y = Finite 300\<rparr>,
      mp_ready = False, mp_correctAnswers = 0, mp_damageDealt = None,
      mp_damageReceived = None\<rparr>"

definition exMatch :: gameMatch where
  "exMatch =
     \<lparr>m_id = ''m1'', m_sessionCode = ''S'',
      m_player1 = exMatchPlayer ''alice'' 1 25 100,
      m_player2 = exMatchPlayer ''bob'' 2 15 700,
      m_currentRound = 1, m_roundTimer = Some 0, m_status = active,
      m_activeSpells = [exSpell]\<rparr>"

definition exSockets :: "wsId \<Rightarrow> socket" where
  "exSockets w =
     (if w = 1 then \<lparr>ws_open = True, ws_matchId = Some ''m1'', ws_playerId = Some Player1\<rparr>
      else if w = 2 then \<lparr>ws_open = True, ws_matchId = Some ''m1'', ws_playerId = Some Player2\<rparr>
      else \<lparr>ws_open = True, ws_matchId = None, ws_playerId = None\<rparr>)"

definition exActive :: state where
  "exActive =
     \<lparr>queues = [(''S'', [])],
      activeMatches = [(''m1'', exMatch)],
      activeSessions = [''S'' \<mapsto> exSession],
      sockets = exSockets,
      outbox = [],
      timers = [0 \<mapsto> TEndRound ''m1''],
      nextTimer = 1,
      dbWrites = [],
      protoDamageReceived = None\<rparr>"

text \<open>Four students waiting in the queue of the session, in the order they entered.\<close>

definition exEntry :: "string \<Rightarrow> wsId \<Rightarrow> int \<Rightarrow> queueEntry" where
  "exEntry studentId w dmg =
     \<lparr>q_studentId = studentId, q_ws = w, q_sessionCode = ''S'', q_damage = dmg, q_hp = 200,
      q_selectedCharacter = None, q_studentNickname = studentId, q_enteredAt = 0\<rparr>"

definition exFour :: state where
  "exFour = exInit\<lparr>queues := [(''S'', [exEntry ''alice'' 1 25, exEntry ''bob'' 2 15,
                                        exEntry ''carol'' 3 5, exEntry ''dave'' 4 5])]\<rparr>"

text \<open>
  The start of a tournament: alice enters the queue, bob enters and is paired with her,
  and then alice, now in the match, sends \<open>enter-queue\<close> again.
\<close>

definition exQueued1 :: state where
  "exQueued1 = enterQueue ''m1'' 0 1 ''S'' ''alice'' exInit"

definition exMatched :: state where
  "exMatched = enterQueue ''m1'' 1 2 ''S'' ''bob'' exQueued1"

definition exRequeued :: state where
  "exRequeued = enterQueue ''m2'' 2 1 ''S'' ''alice'' exMatched"

text \<open>The match of alice and bob as \<open>createMatch\<close> registers it.\<close>

definition exNewMatch :: gameMatch where
  "exNewMatch = exMatch\<lparr>m_currentRound := 0, m_roundTimer := None, m_status := waiting,
                        m_activeSpells := []\<rparr>"


text \<open>A storage in which every query succeeds, and one that rejects every query.\<close>

definition exStorage :: storage where
  "exStorage =
     \<lparr>selectSession = (\<lambda>code. SqlRows [\<lparr>db_id = 1, db_game_id = 1\<rparr>]),
      selectUser = (\<lambda>studentId. SqlRows [\<lparr>u_name = studentId, u_surname = studentId,
                                               u_grade = 7, u_class = 1, u_number = 1\<rparr>]),
      insertResultsThrows = False,
      updateSessionThrows = False\<rparr>"


text \<open>
  After the pairing, alice and bob both send \<open>round-ready\<close>, three times in a row; then
  the round timer armed first fires.
\<close>

definition exRound1 :: state where
  "exRound1 = handleRoundReady 2 ''m1'' (handleRoundReady 1 ''m1'' exMatched)"

definition exRound2 :: state where
  "exRound2 = handleRoundReady 2 ''m1'' (handleRoundReady 1 ''m1'' exRound1)"

definition exRound3 :: state where
  "exRound3 = handleRoundReady 2 ''m1'' (handleRoundReady 1 ''m1'' exRound2)"

definition exFired0 :: state where
  "exFired0 = fireTimer exStorage ''m9'' 0 exRound3"

text \<open>
  The match of alice and bob after bob's hit points have reached 0 and the storage has
  stopped \<open>endMatch\<close>: the match is still in the registry, completed, and its round
  timer has been cleared.
\<close>

definition exDownMatch :: gameMatch where
  "exDownMatch = exMatch\<lparr>m_player2 := (exMatchPlayer ''bob'' 2 15 700)\<lparr>mp_hp := 0\<rparr>,
                         m_status := completed, m_activeSpells := []\<rparr>"

definition exDown :: state where
  "exDown = exActive\<lparr>activeMatches := [(''m1'', exDownMatch)], timers := Map.empty\<rparr>"

definition exRoundMatch :: "nat \<Rightarrow> timerId \<Rightarrow> gameMatch" where
  "exRoundMatch n t = exNewMatch\<lparr>m_status := active, m_currentRound := n, m_activeSpells := [],
                                 m_roundTimer := Some t\<rparr>"

section \<open>Frame lemmas\<close>

lemma sendIfOpen_frame [simp]:
  "queues (sendIfOpen w msg s) = queues s"
  "activeMatches (sendIfOpen w msg s) = activeMatches s"
  "activeSessions (sendIfOpen w msg s) = activeSessions s"
  "sockets (sendIfOpen w msg s) = sockets s"
  "timers (sendIfOpen w msg s) = timers s"
  "nextTimer (sendIfOpen w msg s) = nextTimer s"
  "dbWrites (sendIfOpen w msg s) = dbWrites s"
  "protoDamageReceived (sendIfOpen w msg s) = protoDamageReceived s"
  "outbox (sendIfOpen w msg s) = outbox s @ (if ws_open (sockets s w) then [(w, msg)] else [])"
  by (simp_all add: sendIfOpen_def)

lemma send_frame [simp]:
  "queues (send w msg s) = queues s"
  "activeMatches (send w msg s) = activeMatches s"
  "activeSessions (send w msg s) = activeSessions s"
  "sockets (send w msg s) = sockets s"
  "timers (send w msg s) = timers s"
  "nextTimer (send w msg s) = nextTimer s"
  "dbWrites (send w msg s) = dbWrites s"
  "protoDamageReceived (send w msg s) = protoDamageReceived s"
  "outbox (send w msg s) = outbox s @ [(w, msg)]"
  by (simp_all add: send_def)

lemma broadcast_frame [simp]:
  "queues (broadcast m msg s) = queues s"
  "activeMatches (broadcast m msg s) = activeMatches s"
  "activeSessions (broadcast m msg s) = activeSessions s"
  "sockets (broadcast m msg s) = sockets s"
  "timers (broadcast m msg s) = timers s"
  "nextTimer (broadcast m msg s) = nextTimer s"
  "dbWrites (broadcast m msg s) = dbWrites s"
  "protoDamageReceived (broadcast m msg s) = protoDamageReceived s"
  "outbox (broadcast m msg s) =
     outbox s @ (if ws_open (sockets s (mp_ws (m_player1 m))) then [(mp_ws (m_player1 m), msg)] else [])
              @ (if ws_open (sockets s (mp_ws (m_player2 m))) then [(mp_ws (m_player2 m), msg)] else [])"
  by (simp_all add: broadcast_def)

lemma setTimeout_frame [simp]:
  "fst (setTimeout act s) = nextTimer s"
  "queues (snd (setTimeout act s)) = queues s"
  "activeMatches (snd (setTimeout act s)) = activeMatches s"
  "activeSessions (snd (setTimeout act s)) = activeSessions s"
  "sockets (snd (setTimeout act s)) = sockets s"
  "outbox (snd (setTimeout act s)) = outbox s"
  "dbWrites (snd (setTimeout act s)) = dbWrites s"
  "protoDamageReceived (snd (setTimeout act s)) = protoDamageReceived s"
  "timers (snd (setTimeout act s)) = (timers s)(nextTimer s \<mapsto> act)"
  "nextTimer (snd (setTimeout act s)) = Suc (nextTimer s)"
  by (simp_all add: setTimeout_def)

lemma clearTimeout_frame [simp]:
  "queues (clearTimeout t s) = queues s"
  "activeMatches (clearTimeout t s) = activeMatches s"
  "activeSessions (clearTimeout t s) = activeSessions s"
  "sockets (clearTimeout t s) = sockets s"
  "outbox (clearTimeout t s) = outbox s"
  "dbWrites (clearTimeout t s) = dbWrites s"
  "protoDamageReceived (clearTimeout t s) = protoDamageReceived s"
  "timers (clearTimeout t s) = (timers s)(t := None)"
  "nextTimer (clearTimeout t s) = nextTimer s"
  by (simp_all add: clearTimeout_def)

lemma putMatch_frame [simp]:
  "queues (putMatch matchId m s) = queues s"
  "activeMatches (putMatch matchId m s) = AList.update matchId m (activeMatches s)"
  "activeSessions (putMatch matchId m s) = activeSessions s"
  "sockets (putMatch matchId m s) = sockets s"
  "outbox (putMatch matchId m s) = outbox s"
  "dbWrites (putMatch matchId m s) = dbWrites s"
  "protoDamageReceived (putMatch matchId m s) = protoDamageReceived s"
  "timers (putMatch matchId m s) = timers s"
  "nextTimer (putMatch matchId m s) = nextTimer s"
  by (simp_all add: putMatch_def)

lemma getMatch_cong: "activeMatches s' = activeMatches s \<Longrightarrow> getMatch s' = getMatch s"
  by (simp add: getMatch_def fun_eq_iff)

lemma getMatch_putMatch [simp]:
  "getMatch (putMatch matchId m s) mid = (if mid = matchId then Some m else getMatch s mid)"
  by (simp add: getMatch_def update_conv')

lemma getMatch_simple [simp]:
  "getMatch (sendIfOpen w msg s) = getMatch s"
  "getMatch (send w msg s) = getMatch s"
  "getMatch (broadcast m msg s) = getMatch s"
  "getMatch (snd (setTimeout act s)) = getMatch s"
  "getMatch (clearTimeout t s) = getMatch s"
  by (simp_all add: getMatch_def fun_eq_iff)

lemma getPlayer_setPlayer [simp]:
  "getPlayer (setPlayer k p m) k' = (if k' = k then p else getPlayer m k')"
  by (cases k; cases k') (simp_all add: getPlayer_def setPlayer_def)

lemma setPlayer_fields [simp]:
  "m_activeSpells (setPlayer k p m) = m_activeSpells m"
  "m_status (setPlayer k p m) = m_status m"
  "m_sessionCode (setPlayer k p m) = m_sessionCode m"
  "m_roundTimer (setPlayer k p m) = m_roundTimer m"
  "m_currentRound (setPlayer k p m) = m_currentRound m"
  "m_id (setPlayer k p m) = m_id m"
  by (cases k; simp add: setPlayer_def)+

section \<open>Position clamping\<close>

lemma clamp_cases:
  "mathMax (Finite lo) (mathMin (Finite hi) (Finite x)) = Finite (max lo (min hi x))"
  "mathMax (Finite lo) (mathMin (Finite hi) PosInfinity) = Finite (max lo hi)"
  "mathMax (Finite lo) (mathMin (Finite hi) NegInfinity) = Finite lo"
  "mathMax (Finite lo) (mathMin (Finite hi) NaN) = NaN"
  by simp_all








section \<open>Spell damage\<close>

lemma bitLength_le: "bitLength n \<le> k \<longleftrightarrow> n < 2 ^ k"
proof (induction n arbitrary: k rule: bitLength.induct)
  case (1 n)
  show ?case
  proof (cases "n = 0")
    case True
    then show ?thesis by (simp add: bitLength.simps [of 0])
  next
    case False
    then have b: "bitLength n = Suc (bitLength (n div 2))"
      by (simp add: bitLength.simps [of n])
    show ?thesis
    proof (cases k)
      case 0
      with False b show ?thesis by simp
    next
      case (Suc j)
      have "bitLength (n div 2) \<le> j \<longleftrightarrow> n div 2 < 2 ^ j"
        using 1 [OF False] .
      also have "\<dots> \<longleftrightarrow> n < 2 ^ Suc j"
        by auto
      finally show ?thesis
        using b Suc by simp
    qed
  qed
qed

lemma bitLength_eq: "2 ^ k \<le> n \<Longrightarrow> n < 2 ^ Suc k \<Longrightarrow> bitLength n = Suc k"
  using bitLength_le [of n k] bitLength_le [of n "Suc k"] by simp

lemma floor_one_and_half: "\<lfloor>of_int b * (1.5::real)\<rfloor> = (3 * b) div 2"
proof -
  have "of_int b * (1.5::real) = of_int (3 * b) / of_int 2" by simp
  then show ?thesis
    by (simp only: floor_divide_of_int_eq)
qed

lemma floorTimesOneAndHalf_exact:
  assumes "3 * \<bar>b\<bar> < 2 ^ 53"
  shows "floorTimesOneAndHalf b = \<lfloor>of_int b * (1.5::real)\<rfloor>"
proof -
  have "nat \<bar>3 * b\<bar> < 2 ^ 53"
    using assms by (simp add: abs_mult nat_less_iff)
  then have "bitLength (nat \<bar>3 * b\<bar>) \<le> 53"
    by (simp only: bitLength_le)
  then show ?thesis
    by (simp add: floorTimesOneAndHalf_def Let_def)
qed

lemma roundTiesToEven_nonneg: "0 \<le> n \<Longrightarrow> 0 \<le> roundTiesToEven n s"
proof -
  assume "0 \<le> n"
  then have "0 \<le> n div 2 ^ s"
    by (simp add: pos_imp_zdiv_nonneg_iff)
  then show ?thesis
    by (simp add: roundTiesToEven_def Let_def)
qed

lemma floorTimesOneAndHalf_nonneg:
  assumes "0 \<le> b"
  shows "0 \<le> floorTimesOneAndHalf b"
proof (cases "bitLength (nat \<bar>3 * b\<bar>) \<le> 53")
  case True
  then have "floorTimesOneAndHalf b = (3 * b) div 2"
    unfolding floorTimesOneAndHalf_def Let_def floor_one_and_half by simp
  then show ?thesis using assms by simp
next
  case False
  then have "floorTimesOneAndHalf b =
      roundTiesToEven (3 * b) (bitLength (nat \<bar>3 * b\<bar>) - 53) * 2 ^ (bitLength (nat \<bar>3 * b\<bar>) - 54)"
    by (simp add: floorTimesOneAndHalf_def Let_def)
  moreover have "0 \<le> roundTiesToEven (3 * b) (bitLength (nat \<bar>3 * b\<bar>) - 53)"
    using assms by (intro roundTiesToEven_nonneg) simp
  ultimately show ?thesis by simp
qed

text \<open>
  Beyond 53 bits the product is rounded: the code returns 4503599627370518 for the
  base damage 3002399751580345, one more than the floor of the exact product.
\<close>

lemma calculateSpellDamage_rounds:
  "calculateSpellDamage ''water_spell'' 3002399751580345 = 4503599627370518"
  "\<lfloor>of_int 3002399751580345 * (1.5::real)\<rfloor> = 4503599627370517"
proof -
  have "bitLength (nat \<bar>3 * 3002399751580345\<bar>) = Suc 53"
    by (rule bitLength_eq) simp_all
  then show "calculateSpellDamage ''water_spell'' 3002399751580345 = 4503599627370518"
    by (simp add: calculateSpellDamage_def floorTimesOneAndHalf_def roundTiesToEven_def Let_def)
  show "\<lfloor>of_int 3002399751580345 * (1.5::real)\<rfloor> = 4503599627370517"
    by (simp only: floor_one_and_half)
qed

text \<open>
  C9. The baseline kind \<open>fire_arrow\<close> deals the caster's combat stat unchanged. For a
  combat stat \<open>b\<close> with \<open>3 * \<bar>b\<bar> < 2 ^ 53\<close>, the range in which the double product is
  exact, the alternate kind \<open>water_spell\<close> deals the floor of 1.5 times the stat, which
  is \<open>3 * b div 2\<close>. For a non-negative stat the damage is non-negative. For the stat
  10 the alternate kind deals exactly 15, not 16.
\<close>

theorem calculateSpellDamage_exact:
  "calculateSpellDamage ''fire_arrow'' b = b \<and>
   (3 * \<bar>b\<bar> < 2 ^ 53 \<longrightarrow>
      calculateSpellDamage ''water_spell'' b = \<lfloor>of_int b * (1.5 :: real)\<rfloor> \<and>
      calculateSpellDamage ''water_spell'' b = (3 * b) div 2) \<and>
   (0 \<le> b \<longrightarrow> 0 \<le> calculateSpellDamage ''fire_arrow'' b \<and> 0 \<le> calculateSpellDamage ''water_spell'' b) \<and>
   calculateSpellDamage ''water_spell'' 10 = 15 \<and>
   calculateSpellDamage ''water_spell'' 10 \<noteq> 16"
proof (intro conjI impI)
  show f: "calculateSpellDamage ''fire_arrow'' b = b"
    by (simp add: calculateSpellDamage_def)
  show w: "calculateSpellDamage ''water_spell'' b = \<lfloor>of_int b * (1.5 :: real)\<rfloor>" if "3 * \<bar>b\<bar> < 2 ^ 53"
    using floorTimesOneAndHalf_exact [OF that] by (simp add: calculateSpellDamage_def)
  show "calculateSpellDamage ''water_spell'' b = (3 * b) div 2" if "3 * \<bar>b\<bar> < 2 ^ 53"
    using w [OF that] by (simp only: floor_one_and_half)
  show "0 \<le> calculateSpellDamage ''fire_arrow'' b" if "0 \<le> b"
    using that by (simp add: f)
  show "0 \<le> calculateSpellDamage ''water_spell'' b" if "0 \<le> b"
    using floorTimesOneAndHalf_nonneg [OF that] by (simp add: calculateSpellDamage_def)
  have ten: "calculateSpellDamage ''water_spell'' 10 = 15"
    using floorTimesOneAndHalf_exact [of 10]
    by (simp add: calculateSpellDamage_def floor_one_and_half)
  show "calculateSpellDamage ''water_spell'' 10 = 15"
    by (rule ten)
  show "calculateSpellDamage ''water_spell'' 10 \<noteq> 16"
    by (simp add: ten)
qed

text \<open>C9, witness: the combat stat 10, and the scenario's stat 25.\<close>

theorem calculateSpellDamage_exact_witness:
  "3 * \<bar>10 :: int\<bar> < 2 ^ 53 \<and> (0::int) \<le> 10 \<and>
   calculateSpellDamage ''fire_arrow'' 10 = 10 \<and>
   calculateSpellDamage ''water_spell'' 10 = 15 \<and>
   calculateSpellDamage ''water_spell'' 10 = \<lfloor>of_int 10 * (1.5 :: real)\<rfloor> \<and>
   0 \<le> calculateSpellDamage ''water_spell'' 10 \<and>
   calculateSpellDamage ''water_spell'' 25 = 37"
  using calculateSpellDamage_exact [of 10] calculateSpellDamage_exact [of 25] by simp

lemma newSpell_fields:
  "sp_id (newSpell spellId now k spellType direction m) = spellId"
  "sp_type (newSpell spellId now k spellType direction m) = spellType"
  "sp_owner (newSpell spellId now k spellType direction m) = k"
  "sp_damage (newSpell spellId now k spellType direction m) =
     calculateSpellDamage spellType (mp_damage (getPlayer m k))"
  by (simp_all add: newSpell_def Let_def)

lemma handleSpellCast_appends:
  assumes "getMatch s matchId = Some m" and "m_status m = active"
      and "ws_playerId (sockets s ws) = Some k"
  shows "getMatch (handleSpellCast spellId now ws matchId spellType direction s) matchId =
           Some (m\<lparr>m_activeSpells := m_activeSpells m @ [newSpell spellId now k spellType direction m]\<rparr>)"
  using assms by (simp add: handleSpellCast_def Let_def)

text \<open>
  C10. For every spell type other than \<open>water_spell\<close>, known or not,
  \<open>calculateSpellDamage\<close> returns the base damage unchanged; \<open>handleSpellCast\<close> does
  not reject such a type: in an active match it appends a spell of that type whose
  damage is the caster's damage.
\<close>

theorem calculateSpellDamage_other_kinds:
  assumes "spellType \<noteq> ''water_spell''"
  shows "calculateSpellDamage spellType baseDamage = baseDamage \<and>
         (\<forall>m k. getMatch s matchId = Some m \<and> m_status m = active \<and>
                 ws_playerId (sockets s ws) = Some k \<longrightarrow>
            (\<exists>sp. getMatch (handleSpellCast spellId now ws matchId spellType direction s) matchId =
                     Some (m\<lparr>m_activeSpells := m_activeSpells m @ [sp]\<rparr>) \<and>
                  sp_type sp = spellType \<and> sp_damage sp = mp_damage (getPlayer m k)))"
proof (intro conjI allI impI)
  show base: "calculateSpellDamage spellType b = b" for b
    using assms by (simp add: calculateSpellDamage_def)
  fix m k
  assume "getMatch s matchId = Some m \<and> m_status m = active \<and> ws_playerId (sockets s ws) = Some k"
  then have a: "getMatch s matchId = Some m" "m_status m = active"
      "ws_playerId (sockets s ws) = Some k" by simp_all
  show "\<exists>sp. getMatch (handleSpellCast spellId now ws matchId spellType direction s) matchId =
                     Some (m\<lparr>m_activeSpells := m_activeSpells m @ [sp]\<rparr>) \<and>
                  sp_type sp = spellType \<and> sp_damage sp = mp_damage (getPlayer m k)"
    by (intro exI [of _ "newSpell spellId now k spellType direction m"])
       (simp add: handleSpellCast_appends [OF a] newSpell_fields base)
qed

text \<open>C10, witness: alice casts a spell of the unknown type \<open>lightning\<close>.\<close>

theorem calculateSpellDamage_other_kinds_witness:
  "''lightning'' \<noteq> ''water_spell'' \<and> calculateSpellDamage ''lightning'' 25 = 25 \<and>
   getMatch exActive ''m1'' = Some exMatch \<and> m_status exMatch = active \<and>
   ws_playerId (sockets exActive 1) = Some Player1 \<and>
   (\<exists>sp. getMatch (handleSpellCast ''s2'' 5 1 ''m1'' ''lightning'' 1 exActive) ''m1'' =
            Some (exMatch\<lparr>m_activeSpells := m_activeSpells exMatch @ [sp]\<rparr>) \<and>
          sp_type sp = ''lightning'' \<and> sp_damage sp = 25)"
proof -
  have h: "''lightning'' \<noteq> ''water_spell''" by simp
  have a: "getMatch exActive ''m1'' = Some exMatch" "m_status exMatch = active"
          "ws_playerId (sockets exActive 1) = Some Player1"
    by (simp_all add: getMatch_def exActive_def exMatch_def exSockets_def)
  have d: "mp_damage (getPlayer exMatch Player1) = 25"
    by (simp add: getPlayer_def exMatch_def exMatchPlayer_def)
  note t = calculateSpellDamage_other_kinds [OF h, of 25 exActive "''m1''" 1 "''s2''" 5 1]
  from t a d have "\<exists>sp. getMatch (handleSpellCast ''s2'' 5 1 ''m1'' ''lightning'' 1 exActive) ''m1'' =
            Some (exMatch\<lparr>m_activeSpells := m_activeSpells exMatch @ [sp]\<rparr>) \<and>
          sp_type sp = ''lightning'' \<and> sp_damage sp = 25"
    by simp
  moreover from t have "calculateSpellDamage ''lightning'' 25 = 25" by blast
  ultimately show ?thesis using h a by blast
qed

section \<open>Pairing\<close>

lemma clearInQueue_frame [simp]:
  "queues (clearInQueue sc ids s) = queues s"
  "activeMatches (clearInQueue sc ids s) = activeMatches s"
  "sockets (clearInQueue sc ids s) = sockets s"
  "outbox (clearInQueue sc ids s) = outbox s"
  "timers (clearInQueue sc ids s) = timers s"
  "nextTimer (clearInQueue sc ids s) = nextTimer s"
  "dbWrites (clearInQueue sc ids s) = dbWrites s"
  "protoDamageReceived (clearInQueue sc ids s) = protoDamageReceived s"
  by (simp_all add: clearInQueue_def split: option.split)

lemma setSocketMatch_frame [simp]:
  "queues (setSocketMatch w mid k s) = queues s"
  "activeMatches (setSocketMatch w mid k s) = activeMatches s"
  "activeSessions (setSocketMatch w mid k s) = activeSessions s"
  "outbox (setSocketMatch w mid k s) = outbox s"
  "timers (setSocketMatch w mid k s) = timers s"
  "nextTimer (setSocketMatch w mid k s) = nextTimer s"
  "dbWrites (setSocketMatch w mid k s) = dbWrites s"
  "protoDamageReceived (setSocketMatch w mid k s) = protoDamageReceived s"
  by (simp_all add: setSocketMatch_def)

lemma createMatch_frame [simp]:
  "queues (createMatch mid sc a b s) = queues s"
  "activeSessions (createMatch mid sc a b s) = activeSessions s"
  "outbox (createMatch mid sc a b s) = outbox s"
  "timers (createMatch mid sc a b s) = timers s"
  "nextTimer (createMatch mid sc a b s) = nextTimer s"
  "dbWrites (createMatch mid sc a b s) = dbWrites s"
  "protoDamageReceived (createMatch mid sc a b s) = protoDamageReceived s"
  by (simp_all add: createMatch_def Let_def)

lemma newMatch_fields [simp]:
  "m_sessionCode (newMatch mid sc a b s) = sc"
  "mp_id (m_player1 (newMatch mid sc a b s)) = q_studentId a"
  "mp_id (m_player2 (newMatch mid sc a b s)) = q_studentId b"
  "m_status (newMatch mid sc a b s) = waiting"
  by (simp_all add: newMatch_def newMatchPlayer_def Let_def)

lemma activeMatches_createMatch [simp]:
  "activeMatches (createMatch mid sc a b s) = AList.update mid (newMatch mid sc a b s) (activeMatches s)"
  by (simp add: createMatch_def Let_def)

lemma tryMatch_pair:
  assumes "map_of (queues s) sc = Some (a # b # rest)"
  shows "queues (tryMatch mid sc s) = AList.update sc rest (queues s)"
    and "activeMatches (tryMatch mid sc s) =
           AList.update mid
             (newMatch mid sc a b
                (clearInQueue sc [q_studentId a, q_studentId b]
                   (s\<lparr>queues := AList.update sc rest (queues s)\<rparr>)))
             (activeMatches s)"
    and "timers (tryMatch mid sc s) =
           (if 2 \<le> length rest then (timers s)(nextTimer s \<mapsto> TTryMatch sc) else timers s)"
  using assms by (simp_all add: tryMatch_def Let_def)

lemma queueOf_update [simp]:
  "queueOf (s\<lparr>queues := AList.update sc q (queues s)\<rparr>) sc' = (if sc' = sc then q else queueOf s sc')"
  by (simp add: queueOf_def update_conv')

lemma queueOf_cong: "queues s' = queues s \<Longrightarrow> queueOf s' sc = queueOf s sc"
  by (simp add: queueOf_def)

lemma tryMatch_getMatch:
  assumes "map_of (queues s) sc = Some (a # b # rest)"
  shows "getMatch (tryMatch mid sc s) mid' =
           (if mid' = mid
            then Some (newMatch mid sc a b
                         (clearInQueue sc [q_studentId a, q_studentId b]
                            (s\<lparr>queues := AList.update sc rest (queues s)\<rparr>)))
            else getMatch s mid')"
  by (simp add: getMatch_def tryMatch_pair(2) [OF assms] update_conv')

lemma tryMatch_queueOf:
  assumes "map_of (queues s) sc = Some (a # b # rest)"
  shows "queueOf (tryMatch mid sc s) sc' = (if sc' = sc then rest else queueOf s sc')"
  by (simp add: queueOf_def tryMatch_pair(1) [OF assms] update_conv')

text \<open>
  C4. Pairing is FIFO. With the entries A, B, C, D at the head of a session's queue, in
  the order they entered, \<open>tryMatch\<close> registers a match of A (player1) and B (player2),
  leaves C, D and the rest in the queue in their order, and arms the timer for the
  retry; when that timer fires, the match of C and D is registered, the match of A and B
  is still there, and the queue holds the rest.
\<close>

theorem tryMatch_fifo:
  assumes "map_of (queues s) sc = Some (A # B # C # D # rest)"
      and "mid1 \<noteq> mid2"
  shows "let s1 = tryMatch mid1 sc s;
             s2 = fireTimer db mid2 (nextTimer s) s1
         in (\<exists>m. getMatch s1 mid1 = Some m \<and> m_sessionCode m = sc \<and>
                  mp_id (m_player1 m) = q_studentId A \<and> mp_id (m_player2 m) = q_studentId B) \<and>
            queueOf s1 sc = C # D # rest \<and>
            timers s1 (nextTimer s) = Some (TTryMatch sc) \<and>
            (\<exists>m. getMatch s2 mid1 = Some m \<and> m_sessionCode m = sc \<and>
                  mp_id (m_player1 m) = q_studentId A \<and> mp_id (m_player2 m) = q_studentId B) \<and>
            (\<exists>m. getMatch s2 mid2 = Some m \<and> m_sessionCode m = sc \<and>
                  mp_id (m_player1 m) = q_studentId C \<and> mp_id (m_player2 m) = q_studentId D) \<and>
            queueOf s2 sc = rest"
proof -
  define s1 where "s1 = tryMatch mid1 sc s"
  define s1' where "s1' = s1\<lparr>timers := (timers s1)(nextTimer s := None)\<rparr>"
  have q1: "queueOf s1 sc = C # D # rest"
    unfolding s1_def by (simp add: tryMatch_queueOf [OF assms(1)])
  have m1: "\<exists>s0. getMatch s1 mid1 = Some (newMatch mid1 sc A B s0)"
    unfolding s1_def by (simp add: tryMatch_getMatch [OF assms(1)]) blast
  have t1: "timers s1 (nextTimer s) = Some (TTryMatch sc)"
    unfolding s1_def by (simp add: tryMatch_pair(3) [OF assms(1)])
  have mq: "map_of (queues s1) sc = Some (C # D # rest)"
    unfolding s1_def by (simp add: tryMatch_pair(1) [OF assms(1)] update_conv')
  have mq': "map_of (queues s1') sc = Some (C # D # rest)"
    using mq by (simp add: s1'_def)
  have fire: "fireTimer db mid2 (nextTimer s) s1 = tryMatch mid2 sc s1'"
    using t1 by (simp add: fireTimer_def s1'_def Let_def)
  have g1': "getMatch s1' = getMatch s1"
    by (simp add: s1'_def getMatch_def fun_eq_iff)
  have m2: "\<exists>s0. getMatch (tryMatch mid2 sc s1') mid2 = Some (newMatch mid2 sc C D s0)"
    by (simp add: tryMatch_getMatch [OF mq']) blast
  have m12: "getMatch (tryMatch mid2 sc s1') mid1 = getMatch s1 mid1"
    using assms(2) by (simp add: tryMatch_getMatch [OF mq'] g1')
  have q2: "queueOf (tryMatch mid2 sc s1') sc = rest"
    by (simp add: tryMatch_queueOf [OF mq'])
  show ?thesis
    unfolding Let_def s1_def [symmetric] fire
    using q1 m1 t1 m2 m12 q2 by auto
qed

text \<open>C4, witness: alice, bob, carol and dave are paired in that order.\<close>

theorem tryMatch_fifo_witness:
  "map_of (queues exFour) ''S'' =
     Some [exEntry ''alice'' 1 25, exEntry ''bob'' 2 15, exEntry ''carol'' 3 5, exEntry ''dave'' 4 5] \<and>
   ''m1'' \<noteq> ''m2'' \<and>
   (\<exists>m. getMatch (tryMatch ''m1'' ''S'' exFour) ''m1'' = Some m \<and>
        mp_id (m_player1 m) = ''alice'' \<and> mp_id (m_player2 m) = ''bob'') \<and>
   queueOf (tryMatch ''m1'' ''S'' exFour) ''S'' = [exEntry ''carol'' 3 5, exEntry ''dave'' 4 5] \<and>
   (\<exists>m. getMatch (fireTimer exStorage ''m2'' 0 (tryMatch ''m1'' ''S'' exFour)) ''m2'' = Some m \<and>
        mp_id (m_player1 m) = ''carol'' \<and> mp_id (m_player2 m) = ''dave'') \<and>
   queueOf (fireTimer exStorage ''m2'' 0 (tryMatch ''m1'' ''S'' exFour)) ''S'' = []"
proof -
  have h1: "map_of (queues exFour) ''S'' =
     Some [exEntry ''alice'' 1 25, exEntry ''bob'' 2 15, exEntry ''carol'' 3 5, exEntry ''dave'' 4 5]"
    by (simp add: exFour_def)
  have h2: "''m1'' \<noteq> ''m2''" by simp
  have n: "nextTimer exFour = 0" by (simp add: exFour_def exInit_def)
  have ids: "q_studentId (exEntry ''alice'' 1 25) = ''alice''" "q_studentId (exEntry ''bob'' 2 15) = ''bob''"
    "q_studentId (exEntry ''carol'' 3 5) = ''carol''" "q_studentId (exEntry ''dave'' 4 5) = ''dave''"
    by (simp_all add: exEntry_def)
  note t = tryMatch_fifo [OF h1 h2, of exStorage, unfolded Let_def n ids]
  from t h1 h2 show ?thesis by blast
qed

section \<open>Entering the queue\<close>

lemma ensureQueue_frame [simp]:
  "activeMatches (ensureQueue sc s) = activeMatches s"
  "activeSessions (ensureQueue sc s) = activeSessions s"
  "sockets (ensureQueue sc s) = sockets s"
  "outbox (ensureQueue sc s) = outbox s"
  "timers (ensureQueue sc s) = timers s"
  "nextTimer (ensureQueue sc s) = nextTimer s"
  "dbWrites (ensureQueue sc s) = dbWrites s"
  "protoDamageReceived (ensureQueue sc s) = protoDamageReceived s"
  by (simp_all add: ensureQueue_def)

lemma queueOf_ensureQueue [simp]: "queueOf (ensureQueue sc s) sc' = queueOf s sc'"
  by (simp add: ensureQueue_def queueOf_def update_conv')

lemma map_of_ensureQueue: "map_of (queues (ensureQueue sc s)) sc = Some (queueOf s sc)"
  by (simp add: ensureQueue_def queueOf_def update_conv' split: option.split)

lemma enterQueue_rejected:
  assumes "sessionPlayer s sc pid = Some p"
      and "tp_eliminated p \<or> tp_hp p \<le> 0"
  shows "\<exists>reason. enterQueue mid now ws sc pid s = send ws (MsgError reason) (ensureQueue sc s)"
  using assms
  by (auto simp add: enterQueue_def ensureQueue_def [symmetric] sessionPlayer_def Let_def
           split: option.splits)

lemma enterQueue_accepted:
  assumes "activeSessions s sc = Some session"
      and "map_of (sess_players session) pid = Some p"
      and "\<not> tp_eliminated p" and "0 < tp_hp p"
      and "\<not> inQueue s sc pid"
  shows "enterQueue mid now ws sc pid s =
           (if 2 \<le> Suc (length (queueOf s sc))
            then tryMatch mid sc (queuedState now ws sc pid session p s)
            else queuedState now ws sc pid session p s)"
  using assms
  by (auto simp add: enterQueue_def ensureQueue_def [symmetric] queuedState_def inQueue_def Let_def)

lemma queuedState_frame [simp]:
  "activeMatches (queuedState now ws sc pid session p s) = activeMatches s"
  "outbox (queuedState now ws sc pid session p s) =
     outbox s @ [(ws, QueueJoined (Suc (length (queueOf s sc))))]"
  "queueOf (queuedState now ws sc pid session p s) sc' =
     (if sc' = sc
      then queueOf s sc @ [newQueueEntry now ws sc pid (p\<lparr>tp_matchId := None, tp_inQueue := True\<rparr>)]
      else queueOf s sc')"
  "sessionPlayer (queuedState now ws sc pid session p s) sc pid =
     Some (p\<lparr>tp_matchId := None, tp_inQueue := True\<rparr>)"
  by (simp_all add: queuedState_def Let_def queueOf_def update_conv' sessionPlayer_def
        split: option.split)
     (simp_all add: ensureQueue_def update_conv')

lemma tryMatch_noop:
  "\<not> (\<exists>a b rest. map_of (queues s) sc = Some (a # b # rest)) \<Longrightarrow> tryMatch mid sc s = s"
  by (auto simp add: tryMatch_def split: option.splits list.splits)









section \<open>Queue and registry never share a player\<close>

lemma inLiveMatch_iff:
  "inLiveMatch s sc pid \<longleftrightarrow>
     (\<exists>mid m. getMatch s mid = Some m \<and> m_sessionCode m = sc \<and>
              (mp_id (m_player1 m) = pid \<or> mp_id (m_player2 m) = pid))"
proof
  assume "inLiveMatch s sc pid"
  then show "\<exists>mid m. getMatch s mid = Some m \<and> m_sessionCode m = sc \<and>
              (mp_id (m_player1 m) = pid \<or> mp_id (m_player2 m) = pid)"
    by (auto simp add: inLiveMatch_def split: option.splits)
next
  assume "\<exists>mid m. getMatch s mid = Some m \<and> m_sessionCode m = sc \<and>
              (mp_id (m_player1 m) = pid \<or> mp_id (m_player2 m) = pid)"
  then obtain mid m where m: "getMatch s mid = Some m" "m_sessionCode m = sc"
      "mp_id (m_player1 m) = pid \<or> mp_id (m_player2 m) = pid" by blast
  from m(1) have "mid \<in> fst ` set (activeMatches s)"
    by (auto simp add: getMatch_def dest!: map_of_SomeD intro: rev_image_eqI)
  with m show "inLiveMatch s sc pid"
    unfolding inLiveMatch_def by (intro bexI [of _ mid]) simp_all
qed

lemma queueOf_nonempty_key:
  assumes "e \<in> set (queueOf s sc)"
  shows "sc \<in> fst ` set (queues s)"
proof (rule ccontr)
  assume "sc \<notin> fst ` set (queues s)"
  then have "map_of (queues s) sc = None" by (simp add: map_of_eq_None_iff)
  then have "queueOf s sc = []" by (simp add: queueOf_def)
  with assms show False by simp
qed

lemma noQueueMatchOverlap_iff:
  "noQueueMatchOverlap s \<longleftrightarrow>
     (\<forall>sc e. e \<in> set (queueOf s sc) \<longrightarrow> \<not> inLiveMatch s sc (q_studentId e))"
  unfolding noQueueMatchOverlap_def using queueOf_nonempty_key by blast

lemma queuesWellFormed_iff:
  "queuesWellFormed s \<longleftrightarrow>
     distinct (map fst (queues s)) \<and> (\<forall>sc. distinct (map q_studentId (queueOf s sc)))"
proof -
  have "distinct (map q_studentId (queueOf s sc))" if "sc \<notin> fst ` set (queues s)" for sc
  proof -
    from that have "map_of (queues s) sc = None" by (simp add: map_of_eq_None_iff)
    then show ?thesis by (simp add: queueOf_def)
  qed
  then show ?thesis unfolding queuesWellFormed_def by blast
qed

text \<open>An operation that leaves the registry alone and only shrinks queues keeps both.\<close>

lemma overlap_mono:
  assumes "noQueueMatchOverlap s"
      and "\<And>sc. set (queueOf s' sc) \<subseteq> set (queueOf s sc)"
      and "\<And>sc pid. inLiveMatch s' sc pid \<Longrightarrow> inLiveMatch s sc pid"
  shows "noQueueMatchOverlap s'"
  using assms unfolding noQueueMatchOverlap_iff by blast

subsection \<open>tryMatch\<close>

lemma tryMatch_keeps_wf:
  assumes "queuesWellFormed s"
  shows "queuesWellFormed (tryMatch mid sc s)"
proof (cases "\<exists>a b rest. map_of (queues s) sc = Some (a # b # rest)")
  case False
  then show ?thesis using assms by (simp add: tryMatch_noop)
next
  case True
  then obtain a b rest where q: "map_of (queues s) sc = Some (a # b # rest)" by blast
  then have qo: "queueOf s sc = a # b # rest" by (simp add: queueOf_def)
  from assms have d: "distinct (map fst (queues s))"
      and dq: "\<And>sc'. distinct (map q_studentId (queueOf s sc'))"
    by (simp_all add: queuesWellFormed_iff)
  from dq [of sc] qo have "distinct (map q_studentId rest)" by simp
  with d dq show ?thesis
    by (simp add: queuesWellFormed_iff tryMatch_pair(1) [OF q] tryMatch_queueOf [OF q] distinct_update)
qed

lemma tryMatch_keeps_overlap:
  assumes wf: "queuesWellFormed s" and inv: "noQueueMatchOverlap s"
  shows "noQueueMatchOverlap (tryMatch mid sc s)"
proof (cases "\<exists>a b rest. map_of (queues s) sc = Some (a # b # rest)")
  case False
  then show ?thesis using inv by (simp add: tryMatch_noop)
next
  case True
  then obtain a b rest where q: "map_of (queues s) sc = Some (a # b # rest)" by blast
  then have qo: "queueOf s sc = a # b # rest" by (simp add: queueOf_def)
  from wf have "distinct (map q_studentId (queueOf s sc))" by (simp add: queuesWellFormed_iff)
  with qo have fresh: "q_studentId a \<notin> q_studentId ` set rest" "q_studentId b \<notin> q_studentId ` set rest"
    by auto
  show ?thesis
    unfolding noQueueMatchOverlap_iff
  proof (intro allI impI notI)
    fix sc' e
    assume e: "e \<in> set (queueOf (tryMatch mid sc s) sc')"
       and l: "inLiveMatch (tryMatch mid sc s) sc' (q_studentId e)"
    from e have e_old: "e \<in> set (queueOf s sc')"
      using qo by (auto simp add: tryMatch_queueOf [OF q] split: if_splits)
    from l obtain mid' m where m: "getMatch (tryMatch mid sc s) mid' = Some m" "m_sessionCode m = sc'"
        "mp_id (m_player1 m) = q_studentId e \<or> mp_id (m_player2 m) = q_studentId e"
      unfolding inLiveMatch_iff by blast
    show False
    proof (cases "mid' = mid")
      case True
      with m(1) obtain s0 where m_eq: "m = newMatch mid sc a b s0"
        by (auto simp add: tryMatch_getMatch [OF q])
      with m(2) have "sc' = sc" by simp
      with e have "e \<in> set rest" by (simp add: tryMatch_queueOf [OF q])
      with fresh m(3) m_eq show False by auto
    next
      case False
      with m(1) have "getMatch s mid' = Some m" by (simp add: tryMatch_getMatch [OF q])
      with m(2,3) have "inLiveMatch s sc' (q_studentId e)" unfolding inLiveMatch_iff by blast
      with inv e_old show False unfolding noQueueMatchOverlap_iff by blast
    qed
  qed
qed

subsection \<open>createMatch\<close>

lemma getMatch_createMatch:
  "getMatch (createMatch mid sc a b s) mid' =
     (if mid' = mid then Some (newMatch mid sc a b s) else getMatch s mid')"
  by (simp add: getMatch_def update_conv')

lemma createMatch_keeps_overlap:
  assumes inv: "noQueueMatchOverlap s"
      and a: "\<not> inQueue s sc (q_studentId a)" and b: "\<not> inQueue s sc (q_studentId b)"
  shows "noQueueMatchOverlap (createMatch mid sc a b s)"
  unfolding noQueueMatchOverlap_iff
proof (intro allI impI notI)
  fix sc' e
  assume e: "e \<in> set (queueOf (createMatch mid sc a b s) sc')"
     and l: "inLiveMatch (createMatch mid sc a b s) sc' (q_studentId e)"
  from e have e_old: "e \<in> set (queueOf s sc')" by (simp add: queueOf_def)
  from l obtain mid' m where m: "getMatch (createMatch mid sc a b s) mid' = Some m" "m_sessionCode m = sc'"
      "mp_id (m_player1 m) = q_studentId e \<or> mp_id (m_player2 m) = q_studentId e"
    unfolding inLiveMatch_iff by blast
  show False
  proof (cases "mid' = mid")
    case True
    with m(1) have m_eq: "m = newMatch mid sc a b s" by (simp add: getMatch_createMatch)
    with m(2) have "sc' = sc" by simp
    with m(3) m_eq e_old a b show False by (auto simp add: inQueue_def)
  next
    case False
    with m(1) have "getMatch s mid' = Some m" by (simp add: getMatch_createMatch)
    with m(2,3) have "inLiveMatch s sc' (q_studentId e)" unfolding inLiveMatch_iff by blast
    with inv e_old show False unfolding noQueueMatchOverlap_iff by blast
  qed
qed

lemma createMatch_keeps_wf: "queuesWellFormed s \<Longrightarrow> queuesWellFormed (createMatch mid sc a b s)"
  by (simp add: queuesWellFormed_iff queueOf_def)

subsection \<open>removeFromQueue\<close>

lemma findIndex_Some: "findIndex P xs = Some i \<Longrightarrow> i < length xs \<and> P (xs ! i)"
  by (induction xs arbitrary: i) (auto split: if_splits option.splits)

lemma findIndex_None: "findIndex P xs = None \<longleftrightarrow> (\<forall>x \<in> set xs. \<not> P x)"
  by (induction xs) (auto split: option.splits)

lemma set_spliceAt: "set (spliceAt i xs) \<subseteq> set xs"
  unfolding spliceAt_def using set_take_subset [of i xs] set_drop_subset [of "Suc i" xs] by auto

lemma spliceAt_simps [simp]:
  "spliceAt i [] = []"
  "spliceAt 0 (x # xs) = xs"
  "spliceAt (Suc i) (x # xs) = x # spliceAt i xs"
  by (simp_all add: spliceAt_def)

lemma distinct_map_spliceAt: "distinct (map f xs) \<Longrightarrow> distinct (map f (spliceAt i xs))"
proof (induction xs arbitrary: i)
  case Nil
  then show ?case by simp
next
  case (Cons x xs)
  show ?case
  proof (cases i)
    case 0
    with Cons.prems show ?thesis by simp
  next
    case (Suc j)
    from Cons.prems have "f x \<notin> f ` set xs" and "distinct (map f xs)" by simp_all
    with set_spliceAt [of j xs] Cons.IH [of j] Suc show ?thesis by auto
  qed
qed

text \<open>
  What the loop of \<open>removeFromQueue\<close> does to the state: nothing, or one queue among
  the entries it visits loses one element.
\<close>

lemma removeFromQueueLoop_effect:
  "activeMatches (removeFromQueueLoop pid qs s) = activeMatches s \<and>
   (queues (removeFromQueueLoop pid qs s) = queues s \<or>
    (\<exists>sc q i. (sc, q) \<in> set qs \<and>
       queues (removeFromQueueLoop pid qs s) = AList.update sc (spliceAt i q) (queues s)))"
proof (induction qs)
  case Nil
  then show ?case by simp
next
  case (Cons entry qs)
  obtain sc q where entry: "entry = (sc, q)" by (cases entry)
  show ?case
  proof (cases "findIndex (\<lambda>p. q_studentId p = pid) q")
    case None
    with Cons.IH entry show ?thesis by auto
  next
    case (Some i)
    with entry show ?thesis by (auto simp add: Let_def)
  qed
qed

lemma removeFromQueue_shrinks:
  assumes "distinct (map fst (queues s))"
  shows "activeMatches (removeFromQueue pid s) = activeMatches s"
    and "distinct (map fst (queues (removeFromQueue pid s)))"
    and "set (queueOf (removeFromQueue pid s) sc') \<subseteq> set (queueOf s sc')"
    and "distinct (map q_studentId (queueOf s sc')) \<Longrightarrow>
         distinct (map q_studentId (queueOf (removeFromQueue pid s) sc'))"
proof -
  let ?s' = "removeFromQueue pid s"
  from removeFromQueueLoop_effect [of pid "queues s" s]
  have am: "activeMatches ?s' = activeMatches s"
    and qs: "queues ?s' = queues s \<or>
      (\<exists>sc q i. (sc, q) \<in> set (queues s) \<and> queues ?s' = AList.update sc (spliceAt i q) (queues s))"
    by (simp_all add: removeFromQueue_def)
  show "activeMatches ?s' = activeMatches s" by (rule am)
  from qs assms show "distinct (map fst (queues ?s'))" by (auto simp add: distinct_update)
  from qs consider (same) "queues ?s' = queues s"
    | (cut) sc q i where "(sc, q) \<in> set (queues s)" "queues ?s' = AList.update sc (spliceAt i q) (queues s)"
    by blast
  then have "queueOf ?s' sc' = queueOf s sc' \<or>
             (\<exists>i. queueOf ?s' sc' = spliceAt i (queueOf s sc'))"
  proof cases
    case same
    then show ?thesis by (simp add: queueOf_def)
  next
    case cut
    from cut(1) assms have "map_of (queues s) sc = Some q" by simp
    with cut(2) show ?thesis by (auto simp add: queueOf_def update_conv')
  qed
  then show "set (queueOf ?s' sc') \<subseteq> set (queueOf s sc')"
    and "distinct (map q_studentId (queueOf s sc')) \<Longrightarrow> distinct (map q_studentId (queueOf ?s' sc'))"
    using set_spliceAt distinct_map_spliceAt by (metis subset_refl, metis)
qed

lemma inLiveMatch_cong:
  "activeMatches s' = activeMatches s \<Longrightarrow> inLiveMatch s' sc pid = inLiveMatch s sc pid"
  by (simp add: inLiveMatch_def getMatch_def)

lemma removeFromQueue_keeps:
  assumes "queuesWellFormed s" and "noQueueMatchOverlap s"
  shows "queuesWellFormed (removeFromQueue pid s) \<and> noQueueMatchOverlap (removeFromQueue pid s)"
proof -
  from assms(1) have d: "distinct (map fst (queues s))" by (simp add: queuesWellFormed_iff)
  note r = removeFromQueue_shrinks [OF d]
  have "queuesWellFormed (removeFromQueue pid s)"
    using assms(1) r(2) r(4) by (simp add: queuesWellFormed_iff)
  moreover have "noQueueMatchOverlap (removeFromQueue pid s)"
    using assms(2) r(3) by (rule overlap_mono) (simp add: inLiveMatch_cong [OF r(1)])
  ultimately show ?thesis by simp
qed


section \<open>Frame lemmas for endMatch\<close>

lemma updateSessionPlayers_frame [simp]:
  "queues (updateSessionPlayers m w l s) = queues s"
  "activeMatches (updateSessionPlayers m w l s) = activeMatches s"
  "sockets (updateSessionPlayers m w l s) = sockets s"
  "outbox (updateSessionPlayers m w l s) = outbox s"
  "timers (updateSessionPlayers m w l s) = timers s"
  "nextTimer (updateSessionPlayers m w l s) = nextTimer s"
  "dbWrites (updateSessionPlayers m w l s) = dbWrites s"
  "protoDamageReceived (updateSessionPlayers m w l s) = protoDamageReceived s"
  by (simp_all add: updateSessionPlayers_def split: option.split)

lemma settleMatch_frame [simp]:
  "queues (settleMatch mid w m0 s) = queues s"
  "activeMatches (settleMatch mid w m0 s) = AList.update mid (m0\<lparr>m_status := completed\<rparr>) (activeMatches s)"
  "sockets (settleMatch mid w m0 s) = sockets s"
  "outbox (settleMatch mid w m0 s) = outbox s"
  "nextTimer (settleMatch mid w m0 s) = nextTimer s"
  "dbWrites (settleMatch mid w m0 s) = dbWrites s"
  "protoDamageReceived (settleMatch mid w m0 s) = protoDamageReceived s"
  by (simp_all add: settleMatch_def Let_def split: option.split)

lemma persistResult_Inr:
  assumes "persistResult db m w l s = Inr s4"
  shows "queues s4 = queues s" "activeMatches s4 = activeMatches s"
        "activeSessions s4 = activeSessions s" "sockets s4 = sockets s"
        "outbox s4 = outbox s" "timers s4 = timers s" "nextTimer s4 = nextTimer s"
        "protoDamageReceived s4 = protoDamageReceived s"
  using assms
  by (auto simp add: persistResult_def split: sqlResult.splits list.splits if_splits)

lemma foldl_sendIfOpen_frame [simp]:
  "queues (foldl (\<lambda>st p. sendIfOpen (f p) msg st) s ps) = queues s"
  "activeMatches (foldl (\<lambda>st p. sendIfOpen (f p) msg st) s ps) = activeMatches s"
  "activeSessions (foldl (\<lambda>st p. sendIfOpen (f p) msg st) s ps) = activeSessions s"
  "sockets (foldl (\<lambda>st p. sendIfOpen (f p) msg st) s ps) = sockets s"
  "timers (foldl (\<lambda>st p. sendIfOpen (f p) msg st) s ps) = timers s"
  "nextTimer (foldl (\<lambda>st p. sendIfOpen (f p) msg st) s ps) = nextTimer s"
  "dbWrites (foldl (\<lambda>st p. sendIfOpen (f p) msg st) s ps) = dbWrites s"
  "protoDamageReceived (foldl (\<lambda>st p. sendIfOpen (f p) msg st) s ps) = protoDamageReceived s"
  by (induction ps arbitrary: s; simp)+

lemma foldl_sendIfOpen_outbox:
  "outbox (foldl (\<lambda>st p. sendIfOpen (f p) msg st) s ps) =
     outbox s @ map (\<lambda>p. (f p, msg)) (filter (\<lambda>p. ws_open (sockets s (f p))) ps)"
  by (induction ps arbitrary: s) simp_all

lemma checkTournament_frame [simp]:
  "queues (fst (checkTournament db m w s)) = queues s"
  "activeMatches (fst (checkTournament db m w s)) = activeMatches s"
  "activeSessions (fst (checkTournament db m w s)) = activeSessions s"
  "sockets (fst (checkTournament db m w s)) = sockets s"
  "timers (fst (checkTournament db m w s)) = timers s"
  "nextTimer (fst (checkTournament db m w s)) = nextTimer s"
  "protoDamageReceived (fst (checkTournament db m w s)) = protoDamageReceived s"
  by (simp_all add: checkTournament_def Let_def split: option.split list.split)

text \<open>Whether \<open>endMatch\<close> gets past its storage calls.\<close>

lemma endMatch_absent: "getMatch s mid = None \<Longrightarrow> endMatch db mid w s = (s, Returned)"
  by (simp add: endMatch_def)

lemma endMatch_stopped:
  assumes "getMatch s mid = Some m0"
      and "persistResult db (m0\<lparr>m_status := completed\<rparr>) (matchWinner w (m0\<lparr>m_status := completed\<rparr>))
             (matchLoser w (m0\<lparr>m_status := completed\<rparr>)) (settleMatch mid w m0 s) = Inl out"
  shows "endMatch db mid w s = (settleMatch mid w m0 s, out)"
  using assms by (simp add: endMatch_def Let_def)

lemma endMatch_finished:
  assumes "getMatch s mid = Some m0"
      and "persistResult db (m0\<lparr>m_status := completed\<rparr>) (matchWinner w (m0\<lparr>m_status := completed\<rparr>))
             (matchLoser w (m0\<lparr>m_status := completed\<rparr>)) (settleMatch mid w m0 s) = Inr s4"
  shows "endMatch db mid w s =
           checkTournament db (m0\<lparr>m_status := completed\<rparr>) (matchWinner w (m0\<lparr>m_status := completed\<rparr>))
             ((broadcast (m0\<lparr>m_status := completed\<rparr>) (matchEndMsg (protoDamageReceived s) w (m0\<lparr>m_status := completed\<rparr>)) s4)
                \<lparr>activeMatches := AList.delete mid
                   (activeMatches (broadcast (m0\<lparr>m_status := completed\<rparr>)
                                     (matchEndMsg (protoDamageReceived s) w (m0\<lparr>m_status := completed\<rparr>)) s4))\<rparr>)"
  using assms by (simp add: endMatch_def Let_def)

lemma endMatch_queues [simp]: "queues (fst (endMatch db mid w s)) = queues s"
proof (cases "getMatch s mid")
  case None
  then show ?thesis by (simp add: endMatch_absent)
next
  case (Some m0)
  show ?thesis
  proof (cases "persistResult db (m0\<lparr>m_status := completed\<rparr>) (matchWinner w (m0\<lparr>m_status := completed\<rparr>))
             (matchLoser w (m0\<lparr>m_status := completed\<rparr>)) (settleMatch mid w m0 s)")
    case (Inl out)
    then show ?thesis by (simp add: endMatch_stopped [OF Some])
  next
    case (Inr s4)
    then show ?thesis by (simp add: endMatch_finished [OF Some] persistResult_Inr [OF Inr])
  qed
qed

lemma endMatch_proto [simp]:
  "protoDamageReceived (fst (endMatch db mid w s)) = protoDamageReceived s"
proof (cases "getMatch s mid")
  case None
  then show ?thesis by (simp add: endMatch_absent)
next
  case (Some m0)
  show ?thesis
  proof (cases "persistResult db (m0\<lparr>m_status := completed\<rparr>) (matchWinner w (m0\<lparr>m_status := completed\<rparr>))
             (matchLoser w (m0\<lparr>m_status := completed\<rparr>)) (settleMatch mid w m0 s)")
    case (Inl out)
    then show ?thesis by (simp add: endMatch_stopped [OF Some])
  next
    case (Inr s4)
    then show ?thesis by (simp add: endMatch_finished [OF Some] persistResult_Inr [OF Inr])
  qed
qed

text \<open>
  After \<open>endMatch\<close> the registry holds the other matches as before; the match itself is
  gone, or is still there with status \<open>completed\<close>.
\<close>

lemma endMatch_getMatch:
  "getMatch (fst (endMatch db mid w s)) mid' =
     (if mid' \<noteq> mid then getMatch s mid'
      else (case getMatch s mid of
              None \<Rightarrow> None
            | Some m0 \<Rightarrow>
                (case persistResult db (m0\<lparr>m_status := completed\<rparr>)
                        (matchWinner w (m0\<lparr>m_status := completed\<rparr>))
                        (matchLoser w (m0\<lparr>m_status := completed\<rparr>)) (settleMatch mid w m0 s) of
                   Inl out \<Rightarrow> Some (m0\<lparr>m_status := completed\<rparr>)
                 | Inr s4 \<Rightarrow> None)))"
proof (cases "getMatch s mid")
  case None
  then show ?thesis by (auto simp add: endMatch_absent)
next
  case (Some m0)
  show ?thesis
  proof (cases "persistResult db (m0\<lparr>m_status := completed\<rparr>) (matchWinner w (m0\<lparr>m_status := completed\<rparr>))
             (matchLoser w (m0\<lparr>m_status := completed\<rparr>)) (settleMatch mid w m0 s)")
    case (Inl out)
    then show ?thesis
      using Some by (simp add: endMatch_stopped [OF Some] getMatch_def update_conv')
  next
    case (Inr s4)
    then show ?thesis
      using Some
      by (simp add: endMatch_finished [OF Some] persistResult_Inr [OF Inr] getMatch_def
            update_conv' delete_conv')
  qed
qed

lemma endMatch_inLiveMatch:
  assumes "inLiveMatch (fst (endMatch db mid w s)) sc pid"
  shows "inLiveMatch s sc pid"
proof -
  from assms obtain mid' m where
    m: "getMatch (fst (endMatch db mid w s)) mid' = Some m" "m_sessionCode m = sc"
       "mp_id (m_player1 m) = pid \<or> mp_id (m_player2 m) = pid"
    unfolding inLiveMatch_iff by blast
  from m(1) have "\<exists>m0. getMatch s mid' = Some m0 \<and> (m = m0 \<or> m = m0\<lparr>m_status := completed\<rparr>)"
    by (auto simp add: endMatch_getMatch split: if_splits option.splits sum.splits)
  then obtain m0 where "getMatch s mid' = Some m0" "m = m0 \<or> m = m0\<lparr>m_status := completed\<rparr>"
    by blast
  with m(2,3) show ?thesis
    unfolding inLiveMatch_iff by (intro exI [of _ mid'] exI [of _ m0]) auto
qed

lemma endMatch_keeps:
  assumes "queuesWellFormed s" and "noQueueMatchOverlap s"
  shows "queuesWellFormed (fst (endMatch db mid w s)) \<and> noQueueMatchOverlap (fst (endMatch db mid w s))"
proof -
  have q: "queueOf (fst (endMatch db mid w s)) sc = queueOf s sc" for sc
    by (simp add: queueOf_def)
  have "queuesWellFormed (fst (endMatch db mid w s))"
    using assms(1) by (simp add: queuesWellFormed_iff q)
  moreover have "noQueueMatchOverlap (fst (endMatch db mid w s))"
    using assms(2) by (rule overlap_mono) (simp_all add: q endMatch_inLiveMatch)
  ultimately show ?thesis by simp
qed

section \<open>enterQueue and the invariant\<close>

lemma enterQueue_cases:
  "(\<exists>reason. enterQueue mid now ws sc pid s = send ws (MsgError reason) (ensureQueue sc s)) \<or>
   (\<exists>session p. activeSessions s sc = Some session \<and> map_of (sess_players session) pid = Some p \<and>
      \<not> inQueue s sc pid \<and>
      enterQueue mid now ws sc pid s =
        (if 2 \<le> Suc (length (queueOf s sc))
         then tryMatch mid sc (queuedState now ws sc pid session p s)
         else queuedState now ws sc pid session p s))"
proof (cases "inQueue s sc pid")
  case True
  then show ?thesis by (auto simp add: enterQueue_def inQueue_def Let_def)
next
  case nq: False
  show ?thesis
  proof (cases "activeSessions s sc")
    case None
    with nq show ?thesis by (auto simp add: enterQueue_def inQueue_def Let_def)
  next
    case (Some session)
    show ?thesis
    proof (cases "map_of (sess_players session) pid")
      case None
      with nq Some show ?thesis by (auto simp add: enterQueue_def inQueue_def Let_def)
    next
      case p: (Some p)
      show ?thesis
      proof (cases "tp_eliminated p \<or> tp_hp p \<le> 0")
        case True
        with Some p have "sessionPlayer s sc pid = Some p" by (simp add: sessionPlayer_def)
        from enterQueue_rejected [OF this True] show ?thesis by blast
      next
        case False
        then have "\<not> tp_eliminated p" "0 < tp_hp p" by auto
        from enterQueue_accepted [OF Some p this nq] nq Some p show ?thesis by blast
      qed
    qed
  qed
qed

lemma queues_ensureQueue_distinct:
  "distinct (map fst (queues s)) \<Longrightarrow> distinct (map fst (queues (ensureQueue sc s)))"
  by (simp add: ensureQueue_def distinct_update)

lemma queues_queuedState:
  "queues (queuedState now ws sc pid session p s) =
     AList.update sc (queueOf s sc @ [newQueueEntry now ws sc pid (p\<lparr>tp_matchId := None, tp_inQueue := True\<rparr>)])
       (queues (ensureQueue sc s))"
  by (simp add: queuedState_def Let_def)

lemma enterQueue_keeps:
  assumes wf: "queuesWellFormed s" and inv: "noQueueMatchOverlap s"
      and free: "\<not> inLiveMatch s sc pid"
  shows "queuesWellFormed (enterQueue mid now ws sc pid s) \<and>
         noQueueMatchOverlap (enterQueue mid now ws sc pid s)"
proof -
  from wf have d: "distinct (map fst (queues s))"
      and dq: "\<And>sc'. distinct (map q_studentId (queueOf s sc'))"
    by (simp_all add: queuesWellFormed_iff)
  from enterQueue_cases [of mid now ws sc pid s]
  consider (rejected) reason where
      "enterQueue mid now ws sc pid s = send ws (MsgError reason) (ensureQueue sc s)"
    | (accepted) session p where "\<not> inQueue s sc pid"
      "enterQueue mid now ws sc pid s =
        (if 2 \<le> Suc (length (queueOf s sc))
         then tryMatch mid sc (queuedState now ws sc pid session p s)
         else queuedState now ws sc pid session p s)"
    by blast
  then show ?thesis
  proof cases
    case rejected
    let ?s' = "send ws (MsgError reason) (ensureQueue sc s)"
    have q: "queueOf ?s' sc' = queueOf s sc'" for sc'
      using queueOf_cong [of ?s' "ensureQueue sc s" sc'] by simp
    have "queuesWellFormed ?s'"
      using d dq by (simp add: queuesWellFormed_iff q queues_ensureQueue_distinct)
    moreover have "noQueueMatchOverlap ?s'"
      using inv by (rule overlap_mono) (simp_all add: q inLiveMatch_cong [of ?s' s])
    ultimately show ?thesis by (simp add: rejected)
  next
    case accepted
    let ?Q = "queuedState now ws sc pid session p s"
    let ?e = "newQueueEntry now ws sc pid (p\<lparr>tp_matchId := None, tp_inQueue := True\<rparr>)"
    have id_e: "q_studentId ?e = pid" by (simp add: newQueueEntry_def)
    have wfQ: "queuesWellFormed ?Q"
      using d dq accepted(1)
      by (simp add: queuesWellFormed_iff queues_queuedState distinct_update
            queues_ensureQueue_distinct id_e inQueue_def)
    have invQ: "noQueueMatchOverlap ?Q"
      unfolding noQueueMatchOverlap_iff
    proof (intro allI impI)
      fix sc' e
      assume e: "e \<in> set (queueOf ?Q sc')"
      have l: "inLiveMatch ?Q sc' (q_studentId e) = inLiveMatch s sc' (q_studentId e)"
        by (rule inLiveMatch_cong) simp
      show "\<not> inLiveMatch ?Q sc' (q_studentId e)"
      proof (cases "e \<in> set (queueOf s sc')")
        case True
        with inv l show ?thesis unfolding noQueueMatchOverlap_iff by blast
      next
        case False
        with e have "sc' = sc" "e = ?e" by (auto split: if_splits)
        with free l id_e show ?thesis by simp
      qed
    qed
    show ?thesis
      using wfQ invQ tryMatch_keeps_wf [OF wfQ] tryMatch_keeps_overlap [OF wfQ invQ]
      by (simp add: accepted(2))
  qed
qed


section \<open>The invariant under the five operations\<close>

text \<open>
  C1 (amended). In a state where no player is both queued and referenced by a live match
  of the same session (and the queues are well formed), \<open>tryMatch\<close>,
  \<open>removeFromQueue\<close> and \<open>endMatch\<close> lead to such a state again; \<open>createMatch\<close> does
  when neither of its two players is queued in the session, as in its caller
  \<open>tryMatch\<close>; \<open>enterQueue\<close> does when the entering player is not referenced by a
  live match of the session, which \<open>enterQueue\<close> itself does not check.
\<close>

theorem queue_match_invariant_preserved:
  assumes "queuesWellFormed s" and "noQueueMatchOverlap s"
  shows "(queuesWellFormed (tryMatch mid sc s) \<and> noQueueMatchOverlap (tryMatch mid sc s)) \<and>
         (queuesWellFormed (removeFromQueue pid s) \<and> noQueueMatchOverlap (removeFromQueue pid s)) \<and>
         (queuesWellFormed (fst (endMatch db mid w s)) \<and>
          noQueueMatchOverlap (fst (endMatch db mid w s))) \<and>
         (\<not> inQueue s sc (q_studentId a) \<and> \<not> inQueue s sc (q_studentId b) \<longrightarrow>
            queuesWellFormed (createMatch mid sc a b s) \<and>
            noQueueMatchOverlap (createMatch mid sc a b s)) \<and>
         (\<not> inLiveMatch s sc student \<longrightarrow>
            queuesWellFormed (enterQueue mid now ws sc student s) \<and>
            noQueueMatchOverlap (enterQueue mid now ws sc student s))"
proof (intro conjI impI)
  show "queuesWellFormed (tryMatch mid sc s)"
    using assms(1) by (rule tryMatch_keeps_wf)
  show "noQueueMatchOverlap (tryMatch mid sc s)"
    using assms by (rule tryMatch_keeps_overlap)
  show "queuesWellFormed (removeFromQueue pid s)" "noQueueMatchOverlap (removeFromQueue pid s)"
    using removeFromQueue_keeps [OF assms] by simp_all
  show "queuesWellFormed (fst (endMatch db mid w s))" "noQueueMatchOverlap (fst (endMatch db mid w s))"
    using endMatch_keeps [OF assms] by simp_all
  show "queuesWellFormed (createMatch mid sc a b s)"
    using assms(1) by (rule createMatch_keeps_wf)
  show "noQueueMatchOverlap (createMatch mid sc a b s)"
    if "\<not> inQueue s sc (q_studentId a) \<and> \<not> inQueue s sc (q_studentId b)"
    using that createMatch_keeps_overlap [OF assms(2)] by simp
  show "queuesWellFormed (enterQueue mid now ws sc student s)"
       "noQueueMatchOverlap (enterQueue mid now ws sc student s)"
    if "\<not> inLiveMatch s sc student"
    using enterQueue_keeps [OF assms that] by simp_all
qed

lemma exFour_wf: "queuesWellFormed exFour"
  by (simp add: queuesWellFormed_def exFour_def queueOf_def exEntry_def)

lemma exFour_overlap: "noQueueMatchOverlap exFour"
  by (simp add: noQueueMatchOverlap_def inLiveMatch_def exFour_def exInit_def)

text \<open>C1, witness: the queue of four students and no match.\<close>

theorem queue_match_invariant_preserved_witness:
  "queuesWellFormed exFour \<and> noQueueMatchOverlap exFour \<and>
   \<not> inQueue exFour ''S'' (q_studentId (exEntry ''erin'' 5 5)) \<and>
   \<not> inQueue exFour ''S'' (q_studentId (exEntry ''frank'' 6 5)) \<and>
   \<not> inLiveMatch exFour ''S'' ''erin'' \<and>
   noQueueMatchOverlap (tryMatch ''m1'' ''S'' exFour) \<and>
   noQueueMatchOverlap (removeFromQueue ''bob'' exFour) \<and>
   noQueueMatchOverlap (fst (endMatch exStorage ''m1'' ''alice'' exFour)) \<and>
   noQueueMatchOverlap (createMatch ''m1'' ''S'' (exEntry ''erin'' 5 5) (exEntry ''frank'' 6 5) exFour) \<and>
   noQueueMatchOverlap (enterQueue ''m1'' 9 5 ''S'' ''erin'' exFour)"
proof -
  have q1: "\<not> inQueue exFour ''S'' (q_studentId (exEntry ''erin'' 5 5))"
    and q2: "\<not> inQueue exFour ''S'' (q_studentId (exEntry ''frank'' 6 5))"
    by (simp_all add: inQueue_def queueOf_def exFour_def exEntry_def)
  have l: "\<not> inLiveMatch exFour ''S'' ''erin''"
    by (simp add: inLiveMatch_def exFour_def exInit_def)
  note t = queue_match_invariant_preserved [OF exFour_wf exFour_overlap,
      where mid = "''m1''" and sc = "''S''" and pid = "''bob''" and db = exStorage and w = "''alice''"
        and a = "exEntry ''erin'' 5 5" and b = "exEntry ''frank'' 6 5"
        and student = "''erin''" and now = 9 and ws = 5]
  from t q1 q2 l exFour_wf exFour_overlap
  show ?thesis by simp
qed

subsection \<open>A player in a live match can enter the queue\<close>

lemma exQueued1_eval:
  "queues exQueued1 = [(''S'', [exEntry ''alice'' 1 25])]"
  "activeMatches exQueued1 = []"
  "activeSessions exQueued1 ''S'' = Some \<lparr>sess_players =
     [(''alice'', (exPlayer ''alice'' 1 25)\<lparr>tp_inQueue := True\<rparr>), (''bob'', exPlayer ''bob'' 2 15),
      (''carol'', exPlayer ''carol'' 3 5)]\<rparr>"
  by (simp_all add: exQueued1_def exInit_def exSession_def exPlayer_def exEntry_def
        enterQueue_def ensureQueue_def queueOf_def newQueueEntry_def Let_def)


lemma exMatched_queues: "queues exMatched = [(''S'', [])]"
  by (simp add: exMatched_def exQueued1_eval exPlayer_def exEntry_def
        enterQueue_def ensureQueue_def queueOf_def newQueueEntry_def Let_def tryMatch_pair)

lemma exMatched_sessions: "activeSessions exMatched ''S'' = Some exSession"
  by (simp add: exMatched_def exQueued1_eval exPlayer_def exEntry_def exSession_def
        enterQueue_def ensureQueue_def queueOf_def newQueueEntry_def Let_def tryMatch_def
        clearInQueue_def markNotInQueue_def)

lemma exMatched_matches: "activeMatches exMatched = [(''m1'', exNewMatch)]"
  by (simp add: exMatched_def exQueued1_eval exPlayer_def exEntry_def
        enterQueue_def ensureQueue_def queueOf_def newQueueEntry_def Let_def tryMatch_def
        clearInQueue_def markNotInQueue_def newMatch_def newMatchPlayer_def sessionPlayer_def
        orDefault_def exNewMatch_def exMatch_def exMatchPlayer_def)

lemma exMatched_rest:
  "sockets exMatched = exSockets"
  "timers exMatched = Map.empty"
  "nextTimer exMatched = 0"
  by (simp_all add: exMatched_def exQueued1_eval exPlayer_def exEntry_def exSockets_def
        enterQueue_def ensureQueue_def queueOf_def newQueueEntry_def Let_def tryMatch_def
        createMatch_def setSocketMatch_def exQueued1_def exInit_def exSession_def fun_eq_iff)

lemma exMatched_getMatch: "getMatch exMatched ''m1'' = Some exNewMatch"
  by (simp add: getMatch_def exMatched_matches)

lemma exSockets_keys:
  "ws_playerId (exSockets 1) = Some Player1" "ws_playerId (exSockets 2) = Some Player2"
  "ws_open (exSockets w)"
  by (simp_all add: exSockets_def)

lemma exRequeued_queues: "queues exRequeued = [(''S'', [(exEntry ''alice'' 1 25)\<lparr>q_enteredAt := 2\<rparr>])]"
  by (simp add: exRequeued_def exMatched_queues exMatched_sessions exMatched_matches
        exPlayer_def exEntry_def exSession_def
        enterQueue_def ensureQueue_def queueOf_def newQueueEntry_def Let_def)

lemma exRequeued_matches: "activeMatches exRequeued = [(''m1'', exNewMatch)]"
  by (simp add: exRequeued_def exMatched_queues exMatched_sessions exMatched_matches
        exPlayer_def exEntry_def exSession_def
        enterQueue_def ensureQueue_def queueOf_def newQueueEntry_def Let_def)

text \<open>
  C1, counterexample. After alice and bob have entered the queue and have been paired,
  the invariant holds and alice is in the live match; alice's next \<open>enter-queue\<close> is
  accepted, and she is in the queue and in the match at once.
\<close>

theorem enterQueue_breaks_invariant:
  "noQueueMatchOverlap exMatched \<and>
   inLiveMatch exMatched ''S'' ''alice'' \<and>
   inQueue (enterQueue ''m2'' 2 1 ''S'' ''alice'' exMatched) ''S'' ''alice'' \<and>
   inLiveMatch (enterQueue ''m2'' 2 1 ''S'' ''alice'' exMatched) ''S'' ''alice'' \<and>
   \<not> noQueueMatchOverlap (enterQueue ''m2'' 2 1 ''S'' ''alice'' exMatched)"
proof -
  have "noQueueMatchOverlap exMatched"
    by (simp add: noQueueMatchOverlap_def exMatched_queues queueOf_def)
  moreover have "inLiveMatch exMatched ''S'' ''alice''"
    by (simp add: inLiveMatch_def getMatch_def exMatched_matches exNewMatch_def exMatch_def
          exMatchPlayer_def)
  moreover have "inQueue exRequeued ''S'' ''alice''"
    by (simp add: inQueue_def queueOf_def exRequeued_queues exEntry_def)
  moreover have "inLiveMatch exRequeued ''S'' ''alice''"
    by (simp add: inLiveMatch_def getMatch_def exRequeued_matches exNewMatch_def exMatch_def
          exMatchPlayer_def)
  moreover have "\<not> noQueueMatchOverlap exRequeued"
    by (simp add: noQueueMatchOverlap_def inLiveMatch_def getMatch_def queueOf_def
          exRequeued_queues exRequeued_matches exEntry_def exNewMatch_def exMatch_def
          exMatchPlayer_def)
  ultimately show ?thesis by (simp add: exRequeued_def)
qed


subsection \<open>Eligibility: witnesses\<close>




section \<open>endMatch and the storage\<close>

lemma checkTournament_outbox: "\<exists>r. outbox (fst (checkTournament db m w s)) = outbox s @ r"
  by (auto simp add: checkTournament_def Let_def foldl_sendIfOpen_outbox
        split: option.split list.split)


lemma matchWinner_completed [simp]:
  "matchWinner w (m0\<lparr>m_status := completed\<rparr>) = matchWinner w m0"
  "matchLoser w (m0\<lparr>m_status := completed\<rparr>) = matchLoser w m0"
  by (simp_all add: matchWinner_def matchLoser_def)








lemma exActive_match: "getMatch exActive ''m1'' = Some exMatch"
  by (simp add: getMatch_def exActive_def)





lemma exStorage_persist:
  "\<exists>s4. persistResult exStorage m w l s = Inr s4"
  by (simp add: persistResult_def exStorage_def)




section \<open>Rounds\<close>

lemma unready [simp]: "\<not> mp_ready p \<Longrightarrow> p\<lparr>mp_ready := False\<rparr> = p"
  by (cases p) simp

lemma startRound_found:
  assumes "getMatch s mid = Some m"
  shows "getMatch (startRound mid s) mid =
           Some (m\<lparr>m_status := active, m_currentRound := Suc (m_currentRound m),
                   m_player1 := (m_player1 m)\<lparr>mp_ready := False\<rparr>,
                   m_player2 := (m_player2 m)\<lparr>mp_ready := False\<rparr>,
                   m_activeSpells := [], m_roundTimer := Some (nextTimer s)\<rparr>)"
    and "timers (startRound mid s) = (timers s)(nextTimer s \<mapsto> TEndRound mid)"
    and "nextTimer (startRound mid s) = Suc (nextTimer s)"
    and "sockets (startRound mid s) = sockets s"
  using assms by (simp_all add: startRound_def Let_def split_beta)

lemma bothReady:
  assumes "getMatch s mid = Some m"
      and "ws_playerId (sockets s w1) = Some Player1"
      and "ws_playerId (sockets s w2) = Some Player2"
      and "\<not> mp_ready (m_player1 m)" and "\<not> mp_ready (m_player2 m)"
  shows "getMatch (handleRoundReady w2 mid (handleRoundReady w1 mid s)) mid =
           Some (m\<lparr>m_status := active, m_currentRound := Suc (m_currentRound m),
                   m_activeSpells := [], m_roundTimer := Some (nextTimer s)\<rparr>)"
    and "timers (handleRoundReady w2 mid (handleRoundReady w1 mid s)) =
           (timers s)(nextTimer s \<mapsto> TEndRound mid)"
    and "nextTimer (handleRoundReady w2 mid (handleRoundReady w1 mid s)) = Suc (nextTimer s)"
    and "sockets (handleRoundReady w2 mid (handleRoundReady w1 mid s)) = sockets s"
proof -
  let ?m1 = "m\<lparr>m_player1 := (m_player1 m)\<lparr>mp_ready := True\<rparr>\<rparr>"
  let ?s1 = "putMatch mid ?m1 s"
  have s1: "handleRoundReady w1 mid s = ?s1"
    using assms by (simp add: handleRoundReady_def Let_def getPlayer_def setPlayer_def)
  let ?m2 = "?m1\<lparr>m_player2 := (m_player2 m)\<lparr>mp_ready := True\<rparr>\<rparr>"
  let ?s2 = "putMatch mid ?m2 ?s1"
  have s2: "handleRoundReady w2 mid ?s1 = startRound mid ?s2"
    using assms by (simp add: handleRoundReady_def Let_def getPlayer_def setPlayer_def)
  have g: "getMatch ?s2 mid = Some ?m2" by simp
  note sr = startRound_found [OF g]
  show "getMatch (handleRoundReady w2 mid (handleRoundReady w1 mid s)) mid =
           Some (m\<lparr>m_status := active, m_currentRound := Suc (m_currentRound m),
                   m_activeSpells := [], m_roundTimer := Some (nextTimer s)\<rparr>)"
    unfolding s1 s2 sr(1) using assms(4,5) by (cases m) simp
  show "timers (handleRoundReady w2 mid (handleRoundReady w1 mid s)) =
           (timers s)(nextTimer s \<mapsto> TEndRound mid)"
    unfolding s1 s2 sr(2) by simp
  show "nextTimer (handleRoundReady w2 mid (handleRoundReady w1 mid s)) = Suc (nextTimer s)"
    unfolding s1 s2 sr(3) by simp
  show "sockets (handleRoundReady w2 mid (handleRoundReady w1 mid s)) = sockets s"
    unfolding s1 s2 sr(4) by simp
qed

text \<open>What \<open>endRound\<close> does to a registered match with both players alive.\<close>

lemma endRound_alive:
  assumes "getMatch s mid = Some m"
      and "0 < mp_hp (m_player1 m)" and "0 < mp_hp (m_player2 m)"
  shows "getMatch (endRound db mid s) mid = Some (m\<lparr>m_roundTimer := None, m_status := waiting\<rparr>)"
    and "outbox (endRound db mid s) =
           outbox s
           @ (if ws_open (sockets s (mp_ws (m_player1 m)))
              then [(mp_ws (m_player1 m),
                     RoundEnd (m_currentRound m) (mp_hp (m_player1 m)) (mp_hp (m_player2 m)))] else [])
           @ (if ws_open (sockets s (mp_ws (m_player2 m)))
              then [(mp_ws (m_player2 m),
                     RoundEnd (m_currentRound m) (mp_hp (m_player1 m)) (mp_hp (m_player2 m)))] else [])"
    and "timers (endRound db mid s) =
           ((case m_roundTimer m of None \<Rightarrow> timers s | Some t \<Rightarrow> (timers s)(t := None)))
             (nextTimer s \<mapsto> TStartRound mid)"
    and "nextTimer (endRound db mid s) = Suc (nextTimer s)"
    and "sockets (endRound db mid s) = sockets s"
  using assms by (simp_all add: endRound_def Let_def split: option.split)

lemma endRound_absent: "getMatch s mid = None \<Longrightarrow> endRound db mid s = s"
  by (simp add: endRound_def)

lemma endMatch_outbox: "\<exists>r. outbox (fst (endMatch db mid w s)) = outbox s @ r"
proof (cases "getMatch s mid")
  case None
  then show ?thesis by (simp add: endMatch_absent)
next
  case (Some m0)
  show ?thesis
  proof (cases "persistResult db (m0\<lparr>m_status := completed\<rparr>) (matchWinner w (m0\<lparr>m_status := completed\<rparr>))
             (matchLoser w (m0\<lparr>m_status := completed\<rparr>)) (settleMatch mid w m0 s)")
    case (Inl out)
    then show ?thesis by (simp add: endMatch_stopped [OF Some])
  next
    case (Inr s4)
    let ?m = "m0\<lparr>m_status := completed\<rparr>"
    let ?s6 = "(broadcast ?m (matchEndMsg (protoDamageReceived s) w ?m) s4)
                \<lparr>activeMatches := AList.delete mid (activeMatches (broadcast ?m (matchEndMsg (protoDamageReceived s) w ?m) s4))\<rparr>"
    from checkTournament_outbox [of db ?m "matchWinner w ?m" ?s6]
    obtain r where "outbox (fst (checkTournament db ?m (matchWinner w ?m) ?s6)) = outbox ?s6 @ r"
      by blast
    then show ?thesis
      by (simp add: endMatch_finished [OF Some Inr] persistResult_Inr [OF Inr])
  qed
qed

lemma endRound_outbox:
  assumes "getMatch s mid = Some m"
  shows "\<exists>r. outbox (endRound db mid s) =
           outbox s
           @ (if ws_open (sockets s (mp_ws (m_player1 m)))
              then [(mp_ws (m_player1 m),
                     RoundEnd (m_currentRound m) (mp_hp (m_player1 m)) (mp_hp (m_player2 m)))] else [])
           @ (if ws_open (sockets s (mp_ws (m_player2 m)))
              then [(mp_ws (m_player2 m),
                     RoundEnd (m_currentRound m) (mp_hp (m_player1 m)) (mp_hp (m_player2 m)))] else [])
           @ r"
proof (cases "0 < mp_hp (m_player1 m) \<and> 0 < mp_hp (m_player2 m)")
  case True
  then show ?thesis using endRound_alive(2) [OF assms, of db] by simp
next
  case False
  let ?s1 = "(case m_roundTimer m of None \<Rightarrow> s | Some t \<Rightarrow> clearTimeout t s)"
  let ?m1 = "m\<lparr>m_roundTimer := None, m_status := waiting\<rparr>"
  let ?s2 = "broadcast ?m1 (RoundEnd (m_currentRound ?m1) (mp_hp (m_player1 ?m1)) (mp_hp (m_player2 ?m1)))
               (putMatch mid ?m1 ?s1)"
  let ?w = "if mp_hp (m_player1 ?m1) > 0 then mp_id (m_player1 ?m1) else mp_id (m_player2 ?m1)"
  have e: "endRound db mid s = fst (endMatch db mid ?w ?s2)"
    using assms False by (auto simp add: endRound_def Let_def)
  have f: "sockets ?s1 = sockets s" "outbox ?s1 = outbox s"
    by (simp_all split: option.split)
  from endMatch_outbox [of db mid ?w ?s2] obtain r where
    "outbox (fst (endMatch db mid ?w ?s2)) = outbox ?s2 @ r" by blast
  then show ?thesis
    unfolding e by (intro exI [of _ r]) (simp add: f)
qed

lemma endMatch_timers:
  assumes "getMatch s mid = Some m0"
  shows "timers (fst (endMatch db mid w s)) =
           (case m_roundTimer m0 of None \<Rightarrow> timers s | Some t \<Rightarrow> (timers s)(t := None))"
proof -
  have t: "timers (settleMatch mid w m0 s) =
           (case m_roundTimer m0 of None \<Rightarrow> timers s | Some t \<Rightarrow> (timers s)(t := None))"
    by (simp add: settleMatch_def Let_def split: option.split)
  show ?thesis
  proof (cases "persistResult db (m0\<lparr>m_status := completed\<rparr>) (matchWinner w (m0\<lparr>m_status := completed\<rparr>))
             (matchLoser w (m0\<lparr>m_status := completed\<rparr>)) (settleMatch mid w m0 s)")
    case (Inl out)
    then show ?thesis by (simp add: endMatch_stopped [OF assms] t)
  next
    case (Inr s4)
    then show ?thesis by (simp add: endMatch_finished [OF assms] persistResult_Inr [OF Inr] t)
  qed
qed

lemma fireTimer_cleared: "timers s t = None \<Longrightarrow> fireTimer db mid t s = s"
  by (simp add: fireTimer_def)

text \<open>
  What \<open>endRound\<close> does to a registered match when a player has no hit points left:
  after the timer, the status and the \<open>round-end\<close> messages (the state \<open>s2\<close>), it calls
  \<open>endMatch\<close> for the player who has hit points, or for player2 when neither has.
\<close>

lemma endRound_dead:
  assumes "getMatch s mid = Some m"
      and "\<not> (0 < mp_hp (m_player1 m) \<and> 0 < mp_hp (m_player2 m))"
  shows "\<exists>s2. getMatch s2 mid = Some (m\<lparr>m_roundTimer := None, m_status := waiting\<rparr>) \<and>
              outbox s2 =
                outbox s
                @ (if ws_open (sockets s (mp_ws (m_player1 m)))
                   then [(mp_ws (m_player1 m),
                          RoundEnd (m_currentRound m) (mp_hp (m_player1 m)) (mp_hp (m_player2 m)))] else [])
                @ (if ws_open (sockets s (mp_ws (m_player2 m)))
                   then [(mp_ws (m_player2 m),
                          RoundEnd (m_currentRound m) (mp_hp (m_player1 m)) (mp_hp (m_player2 m)))] else []) \<and>
              timers s2 = (case m_roundTimer m of None \<Rightarrow> timers s | Some t \<Rightarrow> (timers s)(t := None)) \<and>
              endRound db mid s =
                fst (endMatch db mid
                       (if 0 < mp_hp (m_player1 m) then mp_id (m_player1 m) else mp_id (m_player2 m)) s2)"
proof -
  let ?s1 = "(case m_roundTimer m of None \<Rightarrow> s | Some t \<Rightarrow> clearTimeout t s)"
  let ?m1 = "m\<lparr>m_roundTimer := None, m_status := waiting\<rparr>"
  let ?s2 = "broadcast ?m1 (RoundEnd (m_currentRound ?m1) (mp_hp (m_player1 ?m1)) (mp_hp (m_player2 ?m1)))
               (putMatch mid ?m1 ?s1)"
  let ?w = "if 0 < mp_hp (m_player1 m) then mp_id (m_player1 m) else mp_id (m_player2 m)"
  have e: "endRound db mid s = fst (endMatch db mid ?w ?s2)"
    using assms by (auto simp add: endRound_def Let_def)
  have f: "sockets ?s1 = sockets s" "outbox ?s1 = outbox s"
          "timers ?s1 = (case m_roundTimer m of None \<Rightarrow> timers s | Some t \<Rightarrow> (timers s)(t := None))"
    by (simp_all split: option.split)
  show ?thesis
    by (intro exI [of _ ?s2]) (simp add: e f)
qed

lemma endRound_dead_after:
  assumes "getMatch s mid = Some m"
      and "\<not> (0 < mp_hp (m_player1 m) \<and> 0 < mp_hp (m_player2 m))"
  shows "getMatch (endRound db mid s) mid = None \<or>
         getMatch (endRound db mid s) mid = Some (m\<lparr>m_roundTimer := None, m_status := completed\<rparr>)"
    and "timers (endRound db mid s) =
           (case m_roundTimer m of None \<Rightarrow> timers s | Some t \<Rightarrow> (timers s)(t := None))"
proof -
  from endRound_dead [OF assms, of db] obtain s2 where
    s2: "getMatch s2 mid = Some (m\<lparr>m_roundTimer := None, m_status := waiting\<rparr>)"
        "timers s2 = (case m_roundTimer m of None \<Rightarrow> timers s | Some t \<Rightarrow> (timers s)(t := None))"
        "endRound db mid s =
           fst (endMatch db mid
                  (if 0 < mp_hp (m_player1 m) then mp_id (m_player1 m) else mp_id (m_player2 m)) s2)"
    by blast
  show "getMatch (endRound db mid s) mid = None \<or>
        getMatch (endRound db mid s) mid = Some (m\<lparr>m_roundTimer := None, m_status := completed\<rparr>)"
    unfolding s2(3) by (simp add: endMatch_getMatch s2(1) split: sum.split)
  show "timers (endRound db mid s) =
          (case m_roundTimer m of None \<Rightarrow> timers s | Some t \<Rightarrow> (timers s)(t := None))"
    unfolding s2(3) by (simp add: endMatch_timers [OF s2(1)] s2(2))
qed

text \<open>
  C5 (amended). \<open>endRound\<close> is a no-op when the match is not in the registry; in
  particular, after an \<open>endMatch\<close> that got past its storage calls the match is gone
  and \<open>endRound\<close> changes nothing. \<open>endMatch\<close> always clears the round timer the
  match holds, so that timer does nothing when its time comes. The status is not tested:
  for a match in the registry, whatever its status, \<open>endRound\<close> sends \<open>round-end\<close>
  to both open sockets. With both players alive it sets the status to \<open>waiting\<close> and
  arms the start of the next round. With a player at 0 hit points it calls \<open>endMatch\<close>
  on the state reached after the \<open>round-end\<close> messages, for the player who has hit
  points left; no next round is armed, and the match is afterwards gone from the
  registry or completed.
\<close>

theorem endRound_guard_is_registry:
  "(getMatch s mid = None \<longrightarrow> endRound db mid s = s) \<and>
   (\<forall>m0 s4. getMatch s mid = Some m0 \<and>
        persistResult db (m0\<lparr>m_status := completed\<rparr>) (matchWinner w m0) (matchLoser w m0)
          (settleMatch mid w m0 s) = Inr s4 \<longrightarrow>
        endRound db' mid (fst (endMatch db mid w s)) = fst (endMatch db mid w s)) \<and>
   (\<forall>m0 t. getMatch s mid = Some m0 \<and> m_roundTimer m0 = Some t \<longrightarrow>
        fireTimer db' mid' t (fst (endMatch db mid w s)) = fst (endMatch db mid w s)) \<and>
   (\<forall>m. getMatch s mid = Some m \<longrightarrow>
        (\<exists>r. outbox (endRound db mid s) =
           outbox s
           @ (if ws_open (sockets s (mp_ws (m_player1 m)))
              then [(mp_ws (m_player1 m),
                     RoundEnd (m_currentRound m) (mp_hp (m_player1 m)) (mp_hp (m_player2 m)))] else [])
           @ (if ws_open (sockets s (mp_ws (m_player2 m)))
              then [(mp_ws (m_player2 m),
                     RoundEnd (m_currentRound m) (mp_hp (m_player1 m)) (mp_hp (m_player2 m)))] else [])
           @ r) \<and>
        (0 < mp_hp (m_player1 m) \<and> 0 < mp_hp (m_player2 m) \<longrightarrow>
           getMatch (endRound db mid s) mid = Some (m\<lparr>m_roundTimer := None, m_status := waiting\<rparr>) \<and>
           timers (endRound db mid s) (nextTimer s) = Some (TStartRound mid)) \<and>
        (\<not> (0 < mp_hp (m_player1 m) \<and> 0 < mp_hp (m_player2 m)) \<longrightarrow>
           (\<exists>s2. getMatch s2 mid = Some (m\<lparr>m_roundTimer := None, m_status := waiting\<rparr>) \<and>
                 outbox s2 =
                   outbox s
                   @ (if ws_open (sockets s (mp_ws (m_player1 m)))
                      then [(mp_ws (m_player1 m),
                             RoundEnd (m_currentRound m) (mp_hp (m_player1 m)) (mp_hp (m_player2 m)))]
                      else [])
                   @ (if ws_open (sockets s (mp_ws (m_player2 m)))
                      then [(mp_ws (m_player2 m),
                             RoundEnd (m_currentRound m) (mp_hp (m_player1 m)) (mp_hp (m_player2 m)))]
                      else []) \<and>
                 timers s2 =
                   (case m_roundTimer m of None \<Rightarrow> timers s | Some t \<Rightarrow> (timers s)(t := None)) \<and>
                 endRound db mid s =
                   fst (endMatch db mid
                          (if 0 < mp_hp (m_player1 m) then mp_id (m_player1 m) else mp_id (m_player2 m))
                          s2)) \<and>
           (getMatch (endRound db mid s) mid = None \<or>
            getMatch (endRound db mid s) mid = Some (m\<lparr>m_roundTimer := None, m_status := completed\<rparr>)) \<and>
           timers (endRound db mid s) =
             (case m_roundTimer m of None \<Rightarrow> timers s | Some t \<Rightarrow> (timers s)(t := None))))"
proof (intro conjI allI impI)
  show "endRound db mid s = s" if "getMatch s mid = None"
    using that by (rule endRound_absent)
next
  fix m0 s4
  assume "getMatch s mid = Some m0 \<and>
        persistResult db (m0\<lparr>m_status := completed\<rparr>) (matchWinner w m0) (matchLoser w m0)
          (settleMatch mid w m0 s) = Inr s4"
  then have "getMatch (fst (endMatch db mid w s)) mid = None"
    by (simp add: endMatch_getMatch)
  then show "endRound db' mid (fst (endMatch db mid w s)) = fst (endMatch db mid w s)"
    by (rule endRound_absent)
next
  fix m0 t
  assume "getMatch s mid = Some m0 \<and> m_roundTimer m0 = Some t"
  then have "timers (fst (endMatch db mid w s)) t = None"
    by (simp add: endMatch_timers)
  then show "fireTimer db' mid' t (fst (endMatch db mid w s)) = fst (endMatch db mid w s)"
    by (rule fireTimer_cleared)
next
  fix m
  assume m: "getMatch s mid = Some m"
  show "\<exists>r. outbox (endRound db mid s) =
           outbox s
           @ (if ws_open (sockets s (mp_ws (m_player1 m)))
              then [(mp_ws (m_player1 m),
                     RoundEnd (m_currentRound m) (mp_hp (m_player1 m)) (mp_hp (m_player2 m)))] else [])
           @ (if ws_open (sockets s (mp_ws (m_player2 m)))
              then [(mp_ws (m_player2 m),
                     RoundEnd (m_currentRound m) (mp_hp (m_player1 m)) (mp_hp (m_player2 m)))] else [])
           @ r"
    by (rule endRound_outbox [OF m])
  show "getMatch (endRound db mid s) mid = Some (m\<lparr>m_roundTimer := None, m_status := waiting\<rparr>)"
       "timers (endRound db mid s) (nextTimer s) = Some (TStartRound mid)"
    if "0 < mp_hp (m_player1 m) \<and> 0 < mp_hp (m_player2 m)"
    using that endRound_alive(1,3) [OF m, of db] by simp_all
  show "\<exists>s2. getMatch s2 mid = Some (m\<lparr>m_roundTimer := None, m_status := waiting\<rparr>) \<and>
                 outbox s2 =
                   outbox s
                   @ (if ws_open (sockets s (mp_ws (m_player1 m)))
                      then [(mp_ws (m_player1 m),
                             RoundEnd (m_currentRound m) (mp_hp (m_player1 m)) (mp_hp (m_player2 m)))]
                      else [])
                   @ (if ws_open (sockets s (mp_ws (m_player2 m)))
                      then [(mp_ws (m_player2 m),
                             RoundEnd (m_currentRound m) (mp_hp (m_player1 m)) (mp_hp (m_player2 m)))]
                      else []) \<and>
                 timers s2 =
                   (case m_roundTimer m of None \<Rightarrow> timers s | Some t \<Rightarrow> (timers s)(t := None)) \<and>
                 endRound db mid s =
                   fst (endMatch db mid
                          (if 0 < mp_hp (m_player1 m) then mp_id (m_player1 m) else mp_id (m_player2 m))
                          s2)"
    if "\<not> (0 < mp_hp (m_player1 m) \<and> 0 < mp_hp (m_player2 m))"
    by (rule endRound_dead [OF m that])
  show "getMatch (endRound db mid s) mid = None \<or>
        getMatch (endRound db mid s) mid = Some (m\<lparr>m_roundTimer := None, m_status := completed\<rparr>)"
    if "\<not> (0 < mp_hp (m_player1 m) \<and> 0 < mp_hp (m_player2 m))"
    by (rule endRound_dead_after(1) [OF m that])
  show "timers (endRound db mid s) =
          (case m_roundTimer m of None \<Rightarrow> timers s | Some t \<Rightarrow> (timers s)(t := None))"
    if "\<not> (0 < mp_hp (m_player1 m) \<and> 0 < mp_hp (m_player2 m))"
    by (rule endRound_dead_after(2) [OF m that])
qed


subsection \<open>A round timer that fires on a waiting match\<close>

lemma exRoundMatch_fields:
  "\<not> mp_ready (m_player1 (exRoundMatch n t))" "\<not> mp_ready (m_player2 (exRoundMatch n t))"
  "\<not> mp_ready (m_player1 exNewMatch)" "\<not> mp_ready (m_player2 exNewMatch)"
  "mp_hp (m_player1 (exRoundMatch n t)) = 200" "mp_hp (m_player2 (exRoundMatch n t)) = 200"
  "mp_ws (m_player1 (exRoundMatch n t)) = 1" "mp_ws (m_player2 (exRoundMatch n t)) = 2"
  "m_currentRound (exRoundMatch n t) = n" "m_roundTimer (exRoundMatch n t) = Some t"
  by (simp_all add: exRoundMatch_def exNewMatch_def exMatch_def exMatchPlayer_def)

lemma exRound1_eval:
  "getMatch exRound1 ''m1'' = Some (exRoundMatch 1 0)"
  "timers exRound1 = [0 \<mapsto> TEndRound ''m1'']"
  "nextTimer exRound1 = 1"
  "sockets exRound1 = exSockets"
proof -
  have k: "ws_playerId (sockets exMatched 1) = Some Player1"
          "ws_playerId (sockets exMatched 2) = Some Player2"
    by (simp_all add: exMatched_rest exSockets_def)
  have r: "\<not> mp_ready (m_player1 exNewMatch)" "\<not> mp_ready (m_player2 exNewMatch)"
    by (simp_all add: exRoundMatch_fields)
  note b = bothReady [OF exMatched_getMatch k r, folded exRound1_def]
  show "getMatch exRound1 ''m1'' = Some (exRoundMatch 1 0)"
    unfolding b(1) by (simp add: exMatched_rest exRoundMatch_def exNewMatch_def)
  show "timers exRound1 = [0 \<mapsto> TEndRound ''m1'']"
    unfolding b(2) by (simp add: exMatched_rest)
  show "nextTimer exRound1 = 1"
    unfolding b(3) by (simp add: exMatched_rest)
  show "sockets exRound1 = exSockets"
    unfolding b(4) by (simp add: exMatched_rest)
qed

lemma exRound2_eval:
  "getMatch exRound2 ''m1'' = Some (exRoundMatch 2 1)"
  "timers exRound2 = [0 \<mapsto> TEndRound ''m1'', 1 \<mapsto> TEndRound ''m1'']"
  "nextTimer exRound2 = 2"
  "sockets exRound2 = exSockets"
proof -
  have k: "ws_playerId (sockets exRound1 1) = Some Player1"
          "ws_playerId (sockets exRound1 2) = Some Player2"
    by (simp_all add: exRound1_eval exSockets_def)
  have r: "\<not> mp_ready (m_player1 (exRoundMatch 1 0))" "\<not> mp_ready (m_player2 (exRoundMatch 1 0))"
    by (simp_all add: exRoundMatch_fields)
  note b = bothReady [OF exRound1_eval(1) k r, folded exRound2_def]
  show "getMatch exRound2 ''m1'' = Some (exRoundMatch 2 1)"
    unfolding b(1) by (simp add: exRound1_eval exRoundMatch_def exNewMatch_def)
  show "timers exRound2 = [0 \<mapsto> TEndRound ''m1'', 1 \<mapsto> TEndRound ''m1'']"
    unfolding b(2) by (simp add: exRound1_eval)
  show "nextTimer exRound2 = 2"
    unfolding b(3) by (simp add: exRound1_eval)
  show "sockets exRound2 = exSockets"
    unfolding b(4) by (simp add: exRound1_eval)
qed

lemma exRound3_eval:
  "getMatch exRound3 ''m1'' = Some (exRoundMatch 3 2)"
  "timers exRound3 = [0 \<mapsto> TEndRound ''m1'', 1 \<mapsto> TEndRound ''m1'', 2 \<mapsto> TEndRound ''m1'']"
  "nextTimer exRound3 = 3"
  "sockets exRound3 = exSockets"
proof -
  have k: "ws_playerId (sockets exRound2 1) = Some Player1"
          "ws_playerId (sockets exRound2 2) = Some Player2"
    by (simp_all add: exRound2_eval exSockets_def)
  have r: "\<not> mp_ready (m_player1 (exRoundMatch 2 1))" "\<not> mp_ready (m_player2 (exRoundMatch 2 1))"
    by (simp_all add: exRoundMatch_fields)
  note b = bothReady [OF exRound2_eval(1) k r, folded exRound3_def]
  show "getMatch exRound3 ''m1'' = Some (exRoundMatch 3 2)"
    unfolding b(1) by (simp add: exRound2_eval exRoundMatch_def exNewMatch_def)
  show "timers exRound3 = [0 \<mapsto> TEndRound ''m1'', 1 \<mapsto> TEndRound ''m1'', 2 \<mapsto> TEndRound ''m1'']"
    unfolding b(2) by (simp add: exRound2_eval)
  show "nextTimer exRound3 = 3"
    unfolding b(3) by (simp add: exRound2_eval)
  show "sockets exRound3 = exSockets"
    unfolding b(4) by (simp add: exRound2_eval)
qed

lemma getMatch_timers_update [simp]: "getMatch (s\<lparr>timers := x\<rparr>) = getMatch s"
  by (simp add: getMatch_def fun_eq_iff)

lemma fireTimer_endRound:
  "timers s t = Some (TEndRound mid) \<Longrightarrow>
   fireTimer db mid' t s = endRound db mid (s\<lparr>timers := (timers s)(t := None)\<rparr>)"
  by (simp add: fireTimer_def Let_def)

lemma exFired0_eval:
  "getMatch exFired0 ''m1'' = Some ((exRoundMatch 3 2)\<lparr>m_roundTimer := None, m_status := waiting\<rparr>)"
  "timers exFired0 1 = Some (TEndRound ''m1'')"
  "sockets exFired0 = exSockets"
  "outbox exFired0 = outbox exRound3 @ [(1, RoundEnd 3 200 200), (2, RoundEnd 3 200 200)]"
proof -
  let ?s = "exRound3\<lparr>timers := (timers exRound3)(0 := None)\<rparr>"
  have f: "exFired0 = endRound exStorage ''m1'' ?s"
    unfolding exFired0_def by (rule fireTimer_endRound) (simp add: exRound3_eval)
  have g: "getMatch ?s ''m1'' = Some (exRoundMatch 3 2)"
    by (simp add: exRound3_eval)
  have hp: "0 < mp_hp (m_player1 (exRoundMatch 3 2))" "0 < mp_hp (m_player2 (exRoundMatch 3 2))"
    by (simp_all add: exRoundMatch_fields)
  note e = endRound_alive [OF g hp, of exStorage]
  show "getMatch exFired0 ''m1'' = Some ((exRoundMatch 3 2)\<lparr>m_roundTimer := None, m_status := waiting\<rparr>)"
    unfolding f by (rule e(1))
  show "timers exFired0 1 = Some (TEndRound ''m1'')"
    unfolding f e(3) by (simp add: exRound3_eval exRoundMatch_fields)
  show "sockets exFired0 = exSockets"
    unfolding f e(5) by (simp add: exRound3_eval)
  show "outbox exFired0 = outbox exRound3 @ [(1, RoundEnd 3 200 200), (2, RoundEnd 3 200 200)]"
    unfolding f e(2) by (simp add: exRound3_eval exRoundMatch_fields exSockets_keys)
qed

text \<open>
  C5, counterexample. Alice and bob are paired and both send \<open>round-ready\<close> three times
  in a row; each time \<open>startRound\<close> arms a new round timer and leaves the earlier ones
  armed. The first timer fires: \<open>endRound\<close> puts the match back to \<open>waiting\<close> and sends
  \<open>round-end\<close> for round 3. The second timer is still armed; when it fires, the match is
  waiting, and \<open>endRound\<close> sends \<open>round-end\<close> for round 3 to both players again.
\<close>

theorem endRound_fires_in_waiting:
  "(\<exists>m. getMatch exFired0 ''m1'' = Some m \<and> m_status m = waiting) \<and>
   timers exFired0 1 = Some (TEndRound ''m1'') \<and>
   outbox exFired0 = outbox exRound3 @ [(1, RoundEnd 3 200 200), (2, RoundEnd 3 200 200)] \<and>
   outbox (fireTimer exStorage ''m9'' 1 exFired0) =
     outbox exFired0 @ [(1, RoundEnd 3 200 200), (2, RoundEnd 3 200 200)] \<and>
   fireTimer exStorage ''m9'' 1 exFired0 \<noteq> exFired0"
proof -
  let ?s = "exFired0\<lparr>timers := (timers exFired0)(1 := None)\<rparr>"
  let ?m = "(exRoundMatch 3 2)\<lparr>m_roundTimer := None, m_status := waiting\<rparr>"
  have f: "fireTimer exStorage ''m9'' 1 exFired0 = endRound exStorage ''m1'' ?s"
    by (rule fireTimer_endRound) (rule exFired0_eval(2))
  have g: "getMatch ?s ''m1'' = Some ?m"
    by (simp add: exFired0_eval)
  have hp: "0 < mp_hp (m_player1 ?m)" "0 < mp_hp (m_player2 ?m)"
    by (simp_all add: exRoundMatch_fields)
  note e = endRound_alive [OF g hp, of exStorage]
  have o: "outbox (fireTimer exStorage ''m9'' 1 exFired0) =
     outbox exFired0 @ [(1, RoundEnd 3 200 200), (2, RoundEnd 3 200 200)]"
    unfolding f e(2) by (simp add: exFired0_eval(3) exRoundMatch_fields exSockets_keys)
  have w: "\<exists>m. getMatch exFired0 ''m1'' = Some m \<and> m_status m = waiting"
    by (simp add: exFired0_eval(1))
  have "outbox (fireTimer exStorage ''m9'' 1 exFired0) \<noteq> outbox exFired0"
    unfolding o by simp
  then have "fireTimer exStorage ''m9'' 1 exFired0 \<noteq> exFired0"
    by auto
  with w o exFired0_eval(2,4) show ?thesis by simp
qed

lemma exDown_eval:
  "getMatch exDown ''m1'' = Some exDownMatch"
  "mp_hp (m_player1 exDownMatch) = 200" "mp_hp (m_player2 exDownMatch) = 0"
  "mp_id (m_player1 exDownMatch) = ''alice''"
  "m_roundTimer exDownMatch = Some 0"
  "timers exDown = Map.empty"
  by (simp_all add: getMatch_def exDown_def exDownMatch_def exMatch_def exMatchPlayer_def)

text \<open>
  C5, witness: \<open>endRound\<close> on the empty registry of the initial state, on the registry
  after a finished \<open>endMatch\<close>, on the active match of alice and bob, and on their
  match when bob has no hit points left.
\<close>

theorem endRound_guard_is_registry_witness:
  "getMatch exInit ''m1'' = None \<and> endRound exStorage ''m1'' exInit = exInit \<and>
   getMatch exActive ''m1'' = Some exMatch \<and>
   (\<exists>s4. persistResult exStorage (exMatch\<lparr>m_status := completed\<rparr>) (matchWinner ''alice'' exMatch)
            (matchLoser ''alice'' exMatch) (settleMatch ''m1'' ''alice'' exMatch exActive) = Inr s4) \<and>
   m_roundTimer exMatch = Some 0 \<and>
   endRound exStorage ''m1'' (fst (endMatch exStorage ''m1'' ''alice'' exActive)) =
     fst (endMatch exStorage ''m1'' ''alice'' exActive) \<and>
   fireTimer exStorage ''m9'' 0 (fst (endMatch exStorage ''m1'' ''alice'' exActive)) =
     fst (endMatch exStorage ''m1'' ''alice'' exActive) \<and>
   0 < mp_hp (m_player1 exMatch) \<and> 0 < mp_hp (m_player2 exMatch) \<and>
   getMatch (endRound exStorage ''m1'' exActive) ''m1'' =
     Some (exMatch\<lparr>m_roundTimer := None, m_status := waiting\<rparr>) \<and>
   timers (endRound exStorage ''m1'' exActive) (nextTimer exActive) = Some (TStartRound ''m1'') \<and>
   getMatch exDown ''m1'' = Some exDownMatch \<and>
   \<not> (0 < mp_hp (m_player1 exDownMatch) \<and> 0 < mp_hp (m_player2 exDownMatch)) \<and>
   (\<exists>s2. getMatch s2 ''m1'' = Some (exDownMatch\<lparr>m_roundTimer := None, m_status := waiting\<rparr>) \<and>
         endRound exStorage ''m1'' exDown = fst (endMatch exStorage ''m1'' ''alice'' s2)) \<and>
   getMatch (endRound exStorage ''m1'' exDown) ''m1'' = None \<and>
   timers (endRound exStorage ''m1'' exDown) = Map.empty"
proof -
  have n: "getMatch exInit ''m1'' = None"
    by (simp add: getMatch_def exInit_def)
  obtain s4 where s4: "persistResult exStorage (exMatch\<lparr>m_status := completed\<rparr>)
      (matchWinner ''alice'' exMatch) (matchLoser ''alice'' exMatch)
      (settleMatch ''m1'' ''alice'' exMatch exActive) = Inr s4"
    using exStorage_persist by blast
  have t: "m_roundTimer exMatch = Some 0" by (simp add: exMatch_def)
  have hp: "0 < mp_hp (m_player1 exMatch)" "0 < mp_hp (m_player2 exMatch)"
    by (simp_all add: exMatch_def exMatchPlayer_def)
  have dead: "\<not> (0 < mp_hp (m_player1 exDownMatch) \<and> 0 < mp_hp (m_player2 exDownMatch))"
    by (simp add: exDown_eval)
  note a = endRound_guard_is_registry [of exInit "''m1''" exStorage "''alice''" exStorage "''m9''"]
  note b = endRound_guard_is_registry [of exActive "''m1''" exStorage "''alice''" exStorage "''m9''"]
  note c = endRound_guard_is_registry [of exDown "''m1''" exStorage "''alice''" exStorage "''m9''"]
  from a n have 1: "endRound exStorage ''m1'' exInit = exInit" by blast
  from b exActive_match s4 t have 2:
    "endRound exStorage ''m1'' (fst (endMatch exStorage ''m1'' ''alice'' exActive)) =
       fst (endMatch exStorage ''m1'' ''alice'' exActive) \<and>
     fireTimer exStorage ''m9'' 0 (fst (endMatch exStorage ''m1'' ''alice'' exActive)) =
       fst (endMatch exStorage ''m1'' ''alice'' exActive)"
    by blast
  from b exActive_match hp have 3:
    "getMatch (endRound exStorage ''m1'' exActive) ''m1'' =
       Some (exMatch\<lparr>m_roundTimer := None, m_status := waiting\<rparr>) \<and>
     timers (endRound exStorage ''m1'' exActive) (nextTimer exActive) = Some (TStartRound ''m1'')"
    by blast
  from c exDown_eval(1) dead obtain s2 where s2:
    "getMatch s2 ''m1'' = Some (exDownMatch\<lparr>m_roundTimer := None, m_status := waiting\<rparr>)"
    "endRound exStorage ''m1'' exDown =
       fst (endMatch exStorage ''m1''
              (if 0 < mp_hp (m_player1 exDownMatch) then mp_id (m_player1 exDownMatch)
               else mp_id (m_player2 exDownMatch)) s2)"
    by blast
  have s2': "endRound exStorage ''m1'' exDown = fst (endMatch exStorage ''m1'' ''alice'' s2)"
    using s2(2) by (simp add: exDown_eval)
  obtain s5 where s5: "persistResult exStorage
      ((exDownMatch\<lparr>m_roundTimer := None, m_status := waiting\<rparr>)\<lparr>m_status := completed\<rparr>)
      (matchWinner ''alice'' ((exDownMatch\<lparr>m_roundTimer := None, m_status := waiting\<rparr>)\<lparr>m_status := completed\<rparr>))
      (matchLoser ''alice'' ((exDownMatch\<lparr>m_roundTimer := None, m_status := waiting\<rparr>)\<lparr>m_status := completed\<rparr>))
      (settleMatch ''m1'' ''alice'' (exDownMatch\<lparr>m_roundTimer := None, m_status := waiting\<rparr>) s2) = Inr s5"
    using exStorage_persist by blast
  have 4: "getMatch (endRound exStorage ''m1'' exDown) ''m1'' = None"
    unfolding s2' using s2(1) s5 by (simp add: endMatch_getMatch)
  from c exDown_eval(1) dead have 5: "timers (endRound exStorage ''m1'' exDown) = Map.empty"
    by (simp add: exDown_eval)
  have 6: "\<exists>s2. getMatch s2 ''m1'' = Some (exDownMatch\<lparr>m_roundTimer := None, m_status := waiting\<rparr>) \<and>
         endRound exStorage ''m1'' exDown = fst (endMatch exStorage ''m1'' ''alice'' s2)"
    using s2(1) s2' by blast
  show ?thesis
    using n 1 exActive_match s4 t 2 hp 3 exDown_eval(1) dead 4 5 6 by blast
qed


section \<open>Spell hits\<close>

lemma matchProp_players [simp]:
  "matchProp proto m ''player1'' = PlayerRef Player1"
  "matchProp proto m ''player2'' = PlayerRef Player2"
  by (simp_all add: matchProp_def)

text \<open>The two keys that name a player are the only ones whose property is a player.\<close>

lemma matchProp_PlayerRef:
  "matchProp proto m key = PlayerRef k \<longleftrightarrow>
     (key = ''player1'' \<and> k = Player1) \<or> (key = ''player2'' \<and> k = Player2)"
proof (cases "key = ''player1'' \<or> key = ''player2''")
  case True
  then show ?thesis by auto
next
  case False
  then have "matchProp proto m key \<noteq> PlayerRef k"
    by (simp add: matchProp_def)
  with False show ?thesis by simp
qed

lemma handleSpellHit_absent:
  "getMatch s mid = None \<Longrightarrow> handleSpellHit db mid sid key s = (s, Returned)"
  by (simp add: handleSpellHit_def)

lemma handleSpellHit_no_spell:
  "getMatch s mid = Some m \<Longrightarrow> findIndex (\<lambda>sp. sp_id sp = sid) (m_activeSpells m) = None \<Longrightarrow>
   handleSpellHit db mid sid key s = (s, Returned)"
  by (simp add: handleSpellHit_def)

lemma handleSpellHit_falsy:
  "getMatch s mid = Some m \<Longrightarrow> matchProp (protoDamageReceived s) m key = Falsy \<Longrightarrow>
   handleSpellHit db mid sid key s = (s, Returned)"
  by (simp add: handleSpellHit_def Let_def split: option.split)

text \<open>The state after the hit is applied and broadcast, before the test for the end.\<close>

lemma handleSpellHit_found:
  assumes "getMatch s mid = Some m"
      and "findIndex (\<lambda>sp. sp_id sp = sid) (m_activeSpells m) = Some i"
      and "matchProp (protoDamageReceived s) m key = PlayerRef k"
  shows "handleSpellHit db mid sid key s =
           (let sp = m_activeSpells m ! i;
                m1 = applySpellHit (protoDamageReceived s) i sp k m;
                s1 = broadcast m1 (SpellHit (spellHitMsgOf sid sp k (mp_hp (getPlayer m k)) m1))
                       (putMatch mid m1 s)
            in if mp_hp (getPlayer m1 k) \<le> 0
               then endMatch db mid (mp_id (getPlayer m1 (sp_owner sp))) s1
               else (s1, Returned))"
  using assms by (simp add: handleSpellHit_def Let_def)

text \<open>The three other outcomes of a report that found its spell.\<close>

lemma handleSpellHit_primitive:
  assumes "getMatch s mid = Some m"
      and "findIndex (\<lambda>sp. sp_id sp = sid) (m_activeSpells m) = Some i"
      and "matchProp (protoDamageReceived s) m key = TruthyPrimitive"
  shows "handleSpellHit db mid sid key s =
           (putMatch mid (m\<lparr>m_activeSpells := spliceAt i (m_activeSpells m)\<rparr>) s, Threw)"
  using assms by (simp add: handleSpellHit_def Let_def)

lemma handleSpellHit_object:
  assumes "getMatch s mid = Some m"
      and "findIndex (\<lambda>sp. sp_id sp = sid) (m_activeSpells m) = Some i"
      and "matchProp (protoDamageReceived s) m key = OtherObject"
  shows "handleSpellHit db mid sid key s =
           (broadcast (creditCaster i (m_activeSpells m ! i) m)
              (SpellHitOther (spellHitOtherOf sid key (m_activeSpells m ! i)
                                (creditCaster i (m_activeSpells m ! i) m)))
              (putMatch mid (creditCaster i (m_activeSpells m ! i) m) s), Returned)"
  using assms by (simp add: handleSpellHit_def Let_def)

lemma handleSpellHit_prototype:
  assumes "getMatch s mid = Some m"
      and "findIndex (\<lambda>sp. sp_id sp = sid) (m_activeSpells m) = Some i"
      and "matchProp (protoDamageReceived s) m key = ObjectPrototype"
  shows "handleSpellHit db mid sid key s =
           (broadcast (creditCaster i (m_activeSpells m ! i) m)
              (SpellHitOther (spellHitOtherOf sid key (m_activeSpells m ! i)
                                (creditCaster i (m_activeSpells m ! i) m)))
              (putMatch mid (creditCaster i (m_activeSpells m ! i) m)
                 (s\<lparr>protoDamageReceived :=
                      Some (orZero (protoDamageReceived s) + sp_damage (m_activeSpells m ! i))\<rparr>)),
            Returned)"
  using assms by (simp add: handleSpellHit_def Let_def)

lemma applySpellHit_fields:
  "m_activeSpells (applySpellHit proto i sp k m) = spliceAt i (m_activeSpells m)"
  "mp_hp (getPlayer (applySpellHit proto i sp k m) k) = max 0 (mp_hp (getPlayer m k) - sp_damage sp)"
  "k' \<noteq> k \<Longrightarrow> mp_hp (getPlayer (applySpellHit proto i sp k m) k') = mp_hp (getPlayer m k')"
  "m_sessionCode (applySpellHit proto i sp k m) = m_sessionCode m"
  "m_status (applySpellHit proto i sp k m) = m_status m"
  "mp_ws (m_player1 (applySpellHit proto i sp k m)) = mp_ws (m_player1 m)"
  "mp_ws (m_player2 (applySpellHit proto i sp k m)) = mp_ws (m_player2 m)"
  by (cases k; cases k'; cases "sp_owner sp";
      simp add: applySpellHit_def Let_def getPlayer_def setPlayer_def)+

lemma applySpellHit_counters:
  "mp_damageReceived (getPlayer (applySpellHit proto i sp k m) k) =
     Some (orZero (received proto (mp_damageReceived (getPlayer m k))) + sp_damage sp)"
  "mp_damageDealt (getPlayer (applySpellHit proto i sp k m) (sp_owner sp)) =
     Some (orZero (mp_damageDealt (getPlayer m (sp_owner sp))) + sp_damage sp)"
  by (cases k; cases "sp_owner sp";
      simp add: applySpellHit_def Let_def getPlayer_def setPlayer_def)+

lemma creditCaster_fields:
  "m_activeSpells (creditCaster i sp m) = spliceAt i (m_activeSpells m)"
  "mp_hp (getPlayer (creditCaster i sp m) k) = mp_hp (getPlayer m k)"
  "mp_hp (m_player1 (creditCaster i sp m)) = mp_hp (m_player1 m)"
  "mp_hp (m_player2 (creditCaster i sp m)) = mp_hp (m_player2 m)"
  "mp_ws (m_player1 (creditCaster i sp m)) = mp_ws (m_player1 m)"
  "mp_ws (m_player2 (creditCaster i sp m)) = mp_ws (m_player2 m)"
  "mp_damageDealt (getPlayer (creditCaster i sp m) (sp_owner sp)) =
     Some (orZero (mp_damageDealt (getPlayer m (sp_owner sp))) + sp_damage sp)"
  by (cases k; cases "sp_owner sp";
      simp add: creditCaster_def Let_def getPlayer_def setPlayer_def)+

lemma getPlayer_status [simp]: "getPlayer (m\<lparr>m_status := x\<rparr>) k = getPlayer m k"
  by (cases k) (simp_all add: getPlayer_def)

lemma getPlayer_spells [simp]: "getPlayer (m\<lparr>m_activeSpells := x\<rparr>) k = getPlayer m k"
  by (cases k) (simp_all add: getPlayer_def)

lemma spliced_id_gone:
  "distinct (map f xs) \<Longrightarrow> findIndex (\<lambda>x. f x = a) xs = Some i \<Longrightarrow> a \<notin> f ` set (spliceAt i xs)"
proof (induction xs arbitrary: i)
  case Nil
  then show ?case by simp
next
  case (Cons x xs)
  show ?case
  proof (cases "f x = a")
    case True
    with Cons.prems show ?thesis by auto
  next
    case False
    with Cons.prems obtain j where j: "findIndex (\<lambda>x. f x = a) xs = Some j" "i = Suc j"
      by (auto split: option.splits)
    from Cons.prems(1) have "distinct (map f xs)" by simp
    from Cons.IH [OF this j(1)] False j(2) show ?thesis by auto
  qed
qed

lemma findIndex_absent: "a \<notin> f ` set xs \<Longrightarrow> findIndex (\<lambda>x. f x = a) xs = None"
  by (simp add: findIndex_None) blast

text \<open>
  A report that names a player and finds its spell: the state \<open>s1\<close> in which the hit is
  applied and broadcast holds the match, and the handler returns \<open>s1\<close> when the hit
  player has hit points left and calls \<open>endMatch\<close> on \<open>s1\<close> otherwise.
\<close>

lemma handleSpellHit_player:
  assumes "getMatch s mid = Some m"
      and "findIndex (\<lambda>sp. sp_id sp = sid) (m_activeSpells m) = Some i"
      and "matchProp (protoDamageReceived s) m key = PlayerRef k"
  shows "handleSpellHit db mid sid key s =
           (if 0 < max 0 (mp_hp (getPlayer m k) - sp_damage (m_activeSpells m ! i))
            then (broadcast (applySpellHit (protoDamageReceived s) i (m_activeSpells m ! i) k m)
                    (SpellHit (spellHitMsgOf sid (m_activeSpells m ! i) k (mp_hp (getPlayer m k))
                                 (applySpellHit (protoDamageReceived s) i (m_activeSpells m ! i) k m)))
                    (putMatch mid (applySpellHit (protoDamageReceived s) i (m_activeSpells m ! i) k m) s),
                  Returned)
            else endMatch db mid
                   (mp_id (getPlayer (applySpellHit (protoDamageReceived s) i (m_activeSpells m ! i) k m)
                             (sp_owner (m_activeSpells m ! i))))
                   (broadcast (applySpellHit (protoDamageReceived s) i (m_activeSpells m ! i) k m)
                      (SpellHit (spellHitMsgOf sid (m_activeSpells m ! i) k (mp_hp (getPlayer m k))
                                   (applySpellHit (protoDamageReceived s) i (m_activeSpells m ! i) k m)))
                      (putMatch mid (applySpellHit (protoDamageReceived s) i (m_activeSpells m ! i) k m) s)))"
  by (simp add: handleSpellHit_found [OF assms] Let_def applySpellHit_fields)

text \<open>
  After such a report the match is gone from the registry or is the match after the hit,
  perhaps with status \<open>completed\<close>.
\<close>

lemma handleSpellHit_match_after:
  assumes "getMatch s mid = Some m"
      and "findIndex (\<lambda>sp. sp_id sp = sid) (m_activeSpells m) = Some i"
      and "matchProp (protoDamageReceived s) m key = PlayerRef k"
  shows "getMatch (fst (handleSpellHit db mid sid key s)) mid = None \<or>
         getMatch (fst (handleSpellHit db mid sid key s)) mid =
           Some (applySpellHit (protoDamageReceived s) i (m_activeSpells m ! i) k m) \<or>
         getMatch (fst (handleSpellHit db mid sid key s)) mid =
           Some ((applySpellHit (protoDamageReceived s) i (m_activeSpells m ! i) k m)\<lparr>m_status := completed\<rparr>)"
    and "0 < max 0 (mp_hp (getPlayer m k) - sp_damage (m_activeSpells m ! i)) \<Longrightarrow>
         getMatch (fst (handleSpellHit db mid sid key s)) mid =
           Some (applySpellHit (protoDamageReceived s) i (m_activeSpells m ! i) k m)"
proof -
  let ?sp = "m_activeSpells m ! i"
  let ?m1 = "applySpellHit (protoDamageReceived s) i ?sp k m"
  let ?s1 = "broadcast ?m1 (SpellHit (spellHitMsgOf sid ?sp k (mp_hp (getPlayer m k)) ?m1)) (putMatch mid ?m1 s)"
  have g: "getMatch ?s1 mid = Some ?m1" by simp
  show "getMatch (fst (handleSpellHit db mid sid key s)) mid = None \<or>
         getMatch (fst (handleSpellHit db mid sid key s)) mid = Some ?m1 \<or>
         getMatch (fst (handleSpellHit db mid sid key s)) mid = Some (?m1\<lparr>m_status := completed\<rparr>)"
  proof (cases "0 < max 0 (mp_hp (getPlayer m k) - sp_damage ?sp)")
    case True
    have "handleSpellHit db mid sid key s = (?s1, Returned)"
      unfolding handleSpellHit_player [OF assms] using True by (simp only: if_True)
    then show ?thesis
      using g by simp
  next
    case False
    have "handleSpellHit db mid sid key s =
                 endMatch db mid (mp_id (getPlayer ?m1 (sp_owner ?sp))) ?s1"
      unfolding handleSpellHit_player [OF assms] using False by (simp only: if_False)
    then show ?thesis
      using g by (simp add: endMatch_getMatch split: sum.split)
  qed
  show "getMatch (fst (handleSpellHit db mid sid key s)) mid = Some ?m1"
    if "0 < max 0 (mp_hp (getPlayer m k) - sp_damage ?sp)"
  proof -
    have "handleSpellHit db mid sid key s = (?s1, Returned)"
      unfolding handleSpellHit_player [OF assms] using that by (simp only: if_True)
    then show ?thesis
      using g by simp
  qed
qed

text \<open>
  C2 (amended). With distinct spell ids in the match, the first report of an active spell
  that names one of the two players removes exactly that spell and lowers the hit
  player's hp once, to the maximum of 0 and hp minus damage, leaving the other player's
  hp and the other matches alone; the counters of the caster and of the hit player grow
  by the damage. This is the state \<open>s1\<close>, which holds the match; it is the result when
  the hit player has hit points left, and otherwise \<open>endMatch\<close> runs on it. Any further
  report of the same spell id, with any storage and any target, returns the state
  unchanged, and so does a report of a spell id that is not among the active spells. A
  report whose target is undefined or falsy is ignored as well, before the spell is
  removed: it returns the state unchanged, with the spell still active.
\<close>

theorem handleSpellHit_idempotent:
  assumes "getMatch s mid = Some m"
      and "distinct (map sp_id (m_activeSpells m))"
      and "findIndex (\<lambda>sp. sp_id sp = sid) (m_activeSpells m) = Some i"
      and "matchProp (protoDamageReceived s) m key = PlayerRef k"
  shows "(\<exists>s1 m1. getMatch s1 mid = Some m1 \<and>
                  (\<forall>mid'. mid' \<noteq> mid \<longrightarrow> getMatch s1 mid' = getMatch s mid') \<and>
                  m_activeSpells m1 = spliceAt i (m_activeSpells m) \<and>
                  sid \<notin> sp_id ` set (m_activeSpells m1) \<and>
                  mp_hp (getPlayer m1 k) =
                    max 0 (mp_hp (getPlayer m k) - sp_damage (m_activeSpells m ! i)) \<and>
                  (\<forall>k'. k' \<noteq> k \<longrightarrow> mp_hp (getPlayer m1 k') = mp_hp (getPlayer m k')) \<and>
                  mp_damageReceived (getPlayer m1 k) =
                    Some (orZero (received (protoDamageReceived s) (mp_damageReceived (getPlayer m k))) +
                          sp_damage (m_activeSpells m ! i)) \<and>
                  mp_damageDealt (getPlayer m1 (sp_owner (m_activeSpells m ! i))) =
                    Some (orZero (mp_damageDealt (getPlayer m (sp_owner (m_activeSpells m ! i)))) +
                          sp_damage (m_activeSpells m ! i)) \<and>
                  handleSpellHit db mid sid key s =
                    (if 0 < mp_hp (getPlayer m1 k) then (s1, Returned)
                     else endMatch db mid (mp_id (getPlayer m1 (sp_owner (m_activeSpells m ! i)))) s1)) \<and>
         (\<forall>m'. getMatch (fst (handleSpellHit db mid sid key s)) mid = Some m' \<longrightarrow>
            m_activeSpells m' = spliceAt i (m_activeSpells m) \<and>
            sid \<notin> sp_id ` set (m_activeSpells m') \<and>
            mp_hp (getPlayer m' k) = max 0 (mp_hp (getPlayer m k) - sp_damage (m_activeSpells m ! i)) \<and>
            (\<forall>k'. k' \<noteq> k \<longrightarrow> mp_hp (getPlayer m' k') = mp_hp (getPlayer m k'))) \<and>
         (0 < max 0 (mp_hp (getPlayer m k) - sp_damage (m_activeSpells m ! i)) \<longrightarrow>
            (\<exists>m'. getMatch (fst (handleSpellHit db mid sid key s)) mid = Some m')) \<and>
         (\<forall>db' key'. handleSpellHit db' mid sid key' (fst (handleSpellHit db mid sid key s)) =
            (fst (handleSpellHit db mid sid key s), Returned)) \<and>
         (\<forall>sid' key'. sid' \<notin> sp_id ` set (m_activeSpells m) \<longrightarrow>
            handleSpellHit db mid sid' key' s = (s, Returned)) \<and>
         (\<forall>key'. matchProp (protoDamageReceived s) m key' = Falsy \<longrightarrow>
            handleSpellHit db mid sid key' s = (s, Returned))"
proof -
  let ?s' = "fst (handleSpellHit db mid sid key s)"
  let ?sp = "m_activeSpells m ! i"
  let ?m1 = "applySpellHit (protoDamageReceived s) i ?sp k m"
  let ?s1 = "broadcast ?m1 (SpellHit (spellHitMsgOf sid ?sp k (mp_hp (getPlayer m k)) ?m1)) (putMatch mid ?m1 s)"
  note after = handleSpellHit_match_after [OF assms(1,3,4), where db = db]
  have gone: "sid \<notin> sp_id ` set (spliceAt i (m_activeSpells m))"
    by (rule spliced_id_gone [OF assms(2,3)])
  have s1: "getMatch ?s1 mid = Some ?m1"
           "\<forall>mid'. mid' \<noteq> mid \<longrightarrow> getMatch ?s1 mid' = getMatch s mid'"
    by simp_all
  have m1: "m_activeSpells ?m1 = spliceAt i (m_activeSpells m)"
           "sid \<notin> sp_id ` set (m_activeSpells ?m1)"
           "mp_hp (getPlayer ?m1 k) = max 0 (mp_hp (getPlayer m k) - sp_damage ?sp)"
           "\<forall>k'. k' \<noteq> k \<longrightarrow> mp_hp (getPlayer ?m1 k') = mp_hp (getPlayer m k')"
    using gone by (simp_all add: applySpellHit_fields)
  have run: "handleSpellHit db mid sid key s =
               (if 0 < mp_hp (getPlayer ?m1 k) then (?s1, Returned)
                else endMatch db mid (mp_id (getPlayer ?m1 (sp_owner ?sp))) ?s1)"
    by (simp add: handleSpellHit_player [OF assms(1,3,4)] applySpellHit_fields)
  have state: "\<exists>s1 m1. getMatch s1 mid = Some m1 \<and>
                  (\<forall>mid'. mid' \<noteq> mid \<longrightarrow> getMatch s1 mid' = getMatch s mid') \<and>
                  m_activeSpells m1 = spliceAt i (m_activeSpells m) \<and>
                  sid \<notin> sp_id ` set (m_activeSpells m1) \<and>
                  mp_hp (getPlayer m1 k) = max 0 (mp_hp (getPlayer m k) - sp_damage ?sp) \<and>
                  (\<forall>k'. k' \<noteq> k \<longrightarrow> mp_hp (getPlayer m1 k') = mp_hp (getPlayer m k')) \<and>
                  mp_damageReceived (getPlayer m1 k) =
                    Some (orZero (received (protoDamageReceived s) (mp_damageReceived (getPlayer m k))) +
                          sp_damage ?sp) \<and>
                  mp_damageDealt (getPlayer m1 (sp_owner ?sp)) =
                    Some (orZero (mp_damageDealt (getPlayer m (sp_owner ?sp))) + sp_damage ?sp) \<and>
                  handleSpellHit db mid sid key s =
                    (if 0 < mp_hp (getPlayer m1 k) then (s1, Returned)
                     else endMatch db mid (mp_id (getPlayer m1 (sp_owner ?sp))) s1)"
    using s1 m1 run applySpellHit_counters [of "protoDamageReceived s" i ?sp k m]
    by (intro exI [of _ ?s1] exI [of _ ?m1]) blast
  have first: "m_activeSpells m' = spliceAt i (m_activeSpells m) \<and>
            sid \<notin> sp_id ` set (m_activeSpells m') \<and>
            mp_hp (getPlayer m' k) = max 0 (mp_hp (getPlayer m k) - sp_damage ?sp) \<and>
            (\<forall>k'. k' \<noteq> k \<longrightarrow> mp_hp (getPlayer m' k') = mp_hp (getPlayer m k'))"
    if "getMatch ?s' mid = Some m'" for m'
  proof -
    from after(1) that have "m' = ?m1 \<or> m' = ?m1\<lparr>m_status := completed\<rparr>" by auto
    then show ?thesis
      using gone by (auto simp add: applySpellHit_fields)
  qed
  have alive: "\<exists>m'. getMatch ?s' mid = Some m'"
    if "0 < max 0 (mp_hp (getPlayer m k) - sp_damage ?sp)"
    using after(2) [OF that] by blast
  have second: "handleSpellHit db' mid sid key' ?s' = (?s', Returned)" for db' key'
  proof (cases "getMatch ?s' mid")
    case None
    then show ?thesis by (rule handleSpellHit_absent)
  next
    case (Some m')
    from first [OF Some] have "sid \<notin> sp_id ` set (m_activeSpells m')" by blast
    then have "findIndex (\<lambda>sp. sp_id sp = sid) (m_activeSpells m') = None"
      by (rule findIndex_absent)
    with Some show ?thesis by (rule handleSpellHit_no_spell)
  qed
  have missing: "handleSpellHit db mid sid' key' s = (s, Returned)"
    if "sid' \<notin> sp_id ` set (m_activeSpells m)" for sid' key'
    using assms(1) findIndex_absent [OF that] by (rule handleSpellHit_no_spell)
  have ignored: "handleSpellHit db mid sid key' s = (s, Returned)"
    if "matchProp (protoDamageReceived s) m key' = Falsy" for key'
    using assms(1) that by (rule handleSpellHit_falsy)
  from state first alive second missing ignored show ?thesis by blast
qed

lemma exMatch_spells:
  "m_activeSpells exMatch = [exSpell]"
  "sp_id exSpell = ''s1''" "sp_damage exSpell = 25" "sp_owner exSpell = Player1"
  "mp_hp (getPlayer exMatch k) = 200"
  by (cases k; simp add: exMatch_def exSpell_def getPlayer_def exMatchPlayer_def)+

lemma exActive_proto: "protoDamageReceived exActive = None"
  by (simp add: exActive_def)

lemma exActive_keys:
  "matchProp (protoDamageReceived exActive) exMatch ''player3'' = Falsy"
  "matchProp (protoDamageReceived exActive) exMatch ''activeSpells'' = OtherObject"
  "matchProp (protoDamageReceived exActive) exMatch ''status'' = TruthyPrimitive"
  "matchProp (protoDamageReceived exActive) exMatch ''__proto__'' = ObjectPrototype"
  by (simp_all add: matchProp_def inheritedMethods_def orZero_def exActive_proto)

lemma exActive_found: "findIndex (\<lambda>sp. sp_id sp = ''s1'') (m_activeSpells exMatch) = Some 0"
  by (simp add: exMatch_spells)

text \<open>Bob is hit by the fire arrow \<open>s1\<close> of alice (damage 25).\<close>

lemma exActive_hit:
  "getMatch (fst (handleSpellHit exStorage ''m1'' ''s1'' ''player2'' exActive)) ''m1'' =
     Some (applySpellHit None 0 exSpell Player2 exMatch)"
  "m_activeSpells (applySpellHit None 0 exSpell Player2 exMatch) = []"
  "mp_hp (getPlayer (applySpellHit None 0 exSpell Player2 exMatch) Player2) = 175"
  "mp_hp (getPlayer (applySpellHit None 0 exSpell Player2 exMatch) Player1) = 200"
proof -
  have p: "matchProp (protoDamageReceived exActive) exMatch ''player2'' = PlayerRef Player2"
    by simp
  show "getMatch (fst (handleSpellHit exStorage ''m1'' ''s1'' ''player2'' exActive)) ''m1'' =
          Some (applySpellHit None 0 exSpell Player2 exMatch)"
    using handleSpellHit_match_after(2) [OF exActive_match exActive_found p, where db = exStorage]
    by (simp add: exMatch_spells exActive_proto)
  show "m_activeSpells (applySpellHit None 0 exSpell Player2 exMatch) = []"
       "mp_hp (getPlayer (applySpellHit None 0 exSpell Player2 exMatch) Player2) = 175"
       "mp_hp (getPlayer (applySpellHit None 0 exSpell Player2 exMatch) Player1) = 200"
    by (simp_all add: applySpellHit_fields exMatch_spells)
qed

text \<open>
  The reports that name a property of the match that is not a player. With
  \<open>'activeSpells'\<close> the spell is removed, alice is credited with the damage, both
  players keep their hit points and \<open>spell-hit\<close> is sent to both. With \<open>'status'\<close> the
  spell is removed and the handler throws. With \<open>'__proto__'\<close> the damage is written to
  \<open>Object.prototype.damageReceived\<close>.
\<close>

lemma exActive_hit_activeSpells:
  "handleSpellHit exStorage ''m1'' ''s1'' ''activeSpells'' exActive =
     (exActive\<lparr>activeMatches :=
                  [(''m1'', exMatch\<lparr>m_activeSpells := [],
                                     m_player1 := (m_player1 exMatch)\<lparr>mp_damageDealt := Some 25\<rparr>\<rparr>)],
                outbox :=
                  [(1, SpellHitOther \<lparr>so_spellId = ''s1'', so_target = ''activeSpells'', so_damage = 25,
                                       so_player1Hp = 200, so_player2Hp = 200\<rparr>),
                   (2, SpellHitOther \<lparr>so_spellId = ''s1'', so_target = ''activeSpells'', so_damage = 25,
                                       so_player1Hp = 200, so_player2Hp = 200\<rparr>)]\<rparr>,
      Returned)"
  unfolding handleSpellHit_object [OF exActive_match exActive_found exActive_keys(2)]
  by (simp add: exActive_def exMatch_def exSpell_def exMatchPlayer_def exSockets_def creditCaster_def
        spellHitOtherOf_def putMatch_def broadcast_def sendIfOpen_def getPlayer_def setPlayer_def
        orZero_def spliceAt_def Let_def)

lemma exActive_hit_status:
  "handleSpellHit exStorage ''m1'' ''s1'' ''status'' exActive =
     (exActive\<lparr>activeMatches := [(''m1'', exMatch\<lparr>m_activeSpells := []\<rparr>)]\<rparr>, Threw)"
  unfolding handleSpellHit_primitive [OF exActive_match exActive_found exActive_keys(3)]
  by (simp add: exActive_def exMatch_def putMatch_def spliceAt_def)

lemma exActive_hit_proto:
  "protoDamageReceived (fst (handleSpellHit exStorage ''m1'' ''s1'' ''__proto__'' exActive)) = Some 25"
  unfolding handleSpellHit_prototype [OF exActive_match exActive_found exActive_keys(4)]
  by (simp add: exActive_proto exMatch_spells orZero_def putMatch_def)

text \<open>
  C2, counterexample. The first report of the spell \<open>s1\<close> names \<open>player3\<close>, which the
  match has not: the report is ignored, the spell is not removed and no damage is
  applied. The second report of \<open>s1\<close>, which names \<open>player2\<close>, is then not a no-op: it
  removes the spell and takes bob from 200 to 175 hit points.
\<close>

theorem handleSpellHit_ignored_report:
  "getMatch exActive ''m1'' = Some exMatch \<and>
   m_activeSpells exMatch = [exSpell] \<and> sp_id exSpell = ''s1'' \<and>
   mp_hp (getPlayer exMatch Player2) = 200 \<and>
   handleSpellHit exStorage ''m1'' ''s1'' ''player3'' exActive = (exActive, Returned) \<and>
   (\<exists>m'. getMatch (fst (handleSpellHit exStorage ''m1'' ''s1'' ''player2''
                          (fst (handleSpellHit exStorage ''m1'' ''s1'' ''player3'' exActive)))) ''m1'' =
            Some m' \<and>
         m_activeSpells m' = [] \<and> mp_hp (getPlayer m' Player2) = 175) \<and>
   handleSpellHit exStorage ''m1'' ''s1'' ''player2''
     (fst (handleSpellHit exStorage ''m1'' ''s1'' ''player3'' exActive)) \<noteq>
   (fst (handleSpellHit exStorage ''m1'' ''s1'' ''player3'' exActive), Returned)"
proof -
  have 1: "handleSpellHit exStorage ''m1'' ''s1'' ''player3'' exActive = (exActive, Returned)"
    using exActive_match exActive_keys(1) by (rule handleSpellHit_falsy)
  have 2: "\<exists>m'. getMatch (fst (handleSpellHit exStorage ''m1'' ''s1'' ''player2'' exActive)) ''m1'' =
            Some m' \<and> m_activeSpells m' = [] \<and> mp_hp (getPlayer m' Player2) = 175"
    using exActive_hit by blast
  have "getMatch (fst (handleSpellHit exStorage ''m1'' ''s1'' ''player2'' exActive)) ''m1'' \<noteq>
        getMatch exActive ''m1''"
  proof
    assume "getMatch (fst (handleSpellHit exStorage ''m1'' ''s1'' ''player2'' exActive)) ''m1'' =
            getMatch exActive ''m1''"
    then have "applySpellHit None 0 exSpell Player2 exMatch = exMatch"
      by (simp add: exActive_hit(1) exActive_match)
    then have "mp_hp (getPlayer (applySpellHit None 0 exSpell Player2 exMatch) Player2) =
               mp_hp (getPlayer exMatch Player2)"
      by simp
    then show False
      by (simp add: exActive_hit(3) exMatch_spells)
  qed
  then have 3: "handleSpellHit exStorage ''m1'' ''s1'' ''player2'' exActive \<noteq> (exActive, Returned)"
    by auto
  show ?thesis
    using exActive_match 2 3 by (simp add: 1 exMatch_spells)
qed

text \<open>
  C2, witness: the first report for \<open>player2\<close> removes the spell and leaves bob with 175
  hit points, the second report changes nothing, and so do a report of the unknown
  spell \<open>s2\<close> and a report of \<open>s1\<close> for \<open>player3\<close>.
\<close>

theorem handleSpellHit_idempotent_witness:
  "getMatch exActive ''m1'' = Some exMatch \<and>
   distinct (map sp_id (m_activeSpells exMatch)) \<and>
   findIndex (\<lambda>sp. sp_id sp = ''s1'') (m_activeSpells exMatch) = Some 0 \<and>
   matchProp (protoDamageReceived exActive) exMatch ''player2'' = PlayerRef Player2 \<and>
   0 < max 0 (mp_hp (getPlayer exMatch Player2) - sp_damage (m_activeSpells exMatch ! 0)) \<and>
   getMatch (fst (handleSpellHit exStorage ''m1'' ''s1'' ''player2'' exActive)) ''m1'' =
     Some (applySpellHit None 0 exSpell Player2 exMatch) \<and>
   m_activeSpells (applySpellHit None 0 exSpell Player2 exMatch) = [] \<and>
   mp_hp (getPlayer (applySpellHit None 0 exSpell Player2 exMatch) Player2) = 175 \<and>
   mp_hp (getPlayer (applySpellHit None 0 exSpell Player2 exMatch) Player1) = 200 \<and>
   handleSpellHit exStorage ''m1'' ''s1'' ''player2''
       (fst (handleSpellHit exStorage ''m1'' ''s1'' ''player2'' exActive)) =
     (fst (handleSpellHit exStorage ''m1'' ''s1'' ''player2'' exActive), Returned) \<and>
   ''s2'' \<notin> sp_id ` set (m_activeSpells exMatch) \<and>
   handleSpellHit exStorage ''m1'' ''s2'' ''player2'' exActive = (exActive, Returned) \<and>
   matchProp (protoDamageReceived exActive) exMatch ''player3'' = Falsy \<and>
   handleSpellHit exStorage ''m1'' ''s1'' ''player3'' exActive = (exActive, Returned)"
proof -
  have d: "distinct (map sp_id (m_activeSpells exMatch))"
    by (simp add: exMatch_spells)
  have n: "''s2'' \<notin> sp_id ` set (m_activeSpells exMatch)"
    by (simp add: exMatch_spells)
  have p: "matchProp (protoDamageReceived exActive) exMatch ''player2'' = PlayerRef Player2"
    by simp
  have a: "0 < max 0 (mp_hp (getPlayer exMatch Player2) - sp_damage (m_activeSpells exMatch ! 0))"
    by (simp add: exMatch_spells)
  note t = handleSpellHit_idempotent [OF exActive_match d exActive_found p, where db = exStorage]
  from t exActive_hit(1) have 1:
     "m_activeSpells (applySpellHit None 0 exSpell Player2 exMatch) = spliceAt 0 (m_activeSpells exMatch) \<and>
      mp_hp (getPlayer (applySpellHit None 0 exSpell Player2 exMatch) Player2) =
        max 0 (mp_hp (getPlayer exMatch Player2) - sp_damage (m_activeSpells exMatch ! 0)) \<and>
      mp_hp (getPlayer (applySpellHit None 0 exSpell Player2 exMatch) Player1) = mp_hp (getPlayer exMatch Player1)"
    by blast
  from t have 2: "handleSpellHit exStorage ''m1'' ''s1'' ''player2''
       (fst (handleSpellHit exStorage ''m1'' ''s1'' ''player2'' exActive)) =
     (fst (handleSpellHit exStorage ''m1'' ''s1'' ''player2'' exActive), Returned)"
    by blast
  from t n have 3: "handleSpellHit exStorage ''m1'' ''s2'' ''player2'' exActive = (exActive, Returned)"
    by blast
  from t exActive_keys(1) have 5: "handleSpellHit exStorage ''m1'' ''s1'' ''player3'' exActive = (exActive, Returned)"
    by blast
  from 1 have 4: "m_activeSpells (applySpellHit None 0 exSpell Player2 exMatch) = []"
     "mp_hp (getPlayer (applySpellHit None 0 exSpell Player2 exMatch) Player2) = 175"
     "mp_hp (getPlayer (applySpellHit None 0 exSpell Player2 exMatch) Player1) = 200"
    by (simp_all add: exMatch_spells)
  show ?thesis
    using exActive_match d exActive_found p a exActive_hit(1) 4 2 n 3 exActive_keys(1) 5 by blast
qed

section \<open>Hit points stay non-negative\<close>

lemma set_update_subset: "set (AList.update k v al) \<subseteq> insert (k, v) (set al)"
  by (induction al) auto

lemma set_delete_subset: "set (AList.delete k al) \<subseteq> set al"
  by (auto simp add: AList.delete_eq)

lemma hpNonNegative_update:
  assumes "hpNonNegative s" and "activeMatches s' = AList.update mid m (activeMatches s)"
      and "0 \<le> mp_hp (m_player1 m)" and "0 \<le> mp_hp (m_player2 m)"
  shows "hpNonNegative s'"
  using assms set_update_subset [of mid m "activeMatches s"]
  unfolding hpNonNegative_def by auto

lemma hpNonNegative_delete:
  assumes "hpNonNegative s" and "activeMatches s' = AList.delete mid (activeMatches s)"
  shows "hpNonNegative s'"
  using assms set_delete_subset [of mid "activeMatches s"]
  unfolding hpNonNegative_def by auto

lemma hpNonNegative_same:
  "hpNonNegative s \<Longrightarrow> activeMatches s' = activeMatches s \<Longrightarrow> hpNonNegative s'"
  by (simp add: hpNonNegative_def)

lemma hpNonNegative_getMatch:
  "hpNonNegative s \<Longrightarrow> getMatch s mid = Some m \<Longrightarrow>
   0 \<le> mp_hp (m_player1 m) \<and> 0 \<le> mp_hp (m_player2 m)"
  unfolding hpNonNegative_def getMatch_def by (auto dest!: map_of_SomeD)

lemma endMatch_hpNonNegative:
  assumes "hpNonNegative s"
  shows "hpNonNegative (fst (endMatch db mid w s))"
proof (cases "getMatch s mid")
  case None
  with assms show ?thesis by (simp add: endMatch_absent)
next
  case (Some m0)
  from hpNonNegative_getMatch [OF assms Some]
  have hp: "0 \<le> mp_hp (m_player1 (m0\<lparr>m_status := completed\<rparr>))"
           "0 \<le> mp_hp (m_player2 (m0\<lparr>m_status := completed\<rparr>))" by simp_all
  have settled: "hpNonNegative (settleMatch mid w m0 s)"
    using assms _ hp by (rule hpNonNegative_update) simp
  show ?thesis
  proof (cases "persistResult db (m0\<lparr>m_status := completed\<rparr>) (matchWinner w (m0\<lparr>m_status := completed\<rparr>))
             (matchLoser w (m0\<lparr>m_status := completed\<rparr>)) (settleMatch mid w m0 s)")
    case (Inl out)
    with settled show ?thesis by (simp add: endMatch_stopped [OF Some])
  next
    case (Inr s4)
    show ?thesis
      using settled
      by (rule hpNonNegative_delete)
         (simp add: endMatch_finished [OF Some Inr] persistResult_Inr [OF Inr])
  qed
qed

lemma applySpellHit_nonneg:
  assumes "0 \<le> mp_hp (m_player1 m)" and "0 \<le> mp_hp (m_player2 m)"
  shows "0 \<le> mp_hp (m_player1 (applySpellHit proto i sp k m)) \<and>
         0 \<le> mp_hp (m_player2 (applySpellHit proto i sp k m))"
proof -
  have "0 \<le> mp_hp (getPlayer (applySpellHit proto i sp k m) k')" for k'
  proof (cases "k' = k")
    case True
    then show ?thesis by (simp add: applySpellHit_fields(2))
  next
    case False
    have "0 \<le> mp_hp (getPlayer m k')"
      using assms by (cases k') (simp_all add: getPlayer_def)
    with False show ?thesis by (simp add: applySpellHit_fields(3))
  qed
  from this [of Player1] this [of Player2] show ?thesis by (simp add: getPlayer_def)
qed

text \<open>
  A report whose target is not a player leaves the match in the registry, with the hit
  points of both players as they were.
\<close>

lemma handleSpellHit_other_target:
  assumes "getMatch s mid = Some m"
      and "\<forall>k. matchProp (protoDamageReceived s) m key \<noteq> PlayerRef k"
  shows "\<exists>m'. getMatch (fst (handleSpellHit db mid sid key s)) mid = Some m' \<and>
              mp_hp (m_player1 m') = mp_hp (m_player1 m) \<and>
              mp_hp (m_player2 m') = mp_hp (m_player2 m)"
proof (cases "findIndex (\<lambda>sp. sp_id sp = sid) (m_activeSpells m)")
  case None
  with assms(1) show ?thesis by (simp add: handleSpellHit_no_spell)
next
  case (Some i)
  show ?thesis
  proof (cases "matchProp (protoDamageReceived s) m key")
    case (PlayerRef k)
    with assms(2) show ?thesis by simp
  next
    case OtherObject
    show ?thesis
      by (simp add: handleSpellHit_object [OF assms(1) Some OtherObject] creditCaster_fields)
  next
    case ObjectPrototype
    show ?thesis
      by (simp add: handleSpellHit_prototype [OF assms(1) Some ObjectPrototype] creditCaster_fields
            getMatch_def putMatch_def update_conv')
  next
    case TruthyPrimitive
    show ?thesis
      by (simp add: handleSpellHit_primitive [OF assms(1) Some TruthyPrimitive])
  next
    case Falsy
    with assms(1) show ?thesis by (simp add: handleSpellHit_falsy)
  qed
qed

lemma handleSpellHit_hpNonNegative:
  assumes "hpNonNegative s"
  shows "hpNonNegative (fst (handleSpellHit db mid sid key s))"
proof (cases "getMatch s mid")
  case None
  with assms show ?thesis by (simp add: handleSpellHit_absent)
next
  case (Some m)
  note hp = hpNonNegative_getMatch [OF assms Some]
  show ?thesis
  proof (cases "findIndex (\<lambda>sp. sp_id sp = sid) (m_activeSpells m)")
    case None
    with assms Some show ?thesis by (simp add: handleSpellHit_no_spell)
  next
    case found: (Some i)
    let ?sp = "m_activeSpells m ! i"
    show ?thesis
    proof (cases "matchProp (protoDamageReceived s) m key")
      case Falsy
      with assms Some show ?thesis by (simp add: handleSpellHit_falsy)
    next
      case TruthyPrimitive
      let ?m1 = "m\<lparr>m_activeSpells := spliceAt i (m_activeSpells m)\<rparr>"
      have "hpNonNegative (putMatch mid ?m1 s)"
        using hpNonNegative_update [OF assms, of "putMatch mid ?m1 s" mid ?m1] hp by simp
      then show ?thesis
        by (simp add: handleSpellHit_primitive [OF Some found TruthyPrimitive])
    next
      case OtherObject
      let ?m1 = "creditCaster i ?sp m"
      let ?s1 = "broadcast ?m1 (SpellHitOther (spellHitOtherOf sid key ?sp ?m1)) (putMatch mid ?m1 s)"
      have "hpNonNegative ?s1"
        using hpNonNegative_update [OF assms, of ?s1 mid ?m1] hp by (simp add: creditCaster_fields)
      then show ?thesis
        by (simp add: handleSpellHit_object [OF Some found OtherObject])
    next
      case ObjectPrototype
      let ?m1 = "creditCaster i ?sp m"
      let ?s1 = "broadcast ?m1 (SpellHitOther (spellHitOtherOf sid key ?sp ?m1))
                   (putMatch mid ?m1
                      (s\<lparr>protoDamageReceived := Some (orZero (protoDamageReceived s) + sp_damage ?sp)\<rparr>))"
      have "hpNonNegative ?s1"
        using hpNonNegative_update [OF assms, of ?s1 mid ?m1] hp
        by (simp add: creditCaster_fields putMatch_def)
      then show ?thesis
        by (simp add: handleSpellHit_prototype [OF Some found ObjectPrototype])
    next
      case (PlayerRef k)
      let ?m1 = "applySpellHit (protoDamageReceived s) i ?sp k m"
      let ?s1 = "broadcast ?m1 (SpellHit (spellHitMsgOf sid ?sp k (mp_hp (getPlayer m k)) ?m1)) (putMatch mid ?m1 s)"
      from hp have "0 \<le> mp_hp (m_player1 ?m1) \<and> 0 \<le> mp_hp (m_player2 ?m1)"
        by (intro applySpellHit_nonneg) simp_all
      then have s1: "hpNonNegative ?s1"
        using hpNonNegative_update [OF assms, of ?s1 mid ?m1] by simp
      show ?thesis
        using s1 endMatch_hpNonNegative [OF s1]
        by (simp add: handleSpellHit_found [OF Some found PlayerRef] Let_def)
    qed
  qed
qed

lemma reportHits_hpNonNegative:
  "hpNonNegative s \<Longrightarrow> hpNonNegative (reportHits db reports s)"
proof (induction reports arbitrary: s)
  case Nil
  then show ?case by simp
next
  case (Cons r reports)
  obtain mid sid key where r: "r = (mid, sid, key)" by (cases r)
  from Cons.prems have "hpNonNegative (fst (handleSpellHit db mid sid key s))"
    by (rule handleSpellHit_hpNonNegative)
  from Cons.IH [OF this] r show ?case by simp
qed

lemma handleSpellHit_outbox:
  assumes "getMatch s mid = Some m"
      and "findIndex (\<lambda>sp. sp_id sp = sid) (m_activeSpells m) = Some i"
      and "matchProp (protoDamageReceived s) m key = PlayerRef k"
  shows "\<exists>r. outbox (fst (handleSpellHit db mid sid key s)) =
           outbox s
           @ (if ws_open (sockets s (mp_ws (m_player1 m)))
              then [(mp_ws (m_player1 m),
                     SpellHit (spellHitMsgOf sid (m_activeSpells m ! i) k (mp_hp (getPlayer m k))
                                 (applySpellHit (protoDamageReceived s) i (m_activeSpells m ! i) k m)))] else [])
           @ (if ws_open (sockets s (mp_ws (m_player2 m)))
              then [(mp_ws (m_player2 m),
                     SpellHit (spellHitMsgOf sid (m_activeSpells m ! i) k (mp_hp (getPlayer m k))
                                 (applySpellHit (protoDamageReceived s) i (m_activeSpells m ! i) k m)))] else [])
           @ r"
proof -
  let ?sp = "m_activeSpells m ! i"
  let ?m1 = "applySpellHit (protoDamageReceived s) i ?sp k m"
  let ?s1 = "broadcast ?m1 (SpellHit (spellHitMsgOf sid ?sp k (mp_hp (getPlayer m k)) ?m1)) (putMatch mid ?m1 s)"
  show ?thesis
  proof (cases "mp_hp (getPlayer ?m1 k) \<le> 0")
    case False
    then show ?thesis
      by (simp add: handleSpellHit_found [OF assms] Let_def applySpellHit_fields)
  next
    case True
    from endMatch_outbox [of db mid "mp_id (getPlayer ?m1 (sp_owner ?sp))" ?s1]
    obtain r where "outbox (fst (endMatch db mid (mp_id (getPlayer ?m1 (sp_owner ?sp))) ?s1)) = outbox ?s1 @ r"
      by blast
    with True show ?thesis
      by (intro exI [of _ r]) (simp add: handleSpellHit_found [OF assms] Let_def applySpellHit_fields)
  qed
qed

lemma spellHitMsgOf_fields:
  "sh_remainingHp (spellHitMsgOf sid sp k oldHp m) = mp_hp (getPlayer m k)"
  "sh_oldHp (spellHitMsgOf sid sp k oldHp m) = oldHp"
  "sh_player1Hp (spellHitMsgOf sid sp k oldHp m) = mp_hp (m_player1 m)"
  "sh_player2Hp (spellHitMsgOf sid sp k oldHp m) = mp_hp (m_player2 m)"
  "sh_damage (spellHitMsgOf sid sp k oldHp m) = sp_damage sp"
  by (simp_all add: spellHitMsgOf_def)

text \<open>
  C3. A report that names a player and finds its spell stores, for the hit player, the
  maximum of 0 and the previous hp minus the spell's damage, whatever the damage is.
  That value is not negative; it is the hp of the player in the state \<open>s1\<close>, which holds
  the match and is returned when the value is above 0, and on which \<open>endMatch\<close> runs when
  it is 0; it is the hp of the player in the registry afterwards, when the match is
  still there; and it is the \<open>remainingHp\<close> of the \<open>spell-hit\<close> message sent to both
  open sockets. When no hp in the registry is negative, no hp field of that message is
  negative. A report whose target is not a player leaves the match in the registry with
  the hit points of both players unchanged. No hp in the registry is negative after any
  sequence of reports, whatever their targets.
\<close>

theorem handleSpellHit_hp_clamped:
  "(\<forall>m i k. getMatch s mid = Some m \<and>
           findIndex (\<lambda>sp. sp_id sp = sid) (m_activeSpells m) = Some i \<and>
           matchProp (protoDamageReceived s) m key = PlayerRef k \<longrightarrow>
      (let sp = m_activeSpells m ! i;
           newHp = max 0 (mp_hp (getPlayer m k) - sp_damage sp);
           m1 = applySpellHit (protoDamageReceived s) i sp k m;
           msg = spellHitMsgOf sid sp k (mp_hp (getPlayer m k)) m1;
           s1 = broadcast m1 (SpellHit msg) (putMatch mid m1 s);
           s' = fst (handleSpellHit db mid sid key s)
       in 0 \<le> newHp \<and>
          mp_hp (getPlayer m1 k) = newHp \<and>
          getMatch s1 mid = Some m1 \<and>
          handleSpellHit db mid sid key s =
            (if 0 < newHp then (s1, Returned)
             else endMatch db mid (mp_id (getPlayer m1 (sp_owner sp))) s1) \<and>
          (0 < newHp \<longrightarrow> getMatch s' mid = Some m1) \<and>
          (getMatch s' mid = None \<or> getMatch s' mid = Some m1 \<or>
           getMatch s' mid = Some (m1\<lparr>m_status := completed\<rparr>)) \<and>
          (\<forall>m'. getMatch s' mid = Some m' \<longrightarrow> mp_hp (getPlayer m' k) = newHp) \<and>
          sh_remainingHp msg = newHp \<and>
          (\<exists>r. outbox s' =
                 outbox s
                 @ (if ws_open (sockets s (mp_ws (m_player1 m)))
                    then [(mp_ws (m_player1 m), SpellHit msg)] else [])
                 @ (if ws_open (sockets s (mp_ws (m_player2 m)))
                    then [(mp_ws (m_player2 m), SpellHit msg)] else [])
                 @ r) \<and>
          (hpNonNegative s \<longrightarrow>
             0 \<le> sh_oldHp msg \<and> 0 \<le> sh_player1Hp msg \<and> 0 \<le> sh_player2Hp msg))) \<and>
   (\<forall>m. getMatch s mid = Some m \<and> (\<forall>k. matchProp (protoDamageReceived s) m key \<noteq> PlayerRef k) \<longrightarrow>
      (\<exists>m'. getMatch (fst (handleSpellHit db mid sid key s)) mid = Some m' \<and>
            mp_hp (m_player1 m') = mp_hp (m_player1 m) \<and>
            mp_hp (m_player2 m') = mp_hp (m_player2 m))) \<and>
   (hpNonNegative s \<longrightarrow> hpNonNegative (reportHits db reports s))"
proof (intro conjI allI impI)
  fix m i k
  assume a: "getMatch s mid = Some m \<and> findIndex (\<lambda>sp. sp_id sp = sid) (m_activeSpells m) = Some i \<and>
             matchProp (protoDamageReceived s) m key = PlayerRef k"
  then have g: "getMatch s mid = Some m"
    and f: "findIndex (\<lambda>sp. sp_id sp = sid) (m_activeSpells m) = Some i"
    and p: "matchProp (protoDamageReceived s) m key = PlayerRef k" by simp_all
  let ?sp = "m_activeSpells m ! i"
  let ?newHp = "max 0 (mp_hp (getPlayer m k) - sp_damage ?sp)"
  let ?m1 = "applySpellHit (protoDamageReceived s) i ?sp k m"
  let ?msg = "spellHitMsgOf sid ?sp k (mp_hp (getPlayer m k)) ?m1"
  let ?s1 = "broadcast ?m1 (SpellHit ?msg) (putMatch mid ?m1 s)"
  let ?s' = "fst (handleSpellHit db mid sid key s)"
  note after = handleSpellHit_match_after [OF g f p, where db = db]
  have run: "handleSpellHit db mid sid key s =
               (if 0 < ?newHp then (?s1, Returned)
                else endMatch db mid (mp_id (getPlayer ?m1 (sp_owner ?sp))) ?s1)"
    by (rule handleSpellHit_player [OF g f p])
  have s1: "getMatch ?s1 mid = Some ?m1" by simp
  have stored: "mp_hp (getPlayer m' k) = ?newHp" if "getMatch ?s' mid = Some m'" for m'
  proof -
    from after(1) that
    have "m' = ?m1 \<or> m' = ?m1\<lparr>m_status := completed\<rparr>" by auto
    then show ?thesis by (auto simp add: applySpellHit_fields)
  qed
  have msgs: "hpNonNegative s \<longrightarrow>
             0 \<le> sh_oldHp ?msg \<and> 0 \<le> sh_player1Hp ?msg \<and> 0 \<le> sh_player2Hp ?msg"
  proof
    assume inv: "hpNonNegative s"
    from hpNonNegative_getMatch [OF inv g]
    have hp: "0 \<le> mp_hp (m_player1 m)" "0 \<le> mp_hp (m_player2 m)" by simp_all
    then have "0 \<le> mp_hp (getPlayer m k)" by (cases k) (simp_all add: getPlayer_def)
    with applySpellHit_nonneg [OF hp, of "protoDamageReceived s" i ?sp k]
    show "0 \<le> sh_oldHp ?msg \<and> 0 \<le> sh_player1Hp ?msg \<and> 0 \<le> sh_player2Hp ?msg"
      by (simp add: spellHitMsgOf_fields)
  qed
  have hpm: "mp_hp (getPlayer ?m1 k) = ?newHp" "sh_remainingHp ?msg = ?newHp" "0 \<le> ?newHp"
    by (simp_all add: applySpellHit_fields spellHitMsgOf_fields)
  have alive: "0 < ?newHp \<longrightarrow> getMatch ?s' mid = Some ?m1"
    using after(2) by blast
  from hpm s1 run alive after(1) stored msgs handleSpellHit_outbox [OF g f p, where db = db]
  show "let sp = m_activeSpells m ! i;
           newHp = max 0 (mp_hp (getPlayer m k) - sp_damage sp);
           m1 = applySpellHit (protoDamageReceived s) i sp k m;
           msg = spellHitMsgOf sid sp k (mp_hp (getPlayer m k)) m1;
           s1 = broadcast m1 (SpellHit msg) (putMatch mid m1 s);
           s' = fst (handleSpellHit db mid sid key s)
       in 0 \<le> newHp \<and>
          mp_hp (getPlayer m1 k) = newHp \<and>
          getMatch s1 mid = Some m1 \<and>
          handleSpellHit db mid sid key s =
            (if 0 < newHp then (s1, Returned)
             else endMatch db mid (mp_id (getPlayer m1 (sp_owner sp))) s1) \<and>
          (0 < newHp \<longrightarrow> getMatch s' mid = Some m1) \<and>
          (getMatch s' mid = None \<or> getMatch s' mid = Some m1 \<or>
           getMatch s' mid = Some (m1\<lparr>m_status := completed\<rparr>)) \<and>
          (\<forall>m'. getMatch s' mid = Some m' \<longrightarrow> mp_hp (getPlayer m' k) = newHp) \<and>
          sh_remainingHp msg = newHp \<and>
          (\<exists>r. outbox s' =
                 outbox s
                 @ (if ws_open (sockets s (mp_ws (m_player1 m)))
                    then [(mp_ws (m_player1 m), SpellHit msg)] else [])
                 @ (if ws_open (sockets s (mp_ws (m_player2 m)))
                    then [(mp_ws (m_player2 m), SpellHit msg)] else [])
                 @ r) \<and>
          (hpNonNegative s \<longrightarrow>
             0 \<le> sh_oldHp msg \<and> 0 \<le> sh_player1Hp msg \<and> 0 \<le> sh_player2Hp msg)"
    unfolding Let_def by blast
next
  fix m
  assume "getMatch s mid = Some m \<and> (\<forall>k. matchProp (protoDamageReceived s) m key \<noteq> PlayerRef k)"
  then show "\<exists>m'. getMatch (fst (handleSpellHit db mid sid key s)) mid = Some m' \<and>
            mp_hp (m_player1 m') = mp_hp (m_player1 m) \<and>
            mp_hp (m_player2 m') = mp_hp (m_player2 m)"
    using handleSpellHit_other_target [of s mid m key db sid] by blast
next
  assume "hpNonNegative s"
  then show "hpNonNegative (reportHits db reports s)"
    by (rule reportHits_hpNonNegative)
qed

text \<open>
  C3, witness: the fire arrow of alice (damage 25) hits bob at 200 hit points; a report
  of the same spell for the array of spells leaves both at their hit points; and a
  sequence of four reports, two of them for targets that are no players, keeps every
  hp in the registry non-negative.
\<close>

theorem handleSpellHit_hp_clamped_witness:
  "getMatch exActive ''m1'' = Some exMatch \<and>
   findIndex (\<lambda>sp. sp_id sp = ''s1'') (m_activeSpells exMatch) = Some 0 \<and>
   matchProp (protoDamageReceived exActive) exMatch ''player2'' = PlayerRef Player2 \<and>
   hpNonNegative exActive \<and>
   0 < max 0 (mp_hp (getPlayer exMatch Player2) - sp_damage (m_activeSpells exMatch ! 0)) \<and>
   getMatch (fst (handleSpellHit exStorage ''m1'' ''s1'' ''player2'' exActive)) ''m1'' =
     Some (applySpellHit None 0 exSpell Player2 exMatch) \<and>
   mp_hp (getPlayer (applySpellHit None 0 exSpell Player2 exMatch) Player2) = 175 \<and>
   sh_remainingHp (spellHitMsgOf ''s1'' exSpell Player2 200 (applySpellHit None 0 exSpell Player2 exMatch)) = 175 \<and>
   0 \<le> sh_player1Hp (spellHitMsgOf ''s1'' exSpell Player2 200 (applySpellHit None 0 exSpell Player2 exMatch)) \<and>
   (\<forall>k. matchProp (protoDamageReceived exActive) exMatch ''activeSpells'' \<noteq> PlayerRef k) \<and>
   (\<exists>m'. getMatch (fst (handleSpellHit exStorage ''m1'' ''s1'' ''activeSpells'' exActive)) ''m1'' = Some m' \<and>
         mp_hp (m_player1 m') = 200 \<and> mp_hp (m_player2 m') = 200) \<and>
   hpNonNegative (reportHits exStorage
     [(''m1'', ''s1'', ''status''), (''m1'', ''s1'', ''player2''), (''m1'', ''s1'', ''player2''),
      (''m1'', ''s2'', ''__proto__'')] exActive)"
proof -
  have inv: "hpNonNegative exActive"
    by (simp add: hpNonNegative_def exActive_def exMatch_def exMatchPlayer_def)
  have p: "matchProp (protoDamageReceived exActive) exMatch ''player2'' = PlayerRef Player2"
    by simp
  have o: "\<forall>k. matchProp (protoDamageReceived exActive) exMatch ''activeSpells'' \<noteq> PlayerRef k"
    by (simp add: exActive_keys)
  have a: "0 < max 0 (mp_hp (getPlayer exMatch Player2) - sp_damage (m_activeSpells exMatch ! 0))"
    by (simp add: exMatch_spells)
  have hp: "mp_hp (m_player1 exMatch) = 200" "mp_hp (m_player2 exMatch) = 200"
    by (simp_all add: exMatch_def exMatchPlayer_def)
  note t = handleSpellHit_hp_clamped [where s = exActive and mid = "''m1''" and sid = "''s1''"
      and key = "''player2''" and db = exStorage
      and reports = "[(''m1'', ''s1'', ''status''), (''m1'', ''s1'', ''player2''),
                      (''m1'', ''s1'', ''player2''), (''m1'', ''s2'', ''__proto__'')]", unfolded Let_def]
  note u = handleSpellHit_hp_clamped [where s = exActive and mid = "''m1''" and sid = "''s1''"
      and key = "''activeSpells''" and db = exStorage and reports = "[]"]
  from t inv have seq:
    "hpNonNegative (reportHits exStorage
       [(''m1'', ''s1'', ''status''), (''m1'', ''s1'', ''player2''), (''m1'', ''s1'', ''player2''),
        (''m1'', ''s2'', ''__proto__'')] exActive)"
    by blast
  from t exActive_match exActive_found p have step:
    "sh_remainingHp (spellHitMsgOf ''s1'' (m_activeSpells exMatch ! 0) Player2 (mp_hp (getPlayer exMatch Player2))
        (applySpellHit (protoDamageReceived exActive) 0 (m_activeSpells exMatch ! 0) Player2 exMatch)) =
       max 0 (mp_hp (getPlayer exMatch Player2) - sp_damage (m_activeSpells exMatch ! 0)) \<and>
     (hpNonNegative exActive \<longrightarrow>
        0 \<le> sh_player1Hp (spellHitMsgOf ''s1'' (m_activeSpells exMatch ! 0) Player2 (mp_hp (getPlayer exMatch Player2))
        (applySpellHit (protoDamageReceived exActive) 0 (m_activeSpells exMatch ! 0) Player2 exMatch)))"
    by blast
  with inv have msg:
    "sh_remainingHp (spellHitMsgOf ''s1'' exSpell Player2 200 (applySpellHit None 0 exSpell Player2 exMatch)) = 175"
    "0 \<le> sh_player1Hp (spellHitMsgOf ''s1'' exSpell Player2 200 (applySpellHit None 0 exSpell Player2 exMatch))"
    by (simp_all add: exMatch_spells exActive_proto)
  from u exActive_match o have
    "\<exists>m'. getMatch (fst (handleSpellHit exStorage ''m1'' ''s1'' ''activeSpells'' exActive)) ''m1'' = Some m' \<and>
         mp_hp (m_player1 m') = mp_hp (m_player1 exMatch) \<and> mp_hp (m_player2 m') = mp_hp (m_player2 exMatch)"
    by blast
  then have other:
    "\<exists>m'. getMatch (fst (handleSpellHit exStorage ''m1'' ''s1'' ''activeSpells'' exActive)) ''m1'' = Some m' \<and>
         mp_hp (m_player1 m') = 200 \<and> mp_hp (m_player2 m') = 200"
    by (simp add: hp)
  from exActive_match exActive_found p inv a exActive_hit(1,3) msg o other seq
  show ?thesis by blast
qed


end
